(* ===== verification/Prelude.thy ===== *)
theory Prelude
  imports Main "HOL-Library.Word" "HOL-Library.AList"
begin

text \<open>
  Shared vocabulary of the development: the C integer types, the
  collection of constants, error numbers, raw byte memory with the \<^verbatim>\<open>bpf_probe_read\<close> family
  of reads, and little-endian loads and stores.

  Memory is a partial function from 64-bit addresses to bytes; an address that
  is not in its domain faults. A faulting \<^verbatim>\<open>bpf_probe_read*\<close> returns a negative
  error and leaves zeroes in the destination (the behaviour of the kernel
  helper), so that \<^verbatim>\<open>BPF_CORE_READ\<close> of a bad pointer evaluates to zero. The
  target is little-endian (the repository builds for x86 and arm64 only).
\<close>

unbundle bit_operations_syntax

section \<open>C integer types\<close>

type_synonym u8 = "8 word"
type_synonym u16 = "16 word"
type_synonym u32 = "32 word"
type_synonym u64 = "64 word"
type_synonym ptr = "64 word"
type_synonym bytes = "8 word list"

named_theorems c_consts "numeric constants of the C sources"

abbreviation NULL :: ptr where
  "NULL \<equiv> 0"

section \<open>Error numbers (\<^verbatim>\<open>define/errno.h\<close>)\<close>

definition EPERM :: int where [c_consts]: "EPERM = 1"
definition ENOENT :: int where [c_consts]: "ENOENT = 2"
definition E2BIG :: int where [c_consts]: "E2BIG = 7"
definition EFAULT :: int where [c_consts]: "EFAULT = 14"
definition EEXIST :: int where [c_consts]: "EEXIST = 17"
definition EINVAL :: int where [c_consts]: "EINVAL = 22"

section \<open>Lists\<close>

lemma list_update_same_length [simp]:
  "length (xs[i := v]) = length xs"
  by simp

text \<open>Writing \<open>ys\<close> over the front of a buffer, as a copy of \<open>length ys\<close> bytes does.\<close>

definition overwrite :: "'a list \<Rightarrow> 'a list \<Rightarrow> 'a list" where
  "overwrite buf ys = ys @ drop (length ys) buf"

lemma length_overwrite [simp]:
  "length ys \<le> length buf \<Longrightarrow> length (overwrite buf ys) = length buf"
  by (simp add: overwrite_def)

text \<open>Writing \<open>ys\<close> at offset \<open>k\<close> of a buffer.\<close>

definition write_at :: "nat \<Rightarrow> 'a list \<Rightarrow> 'a list \<Rightarrow> 'a list" where
  "write_at k ys buf = take k buf @ ys @ drop (k + length ys) buf"

lemma length_write_at [simp]:
  "k + length ys \<le> length buf \<Longrightarrow> length (write_at k ys buf) = length buf"
  by (simp add: write_at_def)

lemma take_write_at:
  "k \<le> length buf \<Longrightarrow> n \<le> k \<Longrightarrow> take n (write_at k ys buf) = take n buf"
  by (simp add: write_at_def)

lemma write_at_range:
  "k \<le> length buf \<Longrightarrow> take (length ys) (drop k (write_at k ys buf)) = ys"
  by (simp add: write_at_def)

text \<open>Moving an eliminator through an \<open>if\<close>.\<close>

lemma case_option_if:
  "case_option a f (if b then x else y) = (if b then case_option a f x else case_option a f y)"
  by simp

section \<open>Words\<close>

lemma ucast_of_bool [simp]:
  "(ucast (of_bool b :: 'a::len word) :: 'b::len word) = of_bool b"
  by (cases b) simp_all

lemma unat_ucast_le: "unat (ucast (x :: 'a::len word) :: 'b::len word) \<le> unat x"
  by (simp add: unsigned_ucast_eq take_bit_nat_less_eq_self)

lemma u8_u16_u8 [simp]: "(ucast (ucast (x :: u8) :: u16) :: u8) = x"
  by (rule bit_word_eqI) (simp add: bit_simps)

lemma u8_to_u16_inject: "(ucast (x :: u8) :: u16) = ucast y \<longleftrightarrow> x = y"
  by (metis u8_u16_u8)

lemma u8_u16_u64 [simp]: "(ucast (ucast (x :: u8) :: u16) :: u64) = ucast x"
  by (rule bit_word_eqI) (auto simp: bit_simps dest: bit_imp_le_length)

lemma unat_add_of_nat:
  "unat (h :: 'a::len word) + j < 2 ^ LENGTH('a) \<Longrightarrow> unat (h + of_nat j) = unat h + j"
  by (simp add: unat_word_ariths unat_of_nat mod_simps)

section \<open>Little-endian encoding\<close>

fun le_word :: "bytes \<Rightarrow> 'a::len word" where
  "le_word [] = 0"
| "le_word (b # bs) = ucast b OR push_bit 8 (le_word bs)"

definition to_le :: "nat \<Rightarrow> 'a::len word \<Rightarrow> bytes" where
  "to_le n w = map (\<lambda>i. ucast (drop_bit (8 * i) w)) [0..<n]"

lemma length_to_le [simp]: "length (to_le n w) = n"
  by (simp add: to_le_def)

lemma bit_le_word:
  "bit (le_word bs :: 'a::len word) n \<longleftrightarrow>
     n < LENGTH('a) \<and> n div 8 < length bs \<and> bit (bs ! (n div 8)) (n mod 8)"
proof (induction bs arbitrary: n)
  case Nil
  then show ?case by simp
next
  case (Cons b bs)
  show ?case
  proof (cases "n < 8")
    case True
    then show ?thesis
      by (auto simp: bit_simps bit_or_iff bit_push_bit_iff)
  next
    case False
    then have n: "n div 8 = Suc ((n - 8) div 8)" "n mod 8 = (n - 8) mod 8"
      by (simp_all add: le_div_geq le_mod_geq)
    have nb: "\<not> bit b n" using False
      using bit_imp_le_length [of b n] by auto
    show ?thesis
      using False nb Cons.IH [of "n - 8"] by (auto simp: bit_simps bit_or_iff bit_push_bit_iff n)
  qed
qed

theorem le_word_to_le:
  assumes "LENGTH('a::len) = 8 * n"
  shows "le_word (to_le n w) = (w :: 'a word)"
proof (rule bit_word_eqI)
  fix k assume k: "k < LENGTH('a)"
  then have "k div 8 < n" using assms by (simp add: less_mult_imp_div_less mult.commute)
  then show "bit (le_word (to_le n w) :: 'a word) k = bit w k"
    using k by (simp add: bit_le_word to_le_def bit_simps)
qed

theorem to_le_le_word:
  assumes "LENGTH('a::len) = 8 * length bs"
  shows "to_le (length bs) (le_word bs :: 'a word) = bs"
proof (rule nth_equalityI)
  show "length (to_le (length bs) (le_word bs :: 'a word)) = length bs" by simp
next
  fix i assume "i < length (to_le (length bs) (le_word bs :: 'a word))"
  then have i: "i < length bs" by simp
  show "to_le (length bs) (le_word bs :: 'a word) ! i = bs ! i"
  proof (rule bit_word_eqI)
    fix k assume k: "k < LENGTH(8)"
    then have eqs: "(8 * i + k) div 8 = i" "(8 * i + k) mod 8 = k" by simp_all
    have "8 * i + k < LENGTH('a)" using assms i k by simp
    then show "bit (to_le (length bs) (le_word bs :: 'a word) ! i) k = bit (bs ! i) k"
      using i k by (simp add: to_le_def bit_simps bit_le_word eqs)
  qed
qed

text \<open>Replacing an element by one of smaller measure.\<close>

lemma sum_list_update_less:
  "i < length xs \<Longrightarrow> (f x :: nat) < f (xs ! i) \<Longrightarrow> sum_list (map f (xs[i := x])) < sum_list (map f xs)"
proof (induction xs arbitrary: i)
  case (Cons y xs)
  then show ?case by (cases i) auto
qed simp

section \<open>Raw memory and safe reads\<close>

type_synonym bytemem = "u64 \<Rightarrow> u8 option"

definition probe_read :: "bytemem \<Rightarrow> nat \<Rightarrow> ptr \<Rightarrow> int \<times> bytes" where
  "probe_read m n a =
     (let cells = map (\<lambda>i. m (a + of_nat i)) [0..<n]
      in if None \<in> set cells then (- EFAULT, replicate n 0) else (0, map the cells))"

lemma length_probe_read [simp]: "length (snd (probe_read m n a)) = n"
  by (simp add: probe_read_def Let_def)

lemma probe_read_rc: "fst (probe_read m n a) = 0 \<or> fst (probe_read m n a) = - EFAULT"
  by (simp add: probe_read_def Let_def)

lemma probe_read_fault:
  "m a = None \<Longrightarrow> 0 < n \<Longrightarrow> probe_read m n a = (- EFAULT, replicate n 0)"
  by (force simp: probe_read_def Let_def image_iff)

lemma probe_read_ok:
  "(\<And>i. i < n \<Longrightarrow> m (a + of_nat i) = Some (f i)) \<Longrightarrow> probe_read m n a = (0, map f [0..<n])"
  by (auto simp: probe_read_def Let_def image_iff)

definition load8 :: "bytemem \<Rightarrow> ptr \<Rightarrow> u8" where
  "load8 m a = le_word (snd (probe_read m 1 a))"

definition load16 :: "bytemem \<Rightarrow> ptr \<Rightarrow> u16" where
  "load16 m a = le_word (snd (probe_read m 2 a))"

definition load32 :: "bytemem \<Rightarrow> ptr \<Rightarrow> u32" where
  "load32 m a = le_word (snd (probe_read m 4 a))"

definition load64 :: "bytemem \<Rightarrow> ptr \<Rightarrow> u64" where
  "load64 m a = le_word (snd (probe_read m 8 a))"

text \<open>
  \<^verbatim>\<open>bpf_probe_read_kernel_str\<close>: copies up to and including the first NUL, at
  most \<open>size\<close> bytes, the last of which is then forced to NUL; the bytes of the
  destination after the NUL keep what they held. The result is the number of
  bytes written, or a negative error with the destination zeroed.
\<close>

fun str_scan :: "bytemem \<Rightarrow> nat \<Rightarrow> ptr \<Rightarrow> bytes option" where
  "str_scan m 0 a = Some []"
| "str_scan m (Suc n) a =
     (case m a of
        None \<Rightarrow> None
      | Some b \<Rightarrow> (if b = 0 then Some [0] else map_option (Cons b) (str_scan m n (a + 1))))"

definition probe_read_str :: "bytemem \<Rightarrow> bytes \<Rightarrow> ptr \<Rightarrow> int \<times> bytes" where
  "probe_read_str m dst a =
     (case str_scan m (length dst) a of
        None \<Rightarrow> (- EFAULT, replicate (length dst) 0)
      | Some s \<Rightarrow>
          (let s' = (if s \<noteq> [] \<and> last s \<noteq> 0 then butlast s @ [0] else s)
           in (int (length s'), overwrite dst s')))"

lemma length_str_scan: "str_scan m n a = Some s \<Longrightarrow> length s \<le> n"
  by (induction m n a arbitrary: s rule: str_scan.induct) (auto split: option.splits if_splits)

lemma length_probe_read_str [simp]: "length (snd (probe_read_str m dst a)) = length dst"
proof (cases "str_scan m (length dst) a")
  case (Some s)
  then have "length s \<le> length dst" by (rule length_str_scan)
  with Some show ?thesis
    by (cases s rule: rev_cases) (auto simp: probe_read_str_def Let_def)
qed (simp add: probe_read_str_def)

text \<open>A string that was copied without a fault is NUL terminated inside its buffer.\<close>

lemma str_scan_nonempty: "str_scan m (Suc n) a = Some s \<Longrightarrow> s \<noteq> []"
  by (auto split: option.splits if_splits)

theorem probe_read_str_terminated:
  assumes "dst \<noteq> []"
  shows "0 \<in> set (snd (probe_read_str m dst a))"
proof (cases "str_scan m (length dst) a")
  case None
  with assms show ?thesis by (simp add: probe_read_str_def)
next
  case (Some s)
  with assms have "s \<noteq> []" by (cases dst) (auto dest: str_scan_nonempty split: option.splits if_splits)
  with Some show ?thesis
    by (cases s rule: rev_cases) (auto simp: probe_read_str_def Let_def overwrite_def)
qed

end
