(* ===== verification/Interleave.thy ===== *)
theory Interleave
  imports Prelude
begin

text \<open>
  Handlers that are not atomic. A program is a tree of steps on the shared state, each of them one
  access to what other programs can change, that chooses what comes next from the state it found;
  programs on several CPUs interleave at these steps. What one program does alone is \<open>exec\<close>; \<open>safe\<close> is an invariant that
  no interleaving breaks, with a count of the resources a program holds between its steps.
\<close>

section \<open>Programs\<close>

datatype 's program = Done | Step "'s \<Rightarrow> 's" "'s \<Rightarrow> 's program"

primrec exec :: "'s program \<Rightarrow> 's \<Rightarrow> 's" where
  "exec Done s = s"
| "exec (Step f next_prog) s = exec (next_prog s) (f s)"

definition act :: "('s \<Rightarrow> 's) \<Rightarrow> 's program \<Rightarrow> 's program" where
  "act f p = Step f (\<lambda>_. p)"

definition ask :: "('s \<Rightarrow> 'a) \<Rightarrow> ('a \<Rightarrow> 's program) \<Rightarrow> 's program" where
  "ask q p = Step id (\<lambda>s. p (q s))"

lemma exec_act [simp]: "exec (act f p) s = exec p (f s)"
  by (simp add: act_def)

lemma exec_ask [simp]: "exec (ask q p) s = exec (p (q s)) s"
  by (simp add: ask_def)

section \<open>Interleavings\<close>

text \<open>A program is entered, a running program takes a step, or something else changes the state.\<close>

inductive interleaved :: "'s program set \<Rightarrow> ('s \<Rightarrow> 's) set \<Rightarrow> 's \<times> 's program list \<Rightarrow> 's \<times> 's program list \<Rightarrow> bool"
  for progs :: "'s program set" and outside :: "('s \<Rightarrow> 's) set"
where
  enter: "p \<in> progs \<Longrightarrow> interleaved progs outside (s, ps) (s, ps @ [p])"
| step: "i < length ps \<Longrightarrow> ps ! i = Step f p \<Longrightarrow> interleaved progs outside (s, ps) (f s, ps[i := p s])"
| other: "g \<in> outside \<Longrightarrow> interleaved progs outside (s, ps) (g s, ps)"

abbreviation interleaving ::
  "'s program set \<Rightarrow> ('s \<Rightarrow> 's) set \<Rightarrow> 's \<times> 's program list \<Rightarrow> 's \<times> 's program list \<Rightarrow> bool" where
  "interleaving progs outside \<equiv> (interleaved progs outside)\<^sup>*\<^sup>*"

lemma interleaved_head: "p = Step f k \<Longrightarrow> interleaved progs outside (s, p # ps) (f s, k s # ps)"
  using interleaved.step [of 0 "p # ps" f k progs outside s] by simp

lemma interleaving_exec:
  "i < length ps \<Longrightarrow> ps ! i = p \<Longrightarrow> interleaving progs outside (s, ps) (exec p s, ps[i := Done])"
proof (induction p arbitrary: s ps)
  case Done
  then have "ps[i := Done] = ps" by (metis list_update_id)
  then show ?case by simp
next
  case (Step f k)
  have one: "interleaved progs outside (s, ps) (f s, ps[i := k s])"
    using Step.prems by (intro interleaved.step) simp_all
  have "interleaving progs outside (f s, ps[i := k s]) (exec (k s) (f s), ps[i := k s, i := Done])"
    using Step.prems by (intro Step.IH) simp_all
  with one show ?case by (simp add: converse_rtranclp_into_rtranclp)
qed

section \<open>Invariants of every interleaving\<close>

text \<open>A program that holds \<open>n\<close> of the resources that \<open>held\<close> counts in the state keeps the invariant and the
  count with each of its steps, and holds none when it is done.\<close>

inductive safe :: "('s \<Rightarrow> bool) \<Rightarrow> ('s \<Rightarrow> nat) \<Rightarrow> nat \<Rightarrow> 's program \<Rightarrow> bool"
  for good :: "'s \<Rightarrow> bool" and held :: "'s \<Rightarrow> nat"
where
  finished: "safe good held 0 Done"
| step: "(\<And>s. good s \<Longrightarrow> n \<le> held s \<Longrightarrow>
      good (f s) \<and> (\<exists>n'. safe good held n' (p s) \<and> held (f s) + n = held s + n')) \<Longrightarrow>
    safe good held n (Step f p)"

inductive_cases safe_DoneE: "safe good held n Done"
inductive_cases safe_StepE: "safe good held n (Step f p)"

lemma safe_act:
  "(\<And>s. good s \<Longrightarrow> n \<le> held s \<Longrightarrow> good (f s) \<and> held (f s) + n = held s + n') \<Longrightarrow> safe good held n' p \<Longrightarrow>
   safe good held n (act f p)"
  unfolding act_def by (rule safe.step) blast

lemma safe_ask:
  "(\<And>s. good s \<Longrightarrow> safe good held n (p (q s))) \<Longrightarrow> safe good held n (ask q p)"
  unfolding ask_def by (rule safe.step) auto

definition all_safe :: "('s \<Rightarrow> bool) \<Rightarrow> ('s \<Rightarrow> nat) \<Rightarrow> 's \<times> 's program list \<Rightarrow> bool" where
  "all_safe good held = (\<lambda>(s, ps). good s \<and> (\<exists>ns. list_all2 (safe good held) ns ps \<and> held s = sum_list ns))"

text \<open>What the interleavings of a set of programs rely on: that each program is safe from its start, and
  that what happens outside the programs keeps the invariant and the count.\<close>

locale safe_programs =
  fixes progs :: "'s program set"
    and outside :: "('s \<Rightarrow> 's) set"
    and good :: "'s \<Rightarrow> bool"
    and held :: "'s \<Rightarrow> nat"
  assumes progs_safe: "p \<in> progs \<Longrightarrow> safe good held 0 p"
    and outside_good: "g \<in> outside \<Longrightarrow> good s \<Longrightarrow> good (g s)"
    and outside_held: "g \<in> outside \<Longrightarrow> good s \<Longrightarrow> held (g s) = held s"
begin

lemma all_safe_step:
  assumes "interleaved progs outside st st'" and "all_safe good held st"
  shows "all_safe good held st'"
  using assms
proof (induction rule: interleaved.induct)
  case (enter p s ps)
  then obtain ns where ns: "good s" "list_all2 (safe good held) ns ps" "held s = sum_list ns"
    by (auto simp: all_safe_def)
  have "list_all2 (safe good held) (ns @ [0]) (ps @ [p])"
    using ns(2) progs_safe [OF enter.hyps] by (simp add: list_all2_appendI)
  moreover have "held s = sum_list (ns @ [0])" using ns(3) by simp
  ultimately show ?case using ns(1) unfolding all_safe_def by blast
next
  case (step i ps f p s)
  then obtain ns where ns: "good s" "list_all2 (safe good held) ns ps" "held s = sum_list ns"
    by (auto simp: all_safe_def)
  have i: "i < length ns" using ns(2) step.hyps(1) by (simp add: list_all2_lengthD)
  then have "safe good held (ns ! i) (Step f p)" using ns(2) step.hyps by (metis list_all2_nthD)
  moreover have le: "ns ! i \<le> held s" using i ns(3) by (simp add: elem_le_sum_list)
  ultimately obtain n' where n': "good (f s)" "safe good held n' (p s)" "held (f s) + ns ! i = held s + n'"
    using ns(1) by (blast elim: safe_StepE)
  have "list_all2 (safe good held) (ns[i := n']) (ps[i := p s])"
    using ns(2) n'(2) by (simp add: list_all2_update_cong)
  moreover have "held (f s) = sum_list (ns[i := n'])"
    using n'(3) le i ns(3) by (simp add: sum_list_update)
  ultimately show ?case using n'(1) by (auto simp: all_safe_def)
next
  case (other g s ps)
  then show ?case using outside_good outside_held by (auto simp: all_safe_def)
qed

lemma all_safe_interleaving:
  "interleaving progs outside st st' \<Longrightarrow> all_safe good held st \<Longrightarrow> all_safe good held st'"
  by (induction rule: rtranclp_induct) (auto intro: all_safe_step)

text \<open>Programs of the set that have just been entered are safe.\<close>

lemma all_safe_start:
  assumes "good s" "held s = 0" "set ps \<subseteq> progs"
  shows "all_safe good held (s, ps)"
proof -
  have "list_all2 (safe good held) (replicate (length ps) 0) ps"
    using assms(3) by (auto simp: list_all2_conv_all_nth intro!: progs_safe dest: nth_mem)
  then show ?thesis using assms(1,2) by (auto simp: all_safe_def sum_list_replicate intro!: exI [of _ "replicate (length ps) 0"])
qed

end

lemma interleaving_mono:
  assumes "interleaving progs outside st st'" "progs \<subseteq> progs'" "outside \<subseteq> outside'"
  shows "interleaving progs' outside' st st'"
  using assms(1)
proof (induction rule: rtranclp_induct)
  case (step y z)
  from step.hyps(2) have "interleaved progs' outside' y z"
    using assms(2,3) by (induction rule: interleaved.induct) (auto intro: interleaved.intros)
  with step.IH show ?case by (rule rtranclp.rtrancl_into_rtrancl)
qed simp

text \<open>When every program is done, nothing is held.\<close>

lemma all_safe_done:
  assumes "all_safe good held (s, ps)" "\<And>p. p \<in> set ps \<Longrightarrow> p = Done"
  shows "good s \<and> held s = 0"
proof -
  obtain ns where ns: "good s" "list_all2 (safe good held) ns ps" "held s = sum_list ns"
    using assms(1) by (auto simp: all_safe_def)
  have "n = 0" if "n \<in> set ns" for n
  proof -
    from that obtain i where "i < length ns" "n = ns ! i" by (auto simp: in_set_conv_nth)
    with ns(2) assms(2) [of "ps ! i"] have "safe good held n Done"
      by (metis list_all2_lengthD list_all2_nthD nth_mem)
    then show ?thesis by (auto elim: safe_DoneE)
  qed
  with ns show ?thesis by simp
qed

end
