(* ===== verification/Bpf_Maps.thy ===== *)
theory Bpf_Maps
  imports Prelude
begin

text \<open>
  BPF maps: the hash and array maps the programs declare, their three helpers
  as documented in \<^verbatim>\<open>ebpf/headers/bpf/bpf_helper_defs.h\<close>, and the two copies of the
  compound routines built on them (\<^verbatim>\<open>bpf/map_helpers.h\<close>, which the programs include,
  and \<^verbatim>\<open>bpf/bpf_map_helpers.h\<close>). The interface of the helpers is the locale
  \<open>bpf_map\<close>; it is interpreted on the hash map and on the array map.
\<close>

section \<open>Hash maps\<close>

datatype map_flag = BPF_ANY | BPF_NOEXIST | BPF_EXIST

record ('k, 'v) htab =
  ht_max :: nat
  ht_elems :: "('k \<times> 'v) list"

definition htab_empty :: "nat \<Rightarrow> ('k, 'v) htab" where
  "htab_empty n = \<lparr>ht_max = n, ht_elems = []\<rparr>"

definition htab_lookup :: "('k, 'v) htab \<Rightarrow> 'k \<Rightarrow> 'v option" where
  "htab_lookup h k = map_of (ht_elems h) k"

definition htab_update ::
  "('k, 'v) htab \<Rightarrow> 'k \<Rightarrow> 'v \<Rightarrow> map_flag \<Rightarrow> int \<times> ('k, 'v) htab" where
  "htab_update h k v flag =
     (case htab_lookup h k of
        Some _ \<Rightarrow>
          (if flag = BPF_NOEXIST then (- EEXIST, h)
           else (0, h\<lparr>ht_elems := AList.update k v (ht_elems h)\<rparr>))
      | None \<Rightarrow>
          (if flag = BPF_EXIST then (- ENOENT, h)
           else if length (ht_elems h) \<ge> ht_max h then (- E2BIG, h)
           else (0, h\<lparr>ht_elems := AList.update k v (ht_elems h)\<rparr>)))"

definition htab_delete :: "('k, 'v) htab \<Rightarrow> 'k \<Rightarrow> int \<times> ('k, 'v) htab" where
  "htab_delete h k =
     (case htab_lookup h k of
        None \<Rightarrow> (- ENOENT, h)
      | Some _ \<Rightarrow> (0, h\<lparr>ht_elems := AList.delete k (ht_elems h)\<rparr>))"

definition htab_inv :: "('k, 'v) htab \<Rightarrow> bool" where
  "htab_inv h \<longleftrightarrow> distinct (map fst (ht_elems h)) \<and> length (ht_elems h) \<le> ht_max h"

section \<open>Array maps\<close>

text \<open>
  Every index below the size of the array holds a value, from the creation of
  the map on; there is nothing to insert and nothing to delete.
\<close>

definition arr_lookup :: "'v list \<Rightarrow> u32 \<Rightarrow> 'v option" where
  "arr_lookup a i = (if unat i < length a then Some (a ! unat i) else None)"

definition arr_update :: "'v list \<Rightarrow> u32 \<Rightarrow> 'v \<Rightarrow> map_flag \<Rightarrow> int \<times> 'v list" where
  "arr_update a i v flag =
     (if unat i \<ge> length a then (- E2BIG, a)
      else if flag = BPF_NOEXIST then (- EEXIST, a)
      else (0, a[unat i := v]))"

definition arr_delete :: "'v list \<Rightarrow> u32 \<Rightarrow> int \<times> 'v list" where
  "arr_delete a i = (- EINVAL, a)"

section \<open>The interface of the map helpers\<close>

locale bpf_map =
  fixes lookup :: "'m \<Rightarrow> 'k \<Rightarrow> 'v option"
    and update :: "'m \<Rightarrow> 'k \<Rightarrow> 'v \<Rightarrow> map_flag \<Rightarrow> int \<times> 'm"
    and delete :: "'m \<Rightarrow> 'k \<Rightarrow> int \<times> 'm"
    and inv :: "'m \<Rightarrow> bool"
  assumes update_ok: "update m k v fl = (0, m') \<Longrightarrow> lookup m' = (lookup m)(k \<mapsto> v)"
    and update_err: "update m k v fl = (e, m') \<Longrightarrow> e \<noteq> 0 \<Longrightarrow> m' = m"
    and update_present: "lookup m k = Some x \<Longrightarrow> fst (update m k v BPF_ANY) = 0"
    and update_noexist_present: "lookup m k = Some x \<Longrightarrow> fst (update m k v BPF_NOEXIST) = - EEXIST"
    and update_absent: "lookup m k = None \<Longrightarrow> update m k v BPF_ANY = update m k v BPF_NOEXIST"
    and update_absent_err: "lookup m k = None \<Longrightarrow> fst (update m k v BPF_ANY) \<noteq> - EEXIST"
    and update_inv: "inv m \<Longrightarrow> inv (snd (update m k v fl))"
    and delete_ok: "delete m k = (0, m') \<Longrightarrow> lookup m' = (lookup m)(k := None)"
    and delete_err: "delete m k = (e, m') \<Longrightarrow> e \<noteq> 0 \<Longrightarrow> m' = m"
    and delete_inv: "inv m \<Longrightarrow> inv (snd (delete m k))"
begin

lemma lookup_update:
  "lookup (snd (update m k v fl)) k' =
     (if fst (update m k v fl) = 0 \<and> k' = k then Some v else lookup m k')"
proof (cases "update m k v fl")
  case (Pair e m')
  then show ?thesis
    by (cases "e = 0") (auto dest: update_ok update_err)
qed

lemma lookup_update_other: "k' \<noteq> k \<Longrightarrow> lookup (snd (update m k v fl)) k' = lookup m k'"
  by (simp add: lookup_update)

lemma lookup_delete:
  "lookup (snd (delete m k)) k' =
     (if fst (delete m k) = 0 \<and> k' = k then None else lookup m k')"
proof (cases "delete m k")
  case (Pair e m')
  then show ?thesis
    by (cases "e = 0") (auto dest: delete_ok delete_err)
qed

end

text \<open>Hash maps: deleting a key that is there succeeds.\<close>

locale bpf_hash_map = bpf_map +
  assumes delete_present: "lookup m k = Some v \<Longrightarrow> fst (delete m k) = 0"
begin

lemma lookup_delete_same [simp]: "lookup (snd (delete m k)) k = None"
  by (cases "lookup m k") (auto simp: lookup_delete delete_present)

lemma lookup_delete_eq: "lookup (snd (delete m k)) = (lookup m)(k := None)"
proof (rule ext)
  fix k' show "lookup (snd (delete m k)) k' = ((lookup m)(k := None)) k'"
    by (cases "k' = k") (simp_all add: lookup_delete)
qed

end

text \<open>Array maps: no update or delete changes which keys are present.\<close>

locale bpf_array_map = bpf_map +
  assumes delete_fails: "fst (delete m k) \<noteq> 0"
begin

lemma delete_no_effect: "snd (delete m k) = m"
  by (metis delete_err delete_fails prod.collapse)

lemma lookup_after_delete: "lookup (snd (delete m k)) = lookup m"
  by (simp add: delete_no_effect)

end

lemma map_of_update: "map_of (AList.update k v xs) = (map_of xs)(k \<mapsto> v)"
  by (rule update_conv')

lemma map_of_delete: "map_of (AList.delete k xs) = (map_of xs)(k := None)"
  by (rule delete_conv')

lemma length_update_le:
  "length (AList.update k v xs) \<le> Suc (length xs)"
  by (induction xs) auto

lemma length_update_present:
  "map_of xs k = Some x \<Longrightarrow> length (AList.update k v xs) = length xs"
  by (induction xs) (auto split: if_splits)

interpretation htab: bpf_hash_map htab_lookup htab_update htab_delete htab_inv
proof (unfold_locales, goal_cases)
  case (7 m k v fl)
  then show ?case
    using length_update_le [of k v "ht_elems m"]
    by (auto simp: htab_inv_def htab_update_def htab_lookup_def length_update_present distinct_update
        split: option.splits)
next
  case (10 m k)
  then show ?case
    using length_delete_le [of k "ht_elems m"]
    by (auto simp: htab_inv_def htab_delete_def distinct_delete split: option.splits)
qed (auto simp: htab_update_def htab_delete_def htab_lookup_def map_of_update map_of_delete
      c_consts split: option.splits if_splits)

lemmas htab_simps [simp] = htab.lookup_update htab.lookup_delete_eq

interpretation arr: bpf_array_map arr_lookup arr_update arr_delete "\<lambda>_. True"
  by unfold_locales
    (auto simp: arr_update_def arr_delete_def arr_lookup_def c_consts fun_eq_iff nth_list_update
      simp flip: word_eq_iff_unsigned split: if_splits)

lemma htab_empty_inv: "htab_inv (htab_empty n)"
  by (simp add: htab_inv_def htab_empty_def)

lemma htab_lookup_empty [simp]: "htab_lookup (htab_empty n) k = None"
  by (simp add: htab_lookup_def htab_empty_def)

lemma htab_update_ht_max [simp]: "ht_max (snd (htab_update h k v fl)) = ht_max h"
  by (simp add: htab_update_def split: option.splits)

lemma htab_delete_ht_max [simp]: "ht_max (snd (htab_delete h k)) = ht_max h"
  by (simp add: htab_delete_def split: option.splits)

text \<open>An insertion can only fail because the map is full.\<close>

lemma htab_update_room:
  "length (ht_elems h) < ht_max h \<Longrightarrow> fst (htab_update h k v BPF_ANY) = 0"
  by (simp add: htab_update_def split: option.splits)

section \<open>Compound routines\<close>

text \<open>
  \<^verbatim>\<open>bpf_map_lookup_or_try_init\<close> makes three helper calls, and programs on other
  CPUs can run between them. The argument \<open>intf\<close> is what they do to the map between
  the failed lookup and the update; the routine run alone is the case
  \<open>intf = id\<close>. The result is the value found, \<open>None\<close> standing for the NULL pointer.
\<close>

definition lookup_or_try_init_any ::
  "('m \<Rightarrow> 'k \<Rightarrow> 'v option) \<Rightarrow> ('m \<Rightarrow> 'k \<Rightarrow> 'v \<Rightarrow> map_flag \<Rightarrow> int \<times> 'm) \<Rightarrow> ('m \<Rightarrow> 'm) \<Rightarrow>
   'm \<Rightarrow> 'k \<Rightarrow> 'v \<Rightarrow> 'v option \<times> 'm" where
  "lookup_or_try_init_any lookup update intf m k init =
     (case lookup m k of
        Some v \<Rightarrow> (Some v, m)
      | None \<Rightarrow>
          (let (err, m') = update (intf m) k init BPF_ANY
           in if err \<noteq> 0 \<and> err \<noteq> - EEXIST then (None, m') else (lookup m' k, m')))"

definition lookup_or_try_init_noexist ::
  "('m \<Rightarrow> 'k \<Rightarrow> 'v option) \<Rightarrow> ('m \<Rightarrow> 'k \<Rightarrow> 'v \<Rightarrow> map_flag \<Rightarrow> int \<times> 'm) \<Rightarrow> ('m \<Rightarrow> 'm) \<Rightarrow>
   'm \<Rightarrow> 'k \<Rightarrow> 'v \<Rightarrow> 'v option \<times> 'm" where
  "lookup_or_try_init_noexist lookup update intf m k init =
     (case lookup m k of
        Some v \<Rightarrow> (Some v, m)
      | None \<Rightarrow>
          (let (err, m') = update (intf m) k init BPF_NOEXIST
           in if err \<noteq> 0 \<and> err \<noteq> - EEXIST then (None, m') else (lookup m' k, m')))"

definition map_lookup_and_delete ::
  "('m \<Rightarrow> 'k \<Rightarrow> 'v option) \<Rightarrow> ('m \<Rightarrow> 'k \<Rightarrow> int \<times> 'm) \<Rightarrow> 'm \<Rightarrow> 'k \<Rightarrow> 'v option \<times> 'm" where
  "map_lookup_and_delete lookup delete m k =
     (case lookup m k of
        None \<Rightarrow> (None, m)
      | Some v \<Rightarrow> (Some v, snd (delete m k)))"

context bpf_map
begin

lemma try_init_variants_agree:
  "lookup_or_try_init_any lookup update id m k init =
   lookup_or_try_init_noexist lookup update id m k init"
  by (auto simp: lookup_or_try_init_any_def lookup_or_try_init_noexist_def update_absent
      split: option.splits)

lemma try_init_alone:
  "lookup_or_try_init_any lookup update id m k init = (r, m') \<Longrightarrow>
   lookup m' = (if lookup m k = None \<and> r \<noteq> None then (lookup m)(k \<mapsto> init) else lookup m) \<and>
   (r = lookup m' k) \<and> (lookup m k \<noteq> None \<longrightarrow> r = lookup m k) \<and> (r = None \<or> r = lookup m k \<or> r = Some init)"
proof (cases "lookup m k")
  case None
  assume run: "lookup_or_try_init_any lookup update id m k init = (r, m')"
  show ?thesis
  proof (cases "fst (update m k init BPF_ANY) = 0")
    case True
    then obtain m1 where u: "update m k init BPF_ANY = (0, m1)" by (metis prod.collapse)
    with run None update_ok [OF u] show ?thesis
      by (auto simp: lookup_or_try_init_any_def)
  next
    case False
    then obtain e m1 where u: "update m k init BPF_ANY = (e, m1)" and e: "e \<noteq> 0" "e \<noteq> - EEXIST"
      using update_absent_err [OF None] by (metis fst_conv prod.collapse)
    with run None update_err [OF u] show ?thesis
      by (auto simp: lookup_or_try_init_any_def)
  qed
qed (auto simp: lookup_or_try_init_any_def)

lemma try_init_race_any:
  assumes "lookup m k = None" and "lookup (intf m) k = Some w"
  shows "\<exists>m'. lookup_or_try_init_any lookup update intf m k init = (Some init, m') \<and>
    lookup m' = (lookup (intf m))(k \<mapsto> init)"
proof -
  obtain m1 where u: "update (intf m) k init BPF_ANY = (0, m1)"
    using update_present [OF assms(2), of init] by (metis prod.collapse)
  with assms update_ok [OF u] show ?thesis
    by (auto simp: lookup_or_try_init_any_def)
qed

lemma try_init_race_noexist:
  assumes "lookup m k = None" and "lookup (intf m) k = Some w"
  shows "lookup_or_try_init_noexist lookup update intf m k init = (Some w, intf m)"
proof -
  obtain m1 where u: "update (intf m) k init BPF_NOEXIST = (- EEXIST, m1)"
    using update_noexist_present [OF assms(2), of init] by (metis prod.collapse)
  then have "m1 = intf m" by (rule update_err) (simp add: c_consts)
  with assms u show ?thesis
    by (auto simp: lookup_or_try_init_noexist_def)
qed

end

context bpf_hash_map
begin

lemma lookup_and_delete:
  "fst (map_lookup_and_delete lookup delete m k) = lookup m k \<and>
   lookup (snd (map_lookup_and_delete lookup delete m k)) = (lookup m)(k := None)"
  by (auto simp: map_lookup_and_delete_def lookup_delete_eq fun_eq_iff split: option.splits)

end

context bpf_array_map
begin

lemma lookup_and_delete_keeps:
  "map_lookup_and_delete lookup delete m k = (lookup m k, m)"
  by (simp add: map_lookup_and_delete_def delete_no_effect split: option.splits)

end

text \<open>The instances the programs use: on hash maps, without interference.\<close>

abbreviation htab_try_init :: "('k, 'v) htab \<Rightarrow> 'k \<Rightarrow> 'v \<Rightarrow> 'v option \<times> ('k, 'v) htab" where
  "htab_try_init \<equiv> lookup_or_try_init_any htab_lookup htab_update id"

abbreviation htab_pop :: "('k, 'v) htab \<Rightarrow> 'k \<Rightarrow> 'v option \<times> ('k, 'v) htab" where
  "htab_pop \<equiv> map_lookup_and_delete htab_lookup htab_delete"

lemma htab_pop_fst [simp]: "fst (htab_pop h k) = htab_lookup h k"
  by (simp add: htab.lookup_and_delete)

lemma htab_pop_snd [simp]: "htab_lookup (snd (htab_pop h k)) = (htab_lookup h)(k := None)"
  by (simp add: htab.lookup_and_delete)

lemma htab_try_init_inv: "htab_inv h \<Longrightarrow> htab_inv (snd (htab_try_init h k v))"
  using htab.update_inv [of h k v BPF_ANY]
  by (auto simp: lookup_or_try_init_any_def split: option.splits prod.splits)

lemma htab_pop_inv: "htab_inv h \<Longrightarrow> htab_inv (snd (htab_pop h k))"
  using htab.delete_inv [of h k] by (auto simp: map_lookup_and_delete_def split: option.splits)

lemma htab_try_init_lookup:
  "htab_lookup (snd (htab_try_init h k v)) k' =
     (if k' = k \<and> htab_lookup h k = None \<and> fst (htab_try_init h k v) \<noteq> None then Some v
      else htab_lookup h k')"
proof (cases "htab_try_init h k v")
  case (Pair r h')
  from htab.try_init_alone [OF Pair] have
    "htab_lookup h' = (if htab_lookup h k = None \<and> r \<noteq> None then (htab_lookup h)(k \<mapsto> v) else htab_lookup h)"
    by blast
  then show ?thesis by (simp only: Pair fst_conv snd_conv) simp
qed

lemma htab_try_init_ht_max [simp]: "ht_max (snd (htab_try_init h k v)) = ht_max h"
  using htab_update_ht_max [of h k v BPF_ANY]
  by (cases "htab_lookup h k"; cases "htab_update h k v BPF_ANY")
    (simp_all add: lookup_or_try_init_any_def)

text \<open>Writing through a pointer that a lookup returned.\<close>

definition htab_poke :: "('k, 'v) htab \<Rightarrow> 'k \<Rightarrow> ('v \<Rightarrow> 'v) \<Rightarrow> ('k, 'v) htab" where
  "htab_poke h k f =
     (case htab_lookup h k of None \<Rightarrow> h | Some v \<Rightarrow> snd (htab_update h k (f v) BPF_EXIST))"

lemma htab_poke_lookup:
  "htab_lookup (htab_poke h k f) k' =
     (if k' = k then map_option f (htab_lookup h k) else htab_lookup h k')"
  by (cases "htab_lookup h k") (simp_all add: htab_poke_def htab_update_def htab_lookup_def map_of_update)

lemma htab_poke_inv: "htab_inv h \<Longrightarrow> htab_inv (htab_poke h k f)"
  using htab.update_inv [of h k _ BPF_EXIST]
  by (auto simp: htab_poke_def split: option.split)

lemma htab_try_init_present:
  assumes "length (ht_elems h) < ht_max h"
  shows "htab_lookup (snd (htab_try_init h k v)) k = Some (case htab_lookup h k of None \<Rightarrow> v | Some w \<Rightarrow> w)"
proof (cases "htab_lookup h k")
  case None
  obtain h' where u: "htab_update h k v BPF_ANY = (0, h')"
    using htab_update_room [OF assms] by (metis prod.collapse)
  then have "htab_lookup h' k = Some v" using htab.update_ok [OF u] by simp
  with None u show ?thesis by (simp add: lookup_or_try_init_any_def)
qed (simp add: lookup_or_try_init_any_def)

text \<open>A property of every entry, kept by each routine that only writes entries with it.\<close>

definition htab_all :: "('k \<Rightarrow> 'v \<Rightarrow> bool) \<Rightarrow> ('k, 'v) htab \<Rightarrow> bool" where
  "htab_all P h \<longleftrightarrow> htab_inv h \<and> (\<forall>k v. htab_lookup h k = Some v \<longrightarrow> P k v)"

lemma htab_all_lookup: "htab_all P h \<Longrightarrow> htab_lookup h k = Some v \<Longrightarrow> P k v"
  by (simp add: htab_all_def)

lemma htab_all_empty [simp]: "htab_all P (htab_empty n)"
  by (simp add: htab_all_def htab_empty_inv)

lemma htab_all_update [intro]:
  "htab_all P h \<Longrightarrow> P k v \<Longrightarrow> htab_all P (snd (htab_update h k v fl))"
  using htab.update_inv [of h k v fl] by (auto simp: htab_all_def split: if_splits)

lemma htab_all_try_init [intro]:
  "htab_all P h \<Longrightarrow> P k v \<Longrightarrow> htab_all P (snd (htab_try_init h k v))"
  using htab_try_init_inv [of h k v] by (auto simp: htab_all_def htab_try_init_lookup split: if_splits)

lemma htab_all_delete [intro]: "htab_all P h \<Longrightarrow> htab_all P (snd (htab_delete h k))"
  using htab.delete_inv [of h k] by (auto simp: htab_all_def split: if_splits)

lemma htab_all_pop [intro]: "htab_all P h \<Longrightarrow> htab_all P (snd (htab_pop h k))"
  using htab_pop_inv [of h k] by (auto simp: htab_all_def split: if_splits)

lemma htab_all_poke [intro]:
  "htab_all P h \<Longrightarrow> (\<And>v. P k v \<Longrightarrow> P k (f v)) \<Longrightarrow> htab_all P (htab_poke h k f)"
  using htab_poke_inv [of h k f] by (auto simp: htab_all_def htab_poke_lookup split: if_splits)

lemma htab_pop_ht_max [simp]: "ht_max (snd (htab_pop h k)) = ht_max h"
  by (simp add: map_lookup_and_delete_def split: option.split)

lemma htab_poke_ht_max [simp]: "ht_max (htab_poke h k f) = ht_max h"
  by (simp add: htab_poke_def split: option.split)

end
