(* ===== verification/Endian.thy ===== *)
theory Endian
  imports Prelude
begin

text \<open>
  Byte order (\<^verbatim>\<open>ebpf/headers/bpf/bpf_endian.h\<close>) and the Internet checksum
  (\<^verbatim>\<open>ebpf/headers/bpf/bpf_csum.h\<close>). The header picks, per use, between the
  shift-and-or macros \<^verbatim>\<open>___bpf_swab*\<close> (for compile-time constants) and the
  compiler's \<^verbatim>\<open>__builtin_bswap*\<close>; the lemmas show that the choice is
  invisible, that the conversions are involutions, and what they compute on
  bytes that arrived in network order.
\<close>

section \<open>Moving bytes\<close>

text \<open>
  \<^verbatim>\<open>___bpf_mvb(x, b, n, m)\<close>: isolate byte \<open>n\<close> of a \<open>b\<close>-bit value and put it at
  byte \<open>m\<close>. For \<^verbatim>\<open>b = 16\<close> the shifts happen after promotion to a 32-bit \<^verbatim>\<open>int\<close>,
  so nothing is cut off until the final cast of \<^verbatim>\<open>___bpf_swab16\<close>.
\<close>

definition bpf_mvb :: "'a::len word \<Rightarrow> nat \<Rightarrow> nat \<Rightarrow> nat \<Rightarrow> 'a word" where
  "bpf_mvb x b n m = push_bit (m * 8) (drop_bit (b - 8) (push_bit (b - (n + 1) * 8) x))"

definition bpf_swab16 :: "u16 \<Rightarrow> u16" where
  "bpf_swab16 x =
     (let i = ucast x :: u32 in ucast (bpf_mvb i 16 0 1 OR bpf_mvb i 16 1 0))"

definition bpf_swab32 :: "u32 \<Rightarrow> u32" where
  "bpf_swab32 x =
     (bpf_mvb x 32 0 3 OR bpf_mvb x 32 1 2 OR bpf_mvb x 32 2 1 OR bpf_mvb x 32 3 0)"

definition bpf_swab64 :: "u64 \<Rightarrow> u64" where
  "bpf_swab64 x =
     (bpf_mvb x 64 0 7 OR bpf_mvb x 64 1 6 OR bpf_mvb x 64 2 5 OR bpf_mvb x 64 3 4 OR
      bpf_mvb x 64 4 3 OR bpf_mvb x 64 5 2 OR bpf_mvb x 64 6 1 OR bpf_mvb x 64 7 0)"

text \<open>The compiler builtins \<^verbatim>\<open>__builtin_bswap16/32/64\<close>: reverse the bytes.\<close>

definition bswap16 :: "u16 \<Rightarrow> u16" where
  "bswap16 x = le_word (rev (to_le 2 x))"

definition bswap32 :: "u32 \<Rightarrow> u32" where
  "bswap32 x = le_word (rev (to_le 4 x))"

definition bswap64 :: "u64 \<Rightarrow> u64" where
  "bswap64 x = le_word (rev (to_le 8 x))"

lemma bswap_bswap:
  "bswap16 (bswap16 x) = x" "bswap32 (bswap32 y) = y" "bswap64 (bswap64 z) = z"
proof -
  have "to_le 2 (le_word (rev (to_le 2 x)) :: u16) = rev (to_le 2 x)"
    using to_le_le_word [where 'a = 16 and bs = "rev (to_le 2 x)"] by simp
  then show "bswap16 (bswap16 x) = x" by (simp add: bswap16_def le_word_to_le)
  have "to_le 4 (le_word (rev (to_le 4 y)) :: u32) = rev (to_le 4 y)"
    using to_le_le_word [where 'a = 32 and bs = "rev (to_le 4 y)"] by simp
  then show "bswap32 (bswap32 y) = y" by (simp add: bswap32_def le_word_to_le)
  have "to_le 8 (le_word (rev (to_le 8 z)) :: u64) = rev (to_le 8 z)"
    using to_le_le_word [where 'a = 64 and bs = "rev (to_le 8 z)"] by simp
  then show "bswap64 (bswap64 z) = z" by (simp add: bswap64_def le_word_to_le)
qed

lemma bit_bswap:
  "n < 8 * k \<Longrightarrow> LENGTH('a::len) = 8 * k \<Longrightarrow>
   bit (le_word (rev (to_le k (x :: 'a word))) :: 'a word) n =
     bit x (8 * (k - 1 - n div 8) + n mod 8)"
  by (subst bit_le_word) (auto simp: to_le_def rev_nth bit_simps less_mult_imp_div_less mult.commute)

lemma byte_bit_split:
  obtains r where "r < 8" "n = 8 * (n div 8) + r" "n mod 8 = (r::nat)"
  by (rule that [of "n mod 8"]) simp_all

theorem bpf_swab16_bswap: "bpf_swab16 x = bswap16 x"
proof (rule bit_word_eqI)
  fix n assume n: "n < LENGTH(16)"
  have q: "n div 8 = 0 \<or> n div 8 = 1" using n by auto
  obtain r where "r < 8" "n = 8 * (n div 8) + r" "n mod 8 = r" by (rule byte_bit_split)
  with q n have "bit (bpf_swab16 x) n = bit x (8 * (1 - n div 8) + n mod 8)"
    unfolding bpf_swab16_def Let_def
    by (elim disjE) (auto simp: bit_simps bpf_mvb_def dest: bit_imp_le_length)
  then show "bit (bpf_swab16 x) n = bit (bswap16 x) n"
    using n by (simp add: bswap16_def bit_bswap)
qed

theorem bpf_swab32_bswap: "bpf_swab32 x = bswap32 x"
proof (rule bit_word_eqI)
  fix n assume n: "n < LENGTH(32)"
  have q: "n div 8 = 0 \<or> n div 8 = 1 \<or> n div 8 = 2 \<or> n div 8 = 3" using n by auto
  obtain r where "r < 8" "n = 8 * (n div 8) + r" "n mod 8 = r" by (rule byte_bit_split)
  with q n have "bit (bpf_swab32 x) n = bit x (8 * (3 - n div 8) + n mod 8)"
    unfolding bpf_swab32_def
    by (elim disjE) (auto simp: bit_simps bpf_mvb_def dest: bit_imp_le_length)
  then show "bit (bpf_swab32 x) n = bit (bswap32 x) n"
    using n by (simp add: bswap32_def bit_bswap)
qed

theorem bpf_swab64_bswap: "bpf_swab64 x = bswap64 x"
proof (rule bit_word_eqI)
  fix n assume n: "n < LENGTH(64)"
  have q: "n div 8 = 0 \<or> n div 8 = 1 \<or> n div 8 = 2 \<or> n div 8 = 3 \<or>
      n div 8 = 4 \<or> n div 8 = 5 \<or> n div 8 = 6 \<or> n div 8 = 7" using n by auto
  obtain r where "r < 8" "n = 8 * (n div 8) + r" "n mod 8 = r" by (rule byte_bit_split)
  with q n have "bit (bpf_swab64 x) n = bit x (8 * (7 - n div 8) + n mod 8)"
    unfolding bpf_swab64_def
    by (elim disjE) (auto simp: bit_simps bpf_mvb_def dest: bit_imp_le_length)
  then show "bit (bpf_swab64 x) n = bit (bswap64 x) n"
    using n by (simp add: bswap64_def bit_bswap)
qed

section \<open>Host and network order\<close>

text \<open>
  The header's macros depend on the byte order of the target and on whether the
  argument is a compile-time constant (\<^verbatim>\<open>__builtin_constant_p\<close>): both are
  arguments here.
\<close>

datatype byte_order = LITTLE_ENDIAN | BIG_ENDIAN

definition bpf_ntohs :: "byte_order \<Rightarrow> bool \<Rightarrow> u16 \<Rightarrow> u16" where
  "bpf_ntohs bo cp x =
     (case bo of LITTLE_ENDIAN \<Rightarrow> (if cp then bpf_swab16 x else bswap16 x) | BIG_ENDIAN \<Rightarrow> x)"

definition bpf_htons :: "byte_order \<Rightarrow> bool \<Rightarrow> u16 \<Rightarrow> u16" where
  "bpf_htons bo cp x =
     (case bo of LITTLE_ENDIAN \<Rightarrow> (if cp then bpf_swab16 x else bswap16 x) | BIG_ENDIAN \<Rightarrow> x)"

definition bpf_ntohl :: "byte_order \<Rightarrow> bool \<Rightarrow> u32 \<Rightarrow> u32" where
  "bpf_ntohl bo cp x =
     (case bo of LITTLE_ENDIAN \<Rightarrow> (if cp then bpf_swab32 x else bswap32 x) | BIG_ENDIAN \<Rightarrow> x)"

definition bpf_htonl :: "byte_order \<Rightarrow> bool \<Rightarrow> u32 \<Rightarrow> u32" where
  "bpf_htonl bo cp x =
     (case bo of LITTLE_ENDIAN \<Rightarrow> (if cp then bpf_swab32 x else bswap32 x) | BIG_ENDIAN \<Rightarrow> x)"

definition bpf_cpu_to_be64 :: "byte_order \<Rightarrow> bool \<Rightarrow> u64 \<Rightarrow> u64" where
  "bpf_cpu_to_be64 bo cp x =
     (case bo of LITTLE_ENDIAN \<Rightarrow> (if cp then bpf_swab64 x else bswap64 x) | BIG_ENDIAN \<Rightarrow> x)"

definition bpf_be64_to_cpu :: "byte_order \<Rightarrow> bool \<Rightarrow> u64 \<Rightarrow> u64" where
  "bpf_be64_to_cpu bo cp x =
     (case bo of LITTLE_ENDIAN \<Rightarrow> (if cp then bpf_swab64 x else bswap64 x) | BIG_ENDIAN \<Rightarrow> x)"

lemmas order_defs =
  bpf_ntohs_def bpf_htons_def bpf_ntohl_def bpf_htonl_def
  bpf_cpu_to_be64_def bpf_be64_to_cpu_def
  bpf_swab16_bswap bpf_swab32_bswap bpf_swab64_bswap

text \<open>
  The programs run on the little-endian target with run-time arguments; \<^verbatim>\<open>_ntohs\<close>
  of \<^verbatim>\<open>bpf_compiler.h\<close> is the bare builtin.
\<close>

abbreviation ntohs :: "u16 \<Rightarrow> u16" where
  "ntohs \<equiv> bpf_ntohs LITTLE_ENDIAN False"

abbreviation ntohl :: "u32 \<Rightarrow> u32" where
  "ntohl \<equiv> bpf_ntohl LITTLE_ENDIAN False"

abbreviation htons_const :: "u16 \<Rightarrow> u16" where
  "htons_const \<equiv> bpf_htons LITTLE_ENDIAN True"

lemma ntohs_eq: "ntohs x = bswap16 x"
  by (simp add: bpf_ntohs_def)

lemma ntohl_eq: "ntohl x = bswap32 x"
  by (simp add: bpf_ntohl_def)

lemma ntohs_inject [simp]: "ntohs x = ntohs y \<longleftrightarrow> x = y"
  by (metis bswap_bswap(1) ntohs_eq)

lemma ntohl_inject [simp]: "ntohl x = ntohl y \<longleftrightarrow> x = y"
  by (metis bswap_bswap(2) ntohl_eq)

lemma ntohl_0 [simp]: "ntohl 0 = 0"
  by (simp add: ntohl_eq bswap32_def to_le_def upt_conv_Cons)

lemma ntohl_eq_0_iff [simp]: "ntohl x = 0 \<longleftrightarrow> x = 0"
  using ntohl_inject [of x 0] by simp

lemma ntohs_eq_iff_htons: "ntohs x = y \<longleftrightarrow> x = htons_const y"
  by (metis bpf_htons_def bpf_ntohs_def bpf_swab16_bswap bswap_bswap(1) byte_order.simps(3))

subsection \<open>What arrives in network order\<close>

lemma le_word_Cons_add: "le_word (b # bs) = (ucast b + 256 * le_word bs :: 'a::len word)"
proof -
  have "(ucast b :: 'a word) + push_bit 8 (le_word bs) = ucast b OR push_bit 8 (le_word bs)"
    by (rule disjunctive_add) (auto simp: bit_simps dest: bit_imp_le_length)
  then show ?thesis by (simp add: push_bit_eq_mult mult.commute)
qed

lemma unat_lt_256: "unat (b :: u8) < 256"
proof -
  have "unat b < 2 ^ LENGTH(8)" by (rule unsigned_less)
  then show ?thesis by simp
qed

lemma unat_ucast_u8:
  "8 \<le> LENGTH('a::len) \<Longrightarrow> unat (ucast (b :: u8) :: 'a word) = unat b"
  using unat_lt_256 [of b] power_increasing [of 8 "LENGTH('a)" "2 :: nat"]
  by (simp add: unsigned_ucast_eq take_bit_nat_eq_self)

lemma unat_le16: "unat (le_word [a, b] :: u16) = unat a + 256 * unat b"
proof -
  have "unat (le_word [a, b] :: u16) = (unat a + 256 * unat b) mod 2 ^ 16"
    by (simp add: le_word_Cons_add unat_word_ariths unat_ucast_u8 mod_simps del: le_word.simps(2))
  also have "\<dots> = unat a + 256 * unat b"
    using unat_lt_256 [of a] unat_lt_256 [of b] by simp
  finally show ?thesis .
qed

theorem ntohs_of_bytes:
  "unat (ntohs (le_word [hi, lo])) = 256 * unat hi + unat lo"
proof -
  have "to_le 2 (le_word [hi, lo] :: u16) = [hi, lo]"
    using to_le_le_word [where 'a = 16 and bs = "[hi, lo]"] by (simp add: numeral_2_eq_2 del: le_word.simps)
  then show ?thesis
    by (simp add: ntohs_eq bswap16_def unat_le16 del: le_word.simps)
qed

section \<open>The Internet checksum\<close>

definition csum_fold_helper :: "u32 \<Rightarrow> u16" where
  "csum_fold_helper s =
     (let s = (s AND 0xffff) + drop_bit 16 s
      in ucast (NOT ((s AND 0xffff) + drop_bit 16 s)))"

text \<open>
  \<^verbatim>\<open>bpf_csum_diff(from, from_size, to, to_size, seed)\<close> is a kernel helper: it is
  the parameter \<open>csum_diff\<close>, from the two buffers and the seed to its signed 64-bit result, the
  checksum or a negative error. \<^verbatim>\<open>ipv4_csum\<close> keeps the low 32 bits of it, whichever it is.
\<close>

type_synonym csum_diff_helper = "bytes \<Rightarrow> bytes \<Rightarrow> u32 \<Rightarrow> int"

definition ipv4_csum :: "csum_diff_helper \<Rightarrow> bytes \<Rightarrow> u16" where
  "ipv4_csum csum_diff data = csum_fold_helper (word_of_int (csum_diff [] data 0))"

definition update_ip_checksum :: "csum_diff_helper \<Rightarrow> bytes \<Rightarrow> bytes" where
  "update_ip_checksum csum_diff iph =
     (let iph = write_at 10 [0, 0] iph
      in write_at 10 (to_le 2 (ipv4_csum csum_diff (take 20 iph))) iph)"

definition update_icmp_checksum :: "csum_diff_helper \<Rightarrow> bytes \<Rightarrow> nat \<Rightarrow> bytes" where
  "update_icmp_checksum csum_diff icmph sz =
     (let icmph = write_at 2 [0, 0] icmph
      in write_at 2 (to_le 2 (ipv4_csum csum_diff (take sz icmph))) icmph)"

text \<open>The sum of the 16-bit little-endian words of a buffer, and its fold.\<close>

fun words_sum :: "bytes \<Rightarrow> nat" where
  "words_sum [] = 0"
| "words_sum [b] = unat b"
| "words_sum (b # c # bs) = unat b + 256 * unat c + words_sum bs"

definition fold16 :: "nat \<Rightarrow> nat" where
  "fold16 s = (if s = 0 then 0 else (s - 1) mod 65535 + 1)"

lemma words_sum_append:
  "even (length xs) \<Longrightarrow> words_sum (xs @ ys) = words_sum xs + words_sum ys"
  by (induction xs rule: words_sum.induct) auto

lemma fold16_cong: "fold16 s mod 65535 = s mod 65535"
proof (cases s)
  case (Suc n)
  then show ?thesis by (simp add: fold16_def mod_simps)
qed (simp add: fold16_def)

lemma fold16_le: "fold16 s \<le> 65535"
proof -
  have "(s - 1) mod 65535 < 65535" by simp
  then have "(s - 1) mod 65535 + 1 \<le> 65535" by linarith
  then show ?thesis by (simp only: fold16_def split: if_split) simp
qed

lemma fold16_unique:
  assumes "t \<le> 65535" "t mod 65535 = s mod 65535" "t = 0 \<longleftrightarrow> s = 0"
  shows "t = fold16 s"
proof (cases "s = 0")
  case False
  then have "t \<noteq> 0" using assms(3) by simp
  have "(t - 1) mod 65535 = (s - 1) mod 65535"
  proof -
    from assms(2) have "(t + 65534) mod 65535 = (s + 65534) mod 65535" by (rule mod_add_cong) simp
    moreover have "t + 65534 = (t - 1) + 65535" "s + 65534 = (s - 1) + 65535"
      using False \<open>t \<noteq> 0\<close> by simp_all
    ultimately show ?thesis by (metis mod_add_self2)
  qed
  with False assms(1) \<open>t \<noteq> 0\<close> show ?thesis by (simp add: fold16_def)
qed (use assms in \<open>simp add: fold16_def\<close>)

lemma fold_once_cong: "(n mod 65536 + n div 65536) mod 65535 = n mod (65535 :: nat)"
proof -
  have "n = 65535 * (n div 65536) + (n mod 65536 + n div 65536)" by simp
  then show ?thesis by (metis mod_mult_self4 mult.commute)
qed

lemma fold_once_0: "n mod 65536 + n div 65536 = 0 \<longleftrightarrow> n = (0 :: nat)"
  by (metis add_is_0 div_0 mod_0 div_mult_mod_eq mult_0)

lemma mod_low_half:
  assumes "x \<le> (65535 :: nat)"
  shows "(4294967295 - x) mod 65536 = 65535 - x"
proof -
  have "4294967295 - x = (65535 - x) + 65535 * 65536" using assms by simp
  then have "(4294967295 - x) mod 65536 = (65535 - x) mod 65536" by (simp only: mod_mult_self1)
  also have "\<dots> = 65535 - x" by (rule mod_less) simp
  finally show ?thesis .
qed

lemma unat_fold_step:
  "unat ((s AND 0xffff) + drop_bit 16 s :: u32) = unat s mod 65536 + unat s div 65536"
proof -
  have "unat s < 2 ^ LENGTH(32)" by (rule unsigned_less)
  then have s: "unat s < 4294967296" by simp
  have a: "unat (s AND 0xffff) = unat s mod 65536"
  proof -
    have "s AND 0xffff = take_bit 16 s" by (simp add: take_bit_eq_mask mask_eq_exp_minus_1)
    then show ?thesis by (simp only: unsigned_take_bit_eq) (simp add: take_bit_eq_mod)
  qed
  have b: "unat (drop_bit 16 s) = unat s div 65536"
    by (simp only: unat_drop_bit_eq) (simp add: drop_bit_eq_div)
  show ?thesis using s by (simp add: unat_word_ariths a b)
qed

lemma csum_fold_helper_fold16:
  "unat (csum_fold_helper s) = 65535 - fold16 (unat s)"
proof -
  define t where "t = (s AND 0xffff) + drop_bit 16 s"
  define t2 where "t2 = (t AND 0xffff) + drop_bit 16 t"
  have "unat s < 2 ^ LENGTH(32)" by (rule unsigned_less)
  then have s: "unat s < 4294967296" by simp
  have t: "unat t = unat s mod 65536 + unat s div 65536" unfolding t_def by (rule unat_fold_step)
  have t2: "unat t2 = unat t mod 65536 + unat t div 65536" unfolding t2_def by (rule unat_fold_step)
  have split: "unat s = 65536 * (unat s div 65536) + unat s mod 65536" by simp
  have tlt: "unat t \<le> 131070" using s t by linarith
  have t2le: "unat t2 \<le> 65535"
  proof (cases "unat t < 65536")
    case False
    then have "unat t div 65536 = 1" "unat t mod 65536 = unat t - 65536"
      using tlt by (simp_all add: div_nat_eqI le_mod_geq)
    with t2 tlt show ?thesis by simp
  qed (simp add: t2)
  have "unat t2 = fold16 (unat s)"
    using t2le by (rule fold16_unique)
      (simp_all only: t2 t fold_once_cong fold_once_0)
  moreover have "unat (ucast (NOT t2) :: u16) = 65535 - unat t2"
  proof -
    have "NOT t2 = - 1 - t2" by (simp add: not_eq_complement)
    moreover have "unat (- 1 - t2) = unat (- 1 :: u32) - unat t2"
      by (rule unat_sub) simp
    ultimately have "unat (NOT t2) = 4294967295 - unat t2"
      by (simp add: unsigned_minus_1_eq_mask mask_eq_exp_minus_1)
    then have "unat (ucast (NOT t2) :: u16) = (4294967295 - unat t2) mod 65536"
      by (simp only: unsigned_ucast_eq take_bit_eq_mod) simp
    then show ?thesis using mod_low_half [OF t2le] by simp
  qed
  ultimately show ?thesis by (simp add: csum_fold_helper_def Let_def t2_def t_def)
qed

text \<open>
  What \<^verbatim>\<open>bpf_helper_defs.h\<close> says of the helper: of a buffer whose size is a multiple of 4 it
  returns the checksum, a 32-bit number that is the one's complement sum of the 16-bit words up to
  folding, or a negative error.
\<close>

definition csum_diff_sound :: "csum_diff_helper \<Rightarrow> bool" where
  "csum_diff_sound csum_diff \<longleftrightarrow>
     (\<forall>data. 4 dvd length data \<longrightarrow>
        csum_diff [] data 0 < 0 \<or>
        csum_diff [] data 0 < 2 ^ 32 \<and> fold16 (nat (csum_diff [] data 0)) = fold16 (words_sum data))"

lemma to_le_2: "to_le 2 w = [ucast w, ucast (drop_bit 8 w)]"
  by (simp add: to_le_def upt_conv_Cons numeral_2_eq_2)

lemma unat_le_word_to_le2: "words_sum (to_le 2 w) = unat (w :: u16)"
proof -
  have "w = le_word (to_le 2 w)" by (simp add: le_word_to_le)
  then have "unat w = unat (le_word [ucast w :: u8, ucast (drop_bit 8 w)] :: u16)"
    by (simp only: to_le_2 flip: to_le_2)
  then show ?thesis by (simp only: unat_le16) (simp add: to_le_2)
qed

lemma fold16_complement:
  "fold16 (s + (65535 - fold16 s)) = 65535"
proof -
  have le: "fold16 s \<le> 65535" by (rule fold16_le)
  have "(s + (65535 - fold16 s)) mod 65535 = (fold16 s + (65535 - fold16 s)) mod 65535"
    by (rule mod_add_cong) (simp_all add: fold16_cong)
  also have "\<dots> = 65535 mod 65535" using le by simp
  finally have "65535 mod 65535 = (s + (65535 - fold16 s)) mod 65535" by simp
  then show ?thesis
    by (intro fold16_unique [symmetric]) (auto simp: fold16_def)
qed

text \<open>A header whose checksum field is replaced by the computed one sums to all ones.\<close>

lemma words_sum_write_at:
  assumes "even k" "k + 2 \<le> length buf"
  shows "words_sum (write_at k (to_le 2 (w :: u16)) buf) = words_sum (write_at k [0, 0] buf) + unat w"
  using assms by (simp add: write_at_def words_sum_append unat_le_word_to_le2)

lemma csum_diff_fold:
  assumes "csum_diff_sound csum_diff" "4 dvd length data" "0 \<le> csum_diff [] data 0"
  shows "fold16 (unat (word_of_int (csum_diff [] data 0) :: u32)) = fold16 (words_sum data)"
proof -
  define r where "r = csum_diff [] data 0"
  have "0 \<le> r" "r < 2 ^ 32" "fold16 (nat r) = fold16 (words_sum data)"
    using assms unfolding csum_diff_sound_def r_def by (meson not_le)+
  moreover from this have "unat (word_of_int r :: u32) = nat r"
    by (simp add: unsigned_of_int take_bit_eq_mod)
  ultimately show ?thesis by (simp add: r_def)
qed

text \<open>An error code that is folded as if it were a sum.\<close>

lemma csum_of_error:
  assumes "0 < e" "e \<le> 4095"
  shows "unat (csum_fold_helper (word_of_int (- int e))) = e - 1"
proof -
  have "(- int e) mod 2 ^ 32 = 2 ^ 32 - int e"
    using assms by (simp add: zmod_zminus1_eq_if)
  then have "unat (word_of_int (- int e) :: u32) = 2 ^ 32 - e"
    by (simp add: unsigned_of_int take_bit_eq_mod nat_diff_distrib' del: of_int_minus)
  moreover have "fold16 (2 ^ 32 - e) = 65536 - e"
  proof (rule fold16_unique [symmetric])
    have "(2 ^ 32 - e) = (65536 - e) + 65536 * 65535" using assms by simp
    then show "(65536 - e) mod 65535 = (2 ^ 32 - e) mod 65535" by (simp only: mod_mult_self1)
  qed (use assms in auto)
  ultimately show ?thesis using assms by (simp add: csum_fold_helper_fold16)
qed

text \<open>C30: Let \<^verbatim>\<open>bpf_csum_diff\<close> do what it documents: on a multiple of 4 bytes, the one's complement sum or
  a negative error. \<^verbatim>\<open>__update_ip_checksum\<close> of a 20-byte header changes the two bytes of the checksum
  field only. If the call of the helper succeeds, the 16-bit words of the header, the checksum
  included, then add up to all ones, which is how a receiver verifies it, and checking it with
  \<^verbatim>\<open>ipv4_csum\<close> gives 0 when that call succeeds too. If the call fails with error \<open>-e\<close> (at most 4095),
  nothing is reported: the checksum field becomes \<open>e - 1\<close>.\<close>

theorem update_ip_checksum_valid:
  assumes "csum_diff_sound csum_diff" and "length iph = 20"
  shows "(let out = update_ip_checksum csum_diff iph; result = csum_diff [] (write_at 10 [0, 0] iph) 0
    in length out = 20 \<and> take 10 out = take 10 iph \<and> drop 12 out = drop 12 iph \<and>
       (0 \<le> result \<longrightarrow> fold16 (words_sum out) = 65535 \<and>
          (0 \<le> csum_diff [] out 0 \<longrightarrow> ipv4_csum csum_diff out = 0)) \<and>
       (\<forall>e. 0 < e \<and> e \<le> 4095 \<and> result = - int e \<longrightarrow>
          take 2 (drop 10 out) = to_le 2 (of_nat (e - 1) :: u16)))"
proof -
  define z where "z = write_at 10 [0, 0] iph"
  define c where "c = ipv4_csum csum_diff z"
  define out where "out = write_at 10 (to_le 2 c) z"
  have lz: "length z = 20" using assms(2) by (simp add: z_def)
  have z0: "write_at 10 [0, 0] z = z" using assms(2) by (simp add: z_def write_at_def)
  have upd: "update_ip_checksum csum_diff iph = out"
    using lz by (simp add: update_ip_checksum_def Let_def c_def out_def flip: z_def)
  have lout: "length out = 20" using lz by (simp add: out_def)
  have sum: "fold16 (words_sum out) = 65535" if "0 \<le> csum_diff [] z 0"
  proof -
    have "fold16 (unat (word_of_int (csum_diff [] z 0) :: u32)) = fold16 (words_sum z)"
      using assms(1) lz that by (intro csum_diff_fold) simp_all
    then have "unat c = 65535 - fold16 (words_sum z)"
      by (simp add: c_def ipv4_csum_def csum_fold_helper_fold16)
    then have "words_sum out = words_sum z + (65535 - fold16 (words_sum z))"
      using words_sum_write_at [of 10 z c] lz z0 by (simp add: out_def)
    then show ?thesis by (simp only: fold16_complement)
  qed
  have check: "ipv4_csum csum_diff out = 0" if "fold16 (words_sum out) = 65535" "0 \<le> csum_diff [] out 0"
  proof -
    have "fold16 (unat (word_of_int (csum_diff [] out 0) :: u32)) = 65535"
      using csum_diff_fold [OF assms(1) _ that(2)] lout that(1) by simp
    then have "unat (ipv4_csum csum_diff out) = 0" by (simp add: ipv4_csum_def csum_fold_helper_fold16)
    then show ?thesis by (simp add: unat_eq_zero)
  qed
  have err: "take 2 (drop 10 out) = to_le 2 (of_nat (e - 1) :: u16)"
    if "0 < e" "e \<le> 4095" "csum_diff [] z 0 = - int e" for e
  proof -
    have "unat c = e - 1" using csum_of_error [OF that(1,2)] that(3) by (simp add: c_def ipv4_csum_def)
    then have "c = of_nat (e - 1)" by (metis of_nat_unat ucast_id)
    then show ?thesis using lz by (simp add: out_def write_at_def)
  qed
  have frame: "take 10 out = take 10 iph" "drop 12 out = drop 12 iph"
    using assms(2) by (simp_all add: out_def z_def write_at_def)
  show ?thesis
    unfolding Let_def upd z_def [symmetric] using lout frame sum check err by blast
qed

text \<open>Documented behaviour with an error: the sum of a buffer, but \<open>EINVAL\<close> (22) of one of size 0.\<close>

theorem update_ip_checksum_valid_witness:
  "let helper = (\<lambda>_ data _. if data = [] then - 22 else int (fold16 (words_sum data)))
   in csum_diff_sound helper \<and>
      fold16 (words_sum (update_ip_checksum helper (replicate 20 69))) = 65535"
proof -
  define helper :: csum_diff_helper
    where "helper = (\<lambda>_ data _. if data = [] then - 22 else int (fold16 (words_sum data)))"
  have le: "int (fold16 n) < 2 ^ 32" for n using fold16_le [of n] by simp
  have "fold16 (fold16 n) = fold16 n" for n
    by (rule fold16_unique [symmetric]) (auto simp: fold16_le fold16_cong fold16_def)
  then have h: "csum_diff_sound helper" using le by (auto simp: csum_diff_sound_def helper_def)
  have "0 \<le> helper [] (write_at 10 [0, 0] (replicate 20 69)) 0"
    by (simp add: helper_def write_at_def)
  then show ?thesis
    using update_ip_checksum_valid [OF h, of "replicate 20 69"] h
    unfolding Let_def helper_def [symmetric] by simp
qed

text \<open>Whether the compiler treats an argument as a constant or not, bpf_ntohs, bpf_ntohl
  and bpf_be64_to_cpu compute the same value, the matching host-to-network macro undoes
  them on either byte order, and on the little-endian target a 16-bit field that arrived
  as the bytes hi, lo is read as 256 * hi + lo.\<close>

theorem byte_order_macros:
  "bpf_ntohs bo True x = bpf_ntohs bo False x \<and>
   bpf_ntohl bo True y = bpf_ntohl bo False y \<and>
   bpf_be64_to_cpu bo True z = bpf_be64_to_cpu bo False z \<and>
   bpf_htons bo cp (bpf_ntohs bo cp' x) = x \<and>
   bpf_htonl bo cp (bpf_ntohl bo cp' y) = y \<and>
   bpf_cpu_to_be64 bo cp (bpf_be64_to_cpu bo cp' z) = z \<and>
   unat (bpf_ntohs LITTLE_ENDIAN cp (le_word [hi, lo])) = 256 * unat hi + unat lo"
proof -
  have "unat (bpf_ntohs LITTLE_ENDIAN cp (le_word [hi, lo])) = 256 * unat hi + unat lo"
    using ntohs_of_bytes [of hi lo] by (simp add: order_defs del: le_word.simps)
  then show ?thesis
    by (simp add: order_defs bswap_bswap split: byte_order.splits del: le_word.simps)
qed

end
