(* ===== verification/Bpf_Env.thy ===== *)
theory Bpf_Env
  imports Bpf_Maps Endian
begin

text \<open>
  What a program run sees besides its maps: the results of the helpers that ask
  the kernel for the current task, CPU and time (the record \<open>run_ctx\<close>, an input of
  every handler), the ring buffer with the scoped reservation of
  \<^verbatim>\<open>ebpf/headers/bpf/bpf_cleanup.h\<close>, and spin locks.
\<close>

section \<open>The context of one run\<close>

text \<open>
  \<open>ktime c i\<close> is what the \<open>i\<close>-th call of \<^verbatim>\<open>bpf_ktime_get_ns\<close> returns during the
  run; \<^verbatim>\<open>bpf_get_current_pid_tgid\<close> returns \<^verbatim>\<open>tgid << 32 | pid\<close>.
\<close>

record run_ctx =
  cur_tgid :: u32
  cur_pid :: u32
  cur_comm :: bytes
  cur_cpu :: u32
  ktime :: "nat \<Rightarrow> u64"

definition bpf_get_current_pid_tgid :: "run_ctx \<Rightarrow> u64" where
  "bpf_get_current_pid_tgid c = push_bit 32 (ucast (cur_tgid c)) OR ucast (cur_pid c)"

definition bpf_get_current_comm :: "run_ctx \<Rightarrow> nat \<Rightarrow> bytes" where
  "bpf_get_current_comm c n =
     (let s = take (n - 1) (takeWhile (\<lambda>b. b \<noteq> 0) (cur_comm c))
      in s @ replicate (n - length s) 0)"

lemma length_get_current_comm [simp]: "length (bpf_get_current_comm c n) = n"
  by (simp add: bpf_get_current_comm_def Let_def min_def)

lemma get_current_comm_terminated:
  assumes "0 < n"
  shows "last (bpf_get_current_comm c n) = 0"
proof -
  define s where "s = take (n - 1) (takeWhile (\<lambda>b. b \<noteq> 0) (cur_comm c))"
  have "length s \<le> n - 1" by (simp add: s_def)
  with assms have "n - length s \<noteq> 0" by linarith
  then have "last (s @ replicate (n - length s) 0) = 0" by (simp add: last_append)
  then show ?thesis
    by (simp only: bpf_get_current_comm_def Let_def flip: s_def)
qed

lemma pid_tgid_bit:
  "bit (bpf_get_current_pid_tgid c) n \<longleftrightarrow>
     (if n < 32 then bit (cur_pid c) n else n < 64 \<and> bit (cur_tgid c) (n - 32))"
  by (auto simp: bpf_get_current_pid_tgid_def bit_simps dest: bit_imp_le_length)

lemma pid_tgid_high: "drop_bit 32 (bpf_get_current_pid_tgid c) = ucast (cur_tgid c)"
proof (rule bit_word_eqI)
  fix n assume "n < LENGTH(64)"
  then show "bit (drop_bit 32 (bpf_get_current_pid_tgid c)) n = bit (ucast (cur_tgid c) :: u64) n"
    by (auto simp: pid_tgid_bit bit_simps dest: bit_imp_le_length)
qed

lemma pid_tgid_low: "push_bit 32 (bpf_get_current_pid_tgid c) = push_bit 32 (ucast (cur_pid c))"
proof (rule bit_word_eqI)
  fix n assume "n < LENGTH(64)"
  then show "bit (push_bit 32 (bpf_get_current_pid_tgid c)) n = bit (push_bit 32 (ucast (cur_pid c)) :: u64) n"
    by (auto simp: pid_tgid_bit bit_simps dest: bit_imp_le_length)
qed

lemma pid_tgid_inject:
  "bpf_get_current_pid_tgid c = bpf_get_current_pid_tgid d \<longleftrightarrow>
     cur_tgid c = cur_tgid d \<and> cur_pid c = cur_pid d"
proof
  assume eq: "bpf_get_current_pid_tgid c = bpf_get_current_pid_tgid d"
  have "bit (cur_tgid c) n = bit (cur_tgid d) n" if "n < 32" for n
    using that pid_tgid_bit [of c "n + 32"] pid_tgid_bit [of d "n + 32"] by (simp add: eq)
  moreover have "bit (cur_pid c) n = bit (cur_pid d) n" if "n < 32" for n
    using that pid_tgid_bit [of c n] pid_tgid_bit [of d n] by (simp add: eq)
  ultimately show "cur_tgid c = cur_tgid d \<and> cur_pid c = cur_pid d"
    by (auto intro!: bit_word_eqI)
qed (simp add: bpf_get_current_pid_tgid_def)

section \<open>Ring buffers\<close>

text \<open>
  \<open>rb_avail\<close> is the space a producer can still reserve, \<open>rb_pending\<close> the number of
  samples reserved but neither submitted nor discarded (user space stalls behind
  them), \<open>rb_out\<close> the submitted samples in order. The eight bytes the kernel puts before a sample, and
  the rounding of its size, are not counted: how many samples fit is an upper bound.
\<close>

record 'e ringbuf =
  rb_avail :: nat
  rb_pending :: nat
  rb_out :: "'e list"

definition bpf_ringbuf_reserve :: "'e ringbuf \<Rightarrow> nat \<Rightarrow> 'e ringbuf option" where
  "bpf_ringbuf_reserve rb sz =
     (if sz \<le> rb_avail rb
      then Some (rb\<lparr>rb_avail := rb_avail rb - sz, rb_pending := Suc (rb_pending rb)\<rparr>)
      else None)"

definition bpf_ringbuf_submit :: "'e ringbuf \<Rightarrow> 'e \<Rightarrow> 'e ringbuf" where
  "bpf_ringbuf_submit rb e = rb\<lparr>rb_pending := rb_pending rb - 1, rb_out := rb_out rb @ [e]\<rparr>"

definition bpf_ringbuf_discard :: "'e ringbuf \<Rightarrow> 'e \<Rightarrow> 'e ringbuf" where
  "bpf_ringbuf_discard rb e = rb\<lparr>rb_pending := rb_pending rb - 1\<rparr>"

definition CLEAN_ERR_SUCCESS :: int where [c_consts]: "CLEAN_ERR_SUCCESS = 0"
definition CLEAN_ERR_INIT :: int where [c_consts]: "CLEAN_ERR_INIT = 1"
definition CLEAN_ERR_FAILED :: int where [c_consts]: "CLEAN_ERR_FAILED = 2"

text \<open>
  The three operations as an interface, and the scope guard as a client of it.
  \<^verbatim>\<open>guard_ring_buf(&rb, event, err)\<close> reserves at its declaration and commits when
  the enclosing function returns, on whichever path: the body of the function
  yields the sample it has built and the final value of \<^verbatim>\<open>*err\<close>.
\<close>

definition guard_ring_buf_destructor ::
  "('rb \<Rightarrow> 'e \<Rightarrow> 'rb) \<Rightarrow> ('rb \<Rightarrow> 'e \<Rightarrow> 'rb) \<Rightarrow> 'rb \<Rightarrow> 'e \<Rightarrow> int \<Rightarrow> 'rb" where
  "guard_ring_buf_destructor submit discard rb e err =
     (if err > 0 then discard rb e else submit rb e)"

definition guard_ring_buf ::
  "('rb \<Rightarrow> nat \<Rightarrow> 'rb option) \<Rightarrow> ('rb \<Rightarrow> 'e \<Rightarrow> 'rb) \<Rightarrow> ('rb \<Rightarrow> 'e \<Rightarrow> 'rb) \<Rightarrow>
   'rb \<Rightarrow> nat \<Rightarrow> 'e \<times> int \<Rightarrow> 'rb" where
  "guard_ring_buf reserve submit discard rb sz body =
     (case reserve rb sz of
        None \<Rightarrow> rb
      | Some rb' \<Rightarrow> (case body of (e, err) \<Rightarrow> guard_ring_buf_destructor submit discard rb' e err))"

locale ring_buffer =
  fixes reserve :: "'rb \<Rightarrow> nat \<Rightarrow> 'rb option"
    and submit :: "'rb \<Rightarrow> 'e \<Rightarrow> 'rb"
    and discard :: "'rb \<Rightarrow> 'e \<Rightarrow> 'rb"
    and pending :: "'rb \<Rightarrow> nat"
    and out :: "'rb \<Rightarrow> 'e list"
  assumes reserve_Some: "reserve rb sz = Some rb' \<Longrightarrow> pending rb' = Suc (pending rb) \<and> out rb' = out rb"
    and submit_pending: "pending rb = Suc n \<Longrightarrow> pending (submit rb e) = n"
    and submit_out: "out (submit rb e) = out rb @ [e]"
    and discard_pending: "pending rb = Suc n \<Longrightarrow> pending (discard rb e) = n"
    and discard_out: "out (discard rb e) = out rb"
begin

lemma guard_no_leak: "pending (guard_ring_buf reserve submit discard rb sz body) = pending rb"
  by (cases "reserve rb sz"; cases body)
    (auto simp: guard_ring_buf_def guard_ring_buf_destructor_def
      dest!: reserve_Some intro: submit_pending discard_pending)

lemma guard_out:
  "out (guard_ring_buf reserve submit discard rb sz body) =
     out rb @ (if reserve rb sz \<noteq> None \<and> snd body \<le> 0 then [fst body] else [])"
  by (cases "reserve rb sz"; cases body)
    (auto simp: guard_ring_buf_def guard_ring_buf_destructor_def submit_out discard_out
      dest!: reserve_Some)

end

interpretation rb: ring_buffer bpf_ringbuf_reserve bpf_ringbuf_submit bpf_ringbuf_discard
  rb_pending rb_out
  by unfold_locales
    (auto simp: bpf_ringbuf_reserve_def bpf_ringbuf_submit_def bpf_ringbuf_discard_def split: if_splits)

abbreviation guard_rb :: "'e ringbuf \<Rightarrow> nat \<Rightarrow> 'e \<times> int \<Rightarrow> 'e ringbuf" where
  "guard_rb \<equiv> guard_ring_buf bpf_ringbuf_reserve bpf_ringbuf_submit bpf_ringbuf_discard"

lemma guard_rb_simps [simp]:
  "rb_pending (guard_rb rb sz body) = rb_pending rb"
  "rb_out (guard_rb rb sz body) =
     rb_out rb @ (if sz \<le> rb_avail rb \<and> snd body \<le> 0 then [fst body] else [])"
  by (simp_all add: rb.guard_no_leak rb.guard_out bpf_ringbuf_reserve_def)

section \<open>Spin locks\<close>

text \<open>
  \<^verbatim>\<open>guard_spinlock\<close>: the constructor takes the lock, the destructor releases it.
  A lock is a flag; taking a held lock never returns, which is \<open>None\<close>.
\<close>

definition guard_spinlock_constructor :: "bool \<Rightarrow> bool option" where
  "guard_spinlock_constructor held = (if held then None else Some True)"

definition guard_spinlock_destructor :: "bool \<Rightarrow> bool" where
  "guard_spinlock_destructor held = False"

definition guard_spinlock :: "bool \<Rightarrow> ('s \<Rightarrow> 's) \<Rightarrow> 's \<Rightarrow> (bool \<times> 's) option" where
  "guard_spinlock held body s =
     (case guard_spinlock_constructor held of
        None \<Rightarrow> None
      | Some held' \<Rightarrow> Some (guard_spinlock_destructor held', body s))"

lemma guard_spinlock_balanced:
  "guard_spinlock held body s = Some (held', s') \<Longrightarrow> held' = held \<and> s' = body s"
  by (auto simp: guard_spinlock_def guard_spinlock_constructor_def guard_spinlock_destructor_def
      split: if_splits)

end
