(* ===== verification/Kernel.thy ===== *)
theory Kernel
  imports Bpf_Env
begin

text \<open>
  The kernel data the programs read. Kernel structures are reached through
  pointers with \<^verbatim>\<open>BPF_CORE_READ\<close>, whose field offsets are fixed when the program is
  loaded; each structure is a record with the fields that are read, and a heap
  maps addresses to records. A read through an address that holds no such object
  faults, the helper zeroes its destination, and the expression is the zero of the
  field: \<open>deref\<close> is that read. Packet bytes and C strings are in the byte memory
  \<open>k_mem\<close>.
\<close>

text \<open>\<^verbatim>\<open>struct in6_addr\<close>: its four 32-bit words in memory order.\<close>

type_synonym in6_addr = "u32 \<times> u32 \<times> u32 \<times> u32"

definition deref :: "(ptr \<Rightarrow> 'a option) \<Rightarrow> 'a \<Rightarrow> ptr \<Rightarrow> 'a" where
  "deref h z p = (case h p of None \<Rightarrow> z | Some x \<Rightarrow> x)"

lemma deref_None [simp]: "h p = None \<Longrightarrow> deref h z p = z"
  by (simp add: deref_def)

lemma deref_Some [simp]: "h p = Some x \<Longrightarrow> deref h z p = x"
  by (simp add: deref_def)

text \<open>The fields of struct sock, struct tcp_sock and struct unix_sock that are read (one address, three views).\<close>

record sock =
  skc_family :: u16
  skc_state :: u8
  skc_reuseport :: u8
  skc_bound_dev_if :: u32
  skc_num :: u16
  skc_dport :: u16
  skc_rcv_saddr :: u32
  skc_daddr :: u32
  skc_v6_rcv_saddr :: in6_addr
  skc_v6_daddr :: in6_addr
  skc_net :: ptr
  sk_rx_dst_ifindex :: u32
  sk_backlog_len :: u32
  sk_rcvbuf :: u32
  sk_sndbuf :: u32
  sk_priority :: u32
  sk_mark :: u32
  sk_type :: u16
  sk_protocol :: u16
  sk_max_ack_backlog :: u32
  sk_peer_pid :: ptr
  sk_socket :: ptr
  tcp_bytes_received :: u64
  tcp_bytes_sent :: u64
  usk_addr :: ptr
  usk_peer :: ptr

definition zero_sock :: sock where
  "zero_sock = \<lparr>skc_family = 0,
     skc_state = 0,
     skc_reuseport = 0,
     skc_bound_dev_if = 0,
     skc_num = 0,
     skc_dport = 0,
     skc_rcv_saddr = 0,
     skc_daddr = 0,
     skc_v6_rcv_saddr = (0, 0, 0, 0),
     skc_v6_daddr = (0, 0, 0, 0),
     skc_net = 0,
     sk_rx_dst_ifindex = 0,
     sk_backlog_len = 0,
     sk_rcvbuf = 0,
     sk_sndbuf = 0,
     sk_priority = 0,
     sk_mark = 0,
     sk_type = 0,
     sk_protocol = 0,
     sk_max_ack_backlog = 0,
     sk_peer_pid = 0,
     sk_socket = 0,
     tcp_bytes_received = 0,
     tcp_bytes_sent = 0,
     usk_addr = 0,
     usk_peer = 0\<rparr>"

text \<open>Struct socket.\<close>

record socket =
  so_state :: u32
  so_type :: u16
  so_flags :: u64
  so_file :: ptr
  so_sk :: ptr

definition zero_socket :: socket where
  "zero_socket = \<lparr>so_state = 0,
     so_type = 0,
     so_flags = 0,
     so_file = 0,
     so_sk = 0\<rparr>"

text \<open>Struct file.\<close>

record kfile =
  f_inode :: ptr
  private_data :: ptr

definition zero_kfile :: kfile where
  "zero_kfile = \<lparr>f_inode = 0,
     private_data = 0\<rparr>"

text \<open>Struct inode.\<close>

record kinode =
  i_ino :: u64

definition zero_kinode :: kinode where
  "zero_kinode = \<lparr>i_ino = 0\<rparr>"

text \<open>Struct net.\<close>

record netns =
  ns_inum :: u32

definition zero_netns :: netns where
  "zero_netns = \<lparr>ns_inum = 0\<rparr>"

text \<open>Struct net_device; the name is an array inside the structure.\<close>

record net_device =
  nd_ifindex :: u32
  nd_type :: u16
  nd_name :: bytes
  nd_net :: ptr

definition zero_net_device :: net_device where
  "zero_net_device = \<lparr>nd_ifindex = 0,
     nd_type = 0,
     nd_name = replicate 16 0,
     nd_net = 0\<rparr>"

text \<open>Struct sk_buff.\<close>

record sk_buff =
  skb_head :: ptr
  skb_end :: u32
  skb_mac_header :: u16
  skb_network_header :: u16
  skb_transport_header :: u16
  skb_len :: u32
  skb_dev :: ptr
  skb_sk :: ptr
  skb_mark :: u32
  skb_pkt_type_byte :: u8
  skb_vlan_proto :: u16
  skb_vlan_tci :: u16

definition zero_sk_buff :: sk_buff where
  "zero_sk_buff = \<lparr>skb_head = 0,
     skb_end = 0,
     skb_mac_header = 0,
     skb_network_header = 0,
     skb_transport_header = 0,
     skb_len = 0,
     skb_dev = 0,
     skb_sk = 0,
     skb_mark = 0,
     skb_pkt_type_byte = 0,
     skb_vlan_proto = 0,
     skb_vlan_tci = 0\<rparr>"

text \<open>Struct nf_hook_state.\<close>

record nf_hook_state =
  hs_hook :: u8
  hs_pf :: u8
  hs_in :: ptr
  hs_out :: ptr
  hs_sk :: ptr

definition zero_nf_hook_state :: nf_hook_state where
  "zero_nf_hook_state = \<lparr>hs_hook = 0,
     hs_pf = 0,
     hs_in = 0,
     hs_out = 0,
     hs_sk = 0\<rparr>"

text \<open>Struct nft_rule of nftrace.h (bit-fields widened).\<close>

record nft_rule =
  nr_handle :: u64
  nr_genmask :: u8
  nr_dlen :: u16
  nr_udata :: u8

definition zero_nft_rule :: nft_rule where
  "zero_nft_rule = \<lparr>nr_handle = 0,
     nr_genmask = 0,
     nr_dlen = 0,
     nr_udata = 0\<rparr>"

text \<open>Struct nft_rule_dp of nftrace.h (bit-fields widened).\<close>

record nft_rule_dp =
  nd_is_last :: u8
  nd_dlen :: u16
  nd_handle :: u64

definition zero_nft_rule_dp :: nft_rule_dp where
  "zero_nft_rule_dp = \<lparr>nd_is_last = 0,
     nd_dlen = 0,
     nd_handle = 0\<rparr>"

text \<open>Struct nft_table of nftrace.h.\<close>

record nft_table =
  nt_handle :: u64
  nt_family :: u8
  nt_flags :: u8
  nt_genmask :: u8
  nt_nlpid :: u32
  nt_name :: ptr

definition zero_nft_table :: nft_table where
  "zero_nft_table = \<lparr>nt_handle = 0,
     nt_family = 0,
     nt_flags = 0,
     nt_genmask = 0,
     nt_nlpid = 0,
     nt_name = 0\<rparr>"

text \<open>Struct nft_chain of nftrace.h.\<close>

record nft_chain =
  nc_table :: ptr
  nc_handle :: u64
  nc_name :: ptr

definition zero_nft_chain :: nft_chain where
  "zero_nft_chain = \<lparr>nc_table = 0,
     nc_handle = 0,
     nc_name = 0\<rparr>"

text \<open>Struct nft_verdict of nftrace.h.\<close>

record nft_verdict =
  nv_code :: u32
  nv_chain :: ptr

definition zero_nft_verdict :: nft_verdict where
  "zero_nft_verdict = \<lparr>nv_code = 0,
     nv_chain = 0\<rparr>"

text \<open>Struct nft_pktinfo of nftrace.h.\<close>

record nft_pktinfo =
  np_skb :: ptr
  np_state :: ptr

definition zero_nft_pktinfo :: nft_pktinfo where
  "zero_nft_pktinfo = \<lparr>np_skb = 0,
     np_state = 0\<rparr>"

text \<open>Struct nft_chain_type of nftrace.h.\<close>

record nft_chain_type =
  nct_name :: ptr
  nct_type :: u32
  nct_family :: u32

definition zero_nft_chain_type :: nft_chain_type where
  "zero_nft_chain_type = \<lparr>nct_name = 0,
     nct_type = 0,
     nct_family = 0\<rparr>"

text \<open>Struct nft_base_chain of nftrace.h, the chain embedded.\<close>

record nft_base_chain =
  nb_type :: ptr
  nb_policy :: u8
  nb_chain :: nft_chain

definition zero_nft_base_chain :: nft_base_chain where
  "zero_nft_base_chain = \<lparr>nb_type = 0,
     nb_policy = 0,
     nb_chain = zero_nft_chain\<rparr>"

text \<open>Struct nft_traceinfo of nftrace.h; the packet, rule and verdict pointers exist only before kernel 6.4.\<close>

record nft_traceinfo =
  ti_trace :: u8
  ti_nf_trace :: u8
  ti_packet_dumped :: u8
  ti_type :: u32
  ti_skbid :: u32
  ti_pkt :: ptr
  ti_basechain :: ptr
  ti_chain :: ptr
  ti_rule :: ptr
  ti_verdict :: ptr

definition zero_nft_traceinfo :: nft_traceinfo where
  "zero_nft_traceinfo = \<lparr>ti_trace = 0,
     ti_nf_trace = 0,
     ti_packet_dumped = 0,
     ti_type = 0,
     ti_skbid = 0,
     ti_pkt = 0,
     ti_basechain = 0,
     ti_chain = 0,
     ti_rule = 0,
     ti_verdict = 0\<rparr>"

text \<open>Struct xt_table of nftrace.h; the name is an array inside the structure.\<close>

record xt_table =
  xt_valid_hooks :: u32
  xt_private :: ptr
  xt_me :: ptr
  xt_af :: u8
  xt_priority :: u32
  xt_name :: bytes

definition zero_xt_table :: xt_table where
  "zero_xt_table = \<lparr>xt_valid_hooks = 0,
     xt_private = 0,
     xt_me = 0,
     xt_af = 0,
     xt_priority = 0,
     xt_name = replicate 32 0\<rparr>"

text \<open>The whole of it.\<close>

record kernel =
  k_mem :: bytemem
  k_sock :: "ptr \<Rightarrow> sock option"
  k_socket :: "ptr \<Rightarrow> socket option"
  k_file :: "ptr \<Rightarrow> kfile option"
  k_inode :: "ptr \<Rightarrow> kinode option"
  k_net :: "ptr \<Rightarrow> netns option"
  k_dev :: "ptr \<Rightarrow> net_device option"
  k_skb :: "ptr \<Rightarrow> sk_buff option"
  k_hook :: "ptr \<Rightarrow> nf_hook_state option"
  k_rule_dp :: "ptr \<Rightarrow> nft_rule_dp option"
  k_nft_table :: "ptr \<Rightarrow> nft_table option"
  k_nft_chain :: "ptr \<Rightarrow> nft_chain option"
  k_nft_verdict :: "ptr \<Rightarrow> nft_verdict option"
  k_nft_pktinfo :: "ptr \<Rightarrow> nft_pktinfo option"
  k_nft_chain_type :: "ptr \<Rightarrow> nft_chain_type option"
  k_nft_base_chain :: "ptr \<Rightarrow> nft_base_chain option"
  k_nft_traceinfo :: "ptr \<Rightarrow> nft_traceinfo option"
  k_xt_table :: "ptr \<Rightarrow> xt_table option"

abbreviation sk_at :: "kernel \<Rightarrow> ptr \<Rightarrow> sock" where
  "sk_at k \<equiv> deref (k_sock k) zero_sock"

abbreviation socket_at :: "kernel \<Rightarrow> ptr \<Rightarrow> socket" where
  "socket_at k \<equiv> deref (k_socket k) zero_socket"

abbreviation file_at :: "kernel \<Rightarrow> ptr \<Rightarrow> kfile" where
  "file_at k \<equiv> deref (k_file k) zero_kfile"

abbreviation inode_at :: "kernel \<Rightarrow> ptr \<Rightarrow> kinode" where
  "inode_at k \<equiv> deref (k_inode k) zero_kinode"

abbreviation net_at :: "kernel \<Rightarrow> ptr \<Rightarrow> netns" where
  "net_at k \<equiv> deref (k_net k) zero_netns"

abbreviation dev_at :: "kernel \<Rightarrow> ptr \<Rightarrow> net_device" where
  "dev_at k \<equiv> deref (k_dev k) zero_net_device"

abbreviation skb_at :: "kernel \<Rightarrow> ptr \<Rightarrow> sk_buff" where
  "skb_at k \<equiv> deref (k_skb k) zero_sk_buff"

abbreviation hook_at :: "kernel \<Rightarrow> ptr \<Rightarrow> nf_hook_state" where
  "hook_at k \<equiv> deref (k_hook k) zero_nf_hook_state"

abbreviation rule_dp_at :: "kernel \<Rightarrow> ptr \<Rightarrow> nft_rule_dp" where
  "rule_dp_at k \<equiv> deref (k_rule_dp k) zero_nft_rule_dp"

abbreviation nft_table_at :: "kernel \<Rightarrow> ptr \<Rightarrow> nft_table" where
  "nft_table_at k \<equiv> deref (k_nft_table k) zero_nft_table"

abbreviation nft_chain_at :: "kernel \<Rightarrow> ptr \<Rightarrow> nft_chain" where
  "nft_chain_at k \<equiv> deref (k_nft_chain k) zero_nft_chain"

abbreviation nft_verdict_at :: "kernel \<Rightarrow> ptr \<Rightarrow> nft_verdict" where
  "nft_verdict_at k \<equiv> deref (k_nft_verdict k) zero_nft_verdict"

abbreviation nft_pktinfo_at :: "kernel \<Rightarrow> ptr \<Rightarrow> nft_pktinfo" where
  "nft_pktinfo_at k \<equiv> deref (k_nft_pktinfo k) zero_nft_pktinfo"

abbreviation nft_chain_type_at :: "kernel \<Rightarrow> ptr \<Rightarrow> nft_chain_type" where
  "nft_chain_type_at k \<equiv> deref (k_nft_chain_type k) zero_nft_chain_type"

abbreviation nft_base_chain_at :: "kernel \<Rightarrow> ptr \<Rightarrow> nft_base_chain" where
  "nft_base_chain_at k \<equiv> deref (k_nft_base_chain k) zero_nft_base_chain"

abbreviation nft_traceinfo_at :: "kernel \<Rightarrow> ptr \<Rightarrow> nft_traceinfo" where
  "nft_traceinfo_at k \<equiv> deref (k_nft_traceinfo k) zero_nft_traceinfo"

abbreviation xt_table_at :: "kernel \<Rightarrow> ptr \<Rightarrow> xt_table" where
  "xt_table_at k \<equiv> deref (k_xt_table k) zero_xt_table"

lemmas zero_defs =
  zero_sock_def zero_socket_def zero_kfile_def zero_kinode_def zero_netns_def zero_net_device_def zero_sk_buff_def zero_nf_hook_state_def zero_nft_rule_dp_def zero_nft_table_def zero_nft_chain_def zero_nft_verdict_def zero_nft_pktinfo_def zero_nft_chain_type_def zero_nft_base_chain_def zero_nft_traceinfo_def zero_xt_table_def

text \<open>The empty kernel: every address faults. Concrete kernels are updates of it.\<close>

definition no_kernel :: kernel where
  "no_kernel = \<lparr>k_mem = (\<lambda>_. None), k_sock = (\<lambda>_. None), k_socket = (\<lambda>_. None), k_file = (\<lambda>_. None), k_inode = (\<lambda>_. None), k_net = (\<lambda>_. None), k_dev = (\<lambda>_. None), k_skb = (\<lambda>_. None), k_hook = (\<lambda>_. None), k_rule_dp = (\<lambda>_. None), k_nft_table = (\<lambda>_. None), k_nft_chain = (\<lambda>_. None), k_nft_verdict = (\<lambda>_. None), k_nft_pktinfo = (\<lambda>_. None), k_nft_chain_type = (\<lambda>_. None), k_nft_base_chain = (\<lambda>_. None), k_nft_traceinfo = (\<lambda>_. None), k_xt_table = (\<lambda>_. None)\<rparr>"

text \<open>A copy of the device name, the \<^verbatim>\<open>char[16]\<close> inside the structure, as
  \<^verbatim>\<open>bpf_probe_read_kernel_str\<close> makes it from a readable array.\<close>

definition copy_str :: "bytes \<Rightarrow> bytes \<Rightarrow> bytes" where
  "copy_str dst src =
     snd (probe_read_str (\<lambda>a. if unat a < length src then Some (src ! unat a) else None) dst 0)"

lemma length_copy_str [simp]: "length (copy_str dst src) = length dst"
  by (simp add: copy_str_def)

end
