(* ===== verification/Common.thy ===== *)
theory Common
  imports Kernel
begin

text \<open>
  \<^verbatim>\<open>ebpf/headers/common.h\<close>: the structures of the events sent to user space and the
  routines that fill them from the kernel. Structure fields keep their C names
  behind a short prefix per structure.
\<close>

section \<open>Constants\<close>

definition AF_INET :: u8 where [c_consts]: "AF_INET = 2"
definition AF_INET6 :: u8 where [c_consts]: "AF_INET6 = 10"
definition IPPROTO_ICMP :: u16 where [c_consts]: "IPPROTO_ICMP = 1"
definition IPPROTO_TCP :: u16 where [c_consts]: "IPPROTO_TCP = 6"
definition IPPROTO_UDP :: u16 where [c_consts]: "IPPROTO_UDP = 17"
definition IPPROTO_ICMPV6 :: u16 where [c_consts]: "IPPROTO_ICMPV6 = 58"
definition MAX_PROCESS_NAME :: nat where [c_consts]: "MAX_PROCESS_NAME = 64"

text \<open>\<^verbatim>\<open>enum link_role\<close>; the maps and the events store its number.\<close>

datatype link_role = LINK_ROLE_UNKNOWN | LINK_ROLE_CLIENT | LINK_ROLE_SERVER

fun role_num :: "link_role \<Rightarrow> u32" where
  "role_num LINK_ROLE_UNKNOWN = 0"
| "role_num LINK_ROLE_CLIENT = 1"
| "role_num LINK_ROLE_SERVER = 2"

lemma role_num_inject [simp]: "role_num r = role_num q \<longleftrightarrow> r = q"
  by (cases r; cases q) simp_all

section \<open>Structures\<close>

record trace_icmp =
  ic_type :: u8
  ic_code :: u8

record connection_throughput_stats =
  bytes_sent :: u64
  bytes_received :: u64
  is_active :: u64

text \<open>The compiler puts three bytes behind the family to align the structure; a map compares
  them with the rest of the key.\<close>

record trace_conn_key =
  ck_src_port :: u16
  ck_dest_port :: u16
  ck_src_ip :: u32
  ck_dest_ip :: u32
  ck_src_ip6 :: in6_addr
  ck_dest_ip6 :: in6_addr
  ck_family :: u8
  ck_pad :: bytes

record trace_conn_value =
  cv_id :: u16
  cv_role :: u32

record trace_conn_info =
  ci_src_mac :: bytes
  ci_dest_mac :: bytes
  ci_src_port :: u16
  ci_dest_port :: u16
  ci_src_ip :: u32
  ci_dest_ip :: u32
  ci_src_ip6 :: in6_addr
  ci_dest_ip6 :: in6_addr
  ci_net_ns :: u32
  ci_family :: u8
  ci_protocol :: u8
  ci_sk_protocol :: u16
  ci_loc :: u16
  ci_old_state :: u8
  ci_new_state :: u8
  ci_icmp_info :: trace_icmp
  ci_role :: u32
  ci_throughput :: connection_throughput_stats

definition zero_trace_conn_info :: trace_conn_info where
  "zero_trace_conn_info =
     \<lparr>ci_src_mac = replicate 6 0, ci_dest_mac = replicate 6 0, ci_src_port = 0, ci_dest_port = 0,
      ci_src_ip = 0, ci_dest_ip = 0, ci_src_ip6 = (0, 0, 0, 0), ci_dest_ip6 = (0, 0, 0, 0),
      ci_net_ns = 0, ci_family = 0, ci_protocol = 0, ci_sk_protocol = 0, ci_loc = 0,
      ci_old_state = 0, ci_new_state = 0, ci_icmp_info = \<lparr>ic_type = 0, ic_code = 0\<rparr>, ci_role = 0,
      ci_throughput = \<lparr>bytes_sent = 0, bytes_received = 0, is_active = 0\<rparr>\<rparr>"

record sk_common_info =
  sc_state :: u8
  sc_reuse_port :: u8
  sc_bound_ifindex :: u32

record trace_sk_info =
  si_sock_id :: u64
  si_rx_dst_ifindex :: u32
  si_backlog_len :: u32
  si_rcv_buff :: u32
  si_snd_buff :: u32
  si_priority :: u32
  si_mark :: u32
  si_type :: u16

record trace_socket_info =
  soi_state :: u16
  soi_type :: u16
  soi_file_inode :: u64
  soi_flags :: u64

record trace_dev_info =
  di_iif_name :: bytes
  di_oif_name :: bytes
  di_iif :: u32
  di_oif :: u32
  di_iif_type :: u16
  di_oif_type :: u16

record trace_nft_info =
  ni_type :: u32
  ni_verdict :: u32
  ni_table_name :: bytes
  ni_table_handle :: u64
  ni_chain_name :: bytes
  ni_chain_handle :: u64
  ni_rule_handle :: u64
  ni_jump_target :: bytes
  ni_nf_proto :: u8
  ni_policy :: u8
  ni_len :: u16
  ni_mark :: u32
  ni_base_chain_family :: u32

record trace_process_info =
  pi_name :: bytes
  pi_pid :: u64
  pi_tgid :: u64

record state_info =
  st_old_state :: u8
  st_new_state :: u8
  st_loc :: u32
  st_role :: u32

section \<open>Routines\<close>

text \<open>
  \<^verbatim>\<open>get_conn_key\<close> fills a structure on the stack without clearing it first:
  \<open>stack\<close> is what the stack held. Of the IPv4 and IPv6 addresses only one pair is
  written, and the padding never is.
\<close>

definition get_conn_key :: "kernel \<Rightarrow> trace_conn_key \<Rightarrow> ptr \<Rightarrow> trace_conn_key" where
  "get_conn_key k stack sk =
     (let s = sk_at k sk;
          family = ucast (skc_family s) :: u8;
          key = stack\<lparr>ck_family := family, ck_dest_port := skc_num s, ck_src_port := skc_dport s\<rparr>
      in if family = AF_INET
         then key\<lparr>ck_dest_ip := skc_rcv_saddr s, ck_src_ip := skc_daddr s\<rparr>
         else key\<lparr>ck_src_ip6 := skc_v6_rcv_saddr s, ck_dest_ip6 := skc_v6_daddr s\<rparr>)"

definition fill_process_info :: "run_ctx \<Rightarrow> trace_process_info" where
  "fill_process_info c =
     \<lparr>pi_name = bpf_get_current_comm c MAX_PROCESS_NAME,
      pi_pid = drop_bit 32 (bpf_get_current_pid_tgid c),
      pi_tgid = push_bit 32 (bpf_get_current_pid_tgid c)\<rparr>"

definition set_sock_info :: "kernel \<Rightarrow> ptr \<Rightarrow> trace_socket_info" where
  "set_sock_info k sk =
     (let so = socket_at k (sk_socket (sk_at k sk))
      in \<lparr>soi_state = ucast (so_state so), soi_type = so_type so,
          soi_file_inode = i_ino (inode_at k (f_inode (file_at k (so_file so)))),
          soi_flags = so_flags so\<rparr>)"

definition set_nft_info ::
  "kernel \<Rightarrow> trace_nft_info \<Rightarrow> ptr \<Rightarrow> ptr \<Rightarrow> ptr \<Rightarrow> ptr \<Rightarrow> trace_nft_info" where
  "set_nft_info k nft pkt verdict rule info =
     (let ti = nft_traceinfo_at k info;
          base = nft_base_chain_at k (ti_basechain ti);
          chain = nb_chain base;
          table = nft_table_at k (nc_table chain)
      in nft\<lparr>ni_type := ti_type ti,
             ni_base_chain_family := nct_family (nft_chain_type_at k (nb_type base)),
             ni_nf_proto := hs_pf (hook_at k (np_state (nft_pktinfo_at k pkt))),
             ni_table_name := snd (probe_read_str (k_mem k) (ni_table_name nft) (nt_name table)),
             ni_table_handle := nt_handle table,
             ni_chain_name := snd (probe_read_str (k_mem k) (ni_chain_name nft) (nc_name chain)),
             ni_chain_handle := nc_handle chain,
             ni_rule_handle := nd_handle (rule_dp_at k rule),
             ni_verdict := nv_code (nft_verdict_at k verdict),
             ni_jump_target := snd (probe_read_str (k_mem k) (ni_jump_target nft)
               (nc_name (nft_chain_at k (nv_chain (nft_verdict_at k verdict))))),
             ni_policy := nb_policy base,
             ni_mark := skb_mark (skb_at k (np_skb (nft_pktinfo_at k pkt)))\<rparr>)"

definition set_dev_info :: "kernel \<Rightarrow> trace_dev_info \<Rightarrow> ptr \<Rightarrow> trace_dev_info" where
  "set_dev_info k di pkt =
     (let st = hook_at k (np_state (nft_pktinfo_at k pkt));
          ind = dev_at k (hs_in st);
          outd = dev_at k (hs_out st)
      in di\<lparr>di_iif := nd_ifindex ind, di_iif_type := nd_type ind,
            di_iif_name := copy_str (di_iif_name di) (nd_name ind),
            di_oif := nd_ifindex outd, di_oif_type := nd_type outd,
            di_oif_name := copy_str (di_oif_name di) (nd_name outd)\<rparr>)"

definition set_sk_info :: "kernel \<Rightarrow> ptr \<Rightarrow> trace_sk_info" where
  "set_sk_info k sk =
     (let s = sk_at k sk
      in \<lparr>si_sock_id = sk, si_rx_dst_ifindex = sk_rx_dst_ifindex s, si_backlog_len = sk_backlog_len s,
          si_rcv_buff = sk_rcvbuf s, si_snd_buff = sk_sndbuf s, si_priority = sk_priority s,
          si_mark = sk_mark s, si_type = sk_type s\<rparr>)"

definition set_sk_common :: "kernel \<Rightarrow> ptr \<Rightarrow> sk_common_info" where
  "set_sk_common k sk =
     (let s = sk_at k sk
      in \<lparr>sc_state = skc_state s, sc_reuse_port = skc_reuseport s,
          sc_bound_ifindex = skc_bound_dev_if s\<rparr>)"

text \<open>
  \<^verbatim>\<open>set_conn_info\<close>: every early return leaves what was written before it and sets
  \<^verbatim>\<open>*err\<close>; reaching the end leaves \<^verbatim>\<open>*err\<close> alone.
\<close>

definition set_conn_info ::
  "kernel \<Rightarrow> ptr \<Rightarrow> state_info \<Rightarrow> trace_conn_info \<times> int \<Rightarrow> trace_conn_info \<times> int" where
  "set_conn_info k sk states ce =
     (let (ci, err) = ce;
          s = sk_at k sk;
          ci = ci\<lparr>ci_role := st_role states, ci_loc := ucast (st_loc states),
                  ci_old_state := st_old_state states, ci_new_state := st_new_state states\<rparr>;
          family = ucast (skc_family s) :: u8
      in if family \<noteq> AF_INET \<and> family \<noteq> AF_INET6 then (ci, CLEAN_ERR_FAILED)
         else if sk_protocol s \<noteq> IPPROTO_TCP \<and> sk_protocol s \<noteq> IPPROTO_UDP \<and>
                 sk_protocol s \<noteq> IPPROTO_ICMP then (ci, CLEAN_ERR_FAILED)
         else
           (let ci = (if sk_protocol s = IPPROTO_TCP
                      then ci\<lparr>ci_throughput := (ci_throughput ci)
                             \<lparr>bytes_received := tcp_bytes_received s, bytes_sent := tcp_bytes_sent s\<rparr>\<rparr>
                      else ci);
                ci = ci\<lparr>ci_family := family, ci_sk_protocol := sk_protocol s,
                        ci_net_ns := ns_inum (net_at k (skc_net s)),
                        ci_dest_port := skc_num s, ci_src_port := ntohs (skc_dport s)\<rparr>
            in if family = AF_INET then
                 (let ci = ci\<lparr>ci_dest_ip := ntohl (skc_rcv_saddr s), ci_src_ip := ntohl (skc_daddr s)\<rparr>
                  in if ci_dest_ip ci = 0 \<or> ci_src_ip ci = 0 then (ci, CLEAN_ERR_FAILED) else (ci, err))
               else (ci\<lparr>ci_src_ip6 := skc_v6_rcv_saddr s, ci_dest_ip6 := skc_v6_daddr s\<rparr>, err)))"

definition get_unique_id :: "u64 \<Rightarrow> u32" where
  "get_unique_id now = ucast (now mod 0xFFFFFFFF)"

section \<open>Facts\<close>

text \<open>When \<^verbatim>\<open>set_conn_info\<close> accepts a socket, and what it has filled in then.\<close>

definition conn_reportable :: "sock \<Rightarrow> bool" where
  "conn_reportable s \<longleftrightarrow>
     (ucast (skc_family s) = AF_INET \<and> skc_rcv_saddr s \<noteq> 0 \<and> skc_daddr s \<noteq> 0 \<or>
      ucast (skc_family s) = AF_INET6) \<and>
     sk_protocol s \<in> {IPPROTO_TCP, IPPROTO_UDP, IPPROTO_ICMP}"

lemma set_conn_info_err:
  "snd (set_conn_info k sk st (ci, err)) =
     (if conn_reportable (sk_at k sk) then err else CLEAN_ERR_FAILED)"
  by (simp add: set_conn_info_def Let_def conn_reportable_def c_consts)

lemma set_conn_info_states:
  "ci_role (fst (set_conn_info k sk st ce)) = st_role st"
  "ci_loc (fst (set_conn_info k sk st ce)) = ucast (st_loc st)"
  "ci_old_state (fst (set_conn_info k sk st ce)) = st_old_state st"
  "ci_new_state (fst (set_conn_info k sk st ce)) = st_new_state st"
  by (simp_all add: set_conn_info_def Let_def split: prod.split)

lemma set_conn_info_v4:
  assumes "conn_reportable (sk_at k sk)" "ucast (skc_family (sk_at k sk)) = AF_INET"
  shows "ci_dest_ip (fst (set_conn_info k sk st ce)) = ntohl (skc_rcv_saddr (sk_at k sk))"
    "ci_src_ip (fst (set_conn_info k sk st ce)) = ntohl (skc_daddr (sk_at k sk))"
    "ci_dest_port (fst (set_conn_info k sk st ce)) = skc_num (sk_at k sk)"
    "ci_src_port (fst (set_conn_info k sk st ce)) = ntohs (skc_dport (sk_at k sk))"
  using assms
  by (auto simp: set_conn_info_def Let_def conn_reportable_def c_consts split: prod.split)

lemma set_conn_info_reported:
  assumes "conn_reportable (sk_at k sk)"
  shows "ci_family (fst (set_conn_info k sk st ce)) = ucast (skc_family (sk_at k sk))"
    "ci_sk_protocol (fst (set_conn_info k sk st ce)) = sk_protocol (sk_at k sk)"
    "ci_net_ns (fst (set_conn_info k sk st ce)) = ns_inum (net_at k (skc_net (sk_at k sk)))"
  using assms
  by (auto simp: set_conn_info_def Let_def conn_reportable_def c_consts split: prod.split)

lemma get_unique_id_bound: "unat (get_unique_id now) < 4294967295"
proof -
  have "unat (now mod 0xFFFFFFFF) < 4294967295"
    by (simp add: unat_mod_distrib unat_mod)
  then show ?thesis
    using unat_ucast_le [of "now mod 0xFFFFFFFF", where ?'b = 32]
    by (simp add: get_unique_id_def)
qed

text \<open>The key of a socket depends on what the stack held: on the addresses of the other family and
  on the padding.\<close>

definition same_residue :: "u8 \<Rightarrow> trace_conn_key \<Rightarrow> trace_conn_key \<Rightarrow> bool" where
  "same_residue family st st' \<longleftrightarrow>
     ck_pad st = ck_pad st' \<and>
     (if family = AF_INET then ck_src_ip6 st = ck_src_ip6 st' \<and> ck_dest_ip6 st = ck_dest_ip6 st'
      else ck_src_ip st = ck_src_ip st' \<and> ck_dest_ip st = ck_dest_ip st')"

lemma get_conn_key_eq_iff:
  "get_conn_key k st sk = get_conn_key k st' sk \<longleftrightarrow> same_residue (ucast (skc_family (sk_at k sk))) st st'"
  by (cases st; cases st') (auto simp: get_conn_key_def same_residue_def Let_def)

end
