(* ===== verification/Tcp_Link.thy ===== *)
theory Tcp_Link
  imports Common
begin

text \<open>
  \<^verbatim>\<open>ebpf/tcp-link-trace.c\<close>: the connection tracer. Its state is three hash maps and
  a ring buffer; every handler is a function of the environment of the run, its
  arguments and that state. The last sections put the handlers together as a step
  relation and prove what holds in every reachable state. Debug output
  (\<^verbatim>\<open>bpf_printk\<close>, \<^verbatim>\<open>print_conn_info\<close>) is left out; the return value of every
  handler is 0.
\<close>

section \<open>State\<close>

record link_event =
  le_cur_time :: u64
  le_skc :: sk_common_info
  le_sk_info :: trace_sk_info
  le_socket_info :: trace_socket_info
  le_conn_info :: trace_conn_info
  le_process :: trace_process_info

definition link_event_size :: nat where
  "link_event_size = 264"

record tcp_fd_info =
  fd_file :: u64
  fd_new_file :: u64
  fd_cur_state :: u8
  fd_role :: u8

definition zero_fd_info :: tcp_fd_info where
  "zero_fd_info = \<lparr>fd_file = 0, fd_new_file = 0, fd_cur_state = 0, fd_role = 0\<rparr>"

record link_state =
  conn_ctx_map :: "(trace_conn_key, trace_conn_value) htab"
  conn_tracing_map :: "(ptr, u32) htab"
  fd_info_map :: "(u64, tcp_fd_info) htab"
  link_events :: "link_event ringbuf"

definition link_init :: link_state where
  "link_init =
     \<lparr>conn_ctx_map = htab_empty 10000000, conn_tracing_map = htab_empty 10000000,
      fd_info_map = htab_empty 1024,
      link_events = \<lparr>rb_avail = 1048576, rb_pending = 0, rb_out = []\<rparr>\<rparr>"

text \<open>What a run is given: its context, the kernel data, what the stack holds where the
  key is built, and the frame pointer of the program.\<close>

record link_env =
  en_ctx :: run_ctx
  en_kernel :: kernel
  en_stack :: trace_conn_key
  en_fp :: u64

abbreviation en_sk :: "link_env \<Rightarrow> ptr \<Rightarrow> sock" where
  "en_sk e \<equiv> sk_at (en_kernel e)"

abbreviation en_key :: "link_env \<Rightarrow> ptr \<Rightarrow> trace_conn_key" where
  "en_key e \<equiv> get_conn_key (en_kernel e) (en_stack e)"

section \<open>TCP states\<close>

definition TCP_ESTABLISHED :: u32 where [c_consts]: "TCP_ESTABLISHED = 1"
definition TCP_SYN_SENT :: u32 where [c_consts]: "TCP_SYN_SENT = 2"
definition TCP_SYN_RECV :: u32 where [c_consts]: "TCP_SYN_RECV = 3"
definition TCP_CLOSE :: u32 where [c_consts]: "TCP_CLOSE = 7"

section \<open>Helper routines\<close>

text \<open>The event is committed by the scope guard; \<open>i\<close> is the index of the clock reading.\<close>

definition handle_new_connection ::
  "link_env \<Rightarrow> nat \<Rightarrow> ptr \<Rightarrow> state_info \<Rightarrow> link_event ringbuf \<Rightarrow> link_event ringbuf" where
  "handle_new_connection e i sk states rb =
     guard_rb rb link_event_size
       (let k = en_kernel e;
            (ci, err) = set_conn_info k sk states (zero_trace_conn_info, CLEAN_ERR_INIT);
            event = \<lparr>le_cur_time = ktime (en_ctx e) i,
                     le_skc = \<lparr>sc_state = 0, sc_reuse_port = 0, sc_bound_ifindex = 0\<rparr>,
                     le_sk_info = set_sk_info k sk, le_socket_info = set_sock_info k sk,
                     le_conn_info = ci, le_process = fill_process_info (en_ctx e)\<rparr>
        in (event, if err = CLEAN_ERR_INIT then CLEAN_ERR_SUCCESS else err))"

text \<open>
  \<^verbatim>\<open>fp = bpf_probe_read_kernel(&fp, ...)\<close>: the helper stores the word it reads in
  \<^verbatim>\<open>fp\<close> and then the assignment overwrites it with the helper's return code.
\<close>

definition get_stack_id :: "bytemem \<Rightarrow> u64 \<Rightarrow> u64" where
  "get_stack_id m fp =
     (let fp = word_of_int (fst (probe_read m 8 fp));
          fp = word_of_int (fst (probe_read m 8 fp))
      in fp)"

text \<open>The loop of \<^verbatim>\<open>find_fd_info\<close>; the result is the key of the entry it returns a pointer to.\<close>

fun find_fd_loop :: "bytemem \<Rightarrow> (u64, tcp_fd_info) htab \<Rightarrow> nat \<Rightarrow> u64 \<Rightarrow> u64 option" where
  "find_fd_loop m h 0 stack_id = None"
| "find_fd_loop m h (Suc n) stack_id =
     (if htab_lookup h stack_id \<noteq> None then Some stack_id
      else find_fd_loop m h n (word_of_int (fst (probe_read m 8 stack_id))))"

definition find_fd_info :: "bytemem \<Rightarrow> (u64, tcp_fd_info) htab \<Rightarrow> u64 \<Rightarrow> u64 option" where
  "find_fd_info m h fp = find_fd_loop m h 3 (get_stack_id m fp)"

definition sock_from_file :: "kernel \<Rightarrow> u64 \<Rightarrow> ptr" where
  "sock_from_file k file = so_sk (socket_at k (private_data (file_at k file)))"

definition IS_ERR_VALUE :: "u64 \<Rightarrow> bool" where
  "IS_ERR_VALUE x \<longleftrightarrow> x \<ge> - 4095"

definition conn_val :: "link_env \<Rightarrow> nat \<Rightarrow> u32 \<Rightarrow> trace_conn_value" where
  "conn_val e i role = \<lparr>cv_id = ucast (get_unique_id (ktime (en_ctx e) i)), cv_role = role\<rparr>"

text \<open>The two insertions that mark a socket, shared by five handlers.\<close>

definition mark_ctx :: "link_env \<Rightarrow> ptr \<Rightarrow> link_role \<Rightarrow> link_state \<Rightarrow> link_state" where
  "mark_ctx e sk r s =
     s\<lparr>conn_ctx_map := snd (htab_try_init (conn_ctx_map s) (en_key e sk) (conn_val e 0 (role_num r)))\<rparr>"

definition mark_sock :: "link_env \<Rightarrow> ptr \<Rightarrow> link_role \<Rightarrow> link_state \<Rightarrow> link_state" where
  "mark_sock e sk r s =
     mark_ctx e sk r (s\<lparr>conn_tracing_map := snd (htab_try_init (conn_tracing_map s) sk (role_num r))\<rparr>)"

section \<open>Handlers\<close>

definition fentry___sys_connect :: "link_env \<Rightarrow> link_state \<Rightarrow> link_state" where
  "fentry___sys_connect e s =
     (let stack_id = get_stack_id (k_mem (en_kernel e)) (en_fp e)
      in s\<lparr>fd_info_map := snd (htab_update (fd_info_map s) stack_id zero_fd_info BPF_ANY)\<rparr>)"

definition fentry___sys_connect_file :: "link_env \<Rightarrow> ptr \<Rightarrow> link_state \<Rightarrow> link_state" where
  "fentry___sys_connect_file e file s =
     (case find_fd_info (k_mem (en_kernel e)) (fd_info_map s) (en_fp e) of
        None \<Rightarrow> s
      | Some fdk \<Rightarrow>
          (let sk = sock_from_file (en_kernel e) file;
               s = s\<lparr>fd_info_map := htab_poke (fd_info_map s) fdk
                 (\<lambda>fd. fd\<lparr>fd_file := file, fd_cur_state := skc_state (en_sk e sk)\<rparr>)\<rparr>
           in mark_ctx e sk LINK_ROLE_CLIENT s))"

definition fexit___sys_connect :: "link_env \<Rightarrow> link_state \<Rightarrow> link_state" where
  "fexit___sys_connect e s =
     (let stack_id = get_stack_id (k_mem (en_kernel e)) (en_fp e);
          (fd, h) = htab_pop (fd_info_map s) stack_id;
          s = s\<lparr>fd_info_map := h\<rparr>
      in case fd of
           None \<Rightarrow> s
         | Some fd_info \<Rightarrow>
             mark_sock e (sock_from_file (en_kernel e) (fd_file fd_info)) LINK_ROLE_CLIENT s)"

definition fentry___sys_accept4 :: "link_env \<Rightarrow> link_state \<Rightarrow> link_state" where
  "fentry___sys_accept4 e s =
     (let stack_id = get_stack_id (k_mem (en_kernel e)) (en_fp e)
      in s\<lparr>fd_info_map := snd (htab_update (fd_info_map s) stack_id zero_fd_info BPF_ANY)\<rparr>)"

definition fexit_do_accept :: "link_env \<Rightarrow> ptr \<Rightarrow> ptr \<Rightarrow> link_state \<Rightarrow> link_state" where
  "fexit_do_accept e file newfile s =
     (case find_fd_info (k_mem (en_kernel e)) (fd_info_map s) (en_fp e) of
        None \<Rightarrow> s
      | Some fdk \<Rightarrow>
          s\<lparr>fd_info_map := htab_poke (fd_info_map s) fdk
            (\<lambda>fd. let fd = fd\<lparr>fd_file := file\<rparr>
                  in if \<not> IS_ERR_VALUE newfile then fd\<lparr>fd_new_file := newfile\<rparr> else fd)\<rparr>)"

text \<open>Both early returns and the last return are the same: the descriptor is not used.\<close>

definition fexit___sys_accept4 :: "link_env \<Rightarrow> u32 \<Rightarrow> link_state \<Rightarrow> link_state" where
  "fexit___sys_accept4 e newfd s =
     (let stack_id = get_stack_id (k_mem (en_kernel e)) (en_fp e);
          (fd, h) = htab_pop (fd_info_map s) stack_id
      in s\<lparr>fd_info_map := h\<rparr>)"

definition fentry_tcp_v4_connect :: "link_env \<Rightarrow> ptr \<Rightarrow> link_state \<Rightarrow> link_state" where
  "fentry_tcp_v4_connect e sk s = s"

definition fexit_tcp_v4_connect :: "link_env \<Rightarrow> ptr \<Rightarrow> u32 \<Rightarrow> link_state \<Rightarrow> link_state" where
  "fexit_tcp_v4_connect e sk retval s =
     (if retval = 0 then mark_sock e sk LINK_ROLE_CLIENT s else s)"

definition fentry_tcp_v6_connect :: "link_env \<Rightarrow> ptr \<Rightarrow> link_state \<Rightarrow> link_state" where
  "fentry_tcp_v6_connect e sk s = mark_sock e sk LINK_ROLE_CLIENT s"

definition fexit_inet_csk_accept :: "link_env \<Rightarrow> ptr \<Rightarrow> link_state \<Rightarrow> link_state" where
  "fexit_inet_csk_accept e sk s = mark_sock e sk LINK_ROLE_SERVER s"

text \<open>
  \<^verbatim>\<open>k_set_state\<close> in its three steps: the insertions that add the socket to both maps
  if it is new, the branch on the transition, and the removal on \<^verbatim>\<open>TCP_CLOSE\<close>. The
  pointer the lookup returns points to a \<^verbatim>\<open>u32\<close> and is read as a \<^verbatim>\<open>u8\<close>. The clock is
  read once for the identifier and once for the event.
\<close>

definition set_state_insert :: "link_env \<Rightarrow> ptr \<Rightarrow> link_state \<Rightarrow> link_state" where
  "set_state_insert e sk s =
     s\<lparr>conn_tracing_map :=
         snd (htab_update (conn_tracing_map s) sk (role_num LINK_ROLE_UNKNOWN) BPF_NOEXIST),
       conn_ctx_map :=
         snd (htab_update (conn_ctx_map s) (en_key e sk)
           (conn_val e 0 (role_num LINK_ROLE_UNKNOWN)) BPF_NOEXIST)\<rparr>"

text \<open>The body the first three branches share, for their location and role.\<close>

definition set_state_decide ::
  "link_env \<Rightarrow> ptr \<Rightarrow> state_info \<Rightarrow> u32 \<Rightarrow> link_role \<Rightarrow> link_state \<Rightarrow> link_state" where
  "set_state_decide e sk info loc r s =
     s\<lparr>conn_tracing_map := snd (htab_update (conn_tracing_map s) sk (role_num r) BPF_ANY),
       link_events :=
         handle_new_connection e 1 sk (info\<lparr>st_loc := loc, st_role := role_num r\<rparr>) (link_events s)\<rparr>"

definition set_state_other :: "link_env \<Rightarrow> ptr \<Rightarrow> state_info \<Rightarrow> link_state \<Rightarrow> link_state" where
  "set_state_other e sk info s =
     (case htab_lookup (conn_tracing_map s) sk of
        None \<Rightarrow> s
      | Some v \<Rightarrow>
          (let val = ucast (ucast v :: u8)
           in s\<lparr>conn_ctx_map := snd (htab_update (conn_ctx_map s) (en_key e sk) (conn_val e 0 val) BPF_ANY),
                link_events :=
                  handle_new_connection e 1 sk (info\<lparr>st_loc := 7, st_role := val\<rparr>) (link_events s)\<rparr>))"

definition set_state_branch :: "link_env \<Rightarrow> ptr \<Rightarrow> u8 \<Rightarrow> u32 \<Rightarrow> link_state \<Rightarrow> link_state" where
  "set_state_branch e sk old_state new_state s =
     (let info = \<lparr>st_old_state = old_state, st_new_state = ucast new_state, st_loc = 0, st_role = 0\<rparr>
      in if ucast old_state = TCP_CLOSE \<and> new_state = TCP_SYN_SENT
           then set_state_decide e sk info 4 LINK_ROLE_CLIENT s
         else if ucast old_state = TCP_SYN_SENT \<and> new_state = TCP_ESTABLISHED
           then set_state_decide e sk info 5 LINK_ROLE_CLIENT s
         else if ucast old_state = TCP_SYN_RECV \<and> new_state = TCP_ESTABLISHED
           then set_state_decide e sk info 6 LINK_ROLE_SERVER s
         else set_state_other e sk info s)"

definition k_set_state :: "link_env \<Rightarrow> ptr \<Rightarrow> u32 \<Rightarrow> link_state \<Rightarrow> link_state" where
  "k_set_state e sk new_state s =
     (let old_state = skc_state (en_sk e sk);
          s = set_state_insert e sk s;
          s = set_state_branch e sk old_state new_state s
      in if new_state = TCP_CLOSE
         then s\<lparr>conn_tracing_map := snd (htab_delete (conn_tracing_map s) sk)\<rparr>
         else s)"

definition k_tcp_v4_destroy_sock :: "link_env \<Rightarrow> ptr \<Rightarrow> link_state \<Rightarrow> link_state" where
  "k_tcp_v4_destroy_sock e sk s =
     (let s = s\<lparr>conn_tracing_map := snd (htab_delete (conn_tracing_map s) sk)\<rparr>;
          key = en_key e sk
      in s\<lparr>conn_ctx_map := snd (htab_delete (conn_ctx_map s) key)\<rparr>)"

definition rtp_tcp_destroy_sock :: "link_env \<Rightarrow> ptr \<Rightarrow> link_state \<Rightarrow> link_state" where
  "rtp_tcp_destroy_sock e sk s =
     (if sk = NULL then s
      else (let key = en_key e sk;
                s = s\<lparr>conn_ctx_map := snd (htab_delete (conn_ctx_map s) key)\<rparr>
            in s\<lparr>conn_tracing_map := snd (htab_delete (conn_tracing_map s) sk)\<rparr>))"

definition tp_destroy_sock_func :: "link_env \<Rightarrow> ptr \<Rightarrow> link_state \<Rightarrow> link_state" where
  "tp_destroy_sock_func e sk s =
     (if sk = NULL then s
      else (let key = en_key e sk;
                s = s\<lparr>conn_ctx_map := snd (htab_delete (conn_ctx_map s) key)\<rparr>
            in s\<lparr>conn_tracing_map := snd (htab_delete (conn_tracing_map s) sk)\<rparr>))"

text \<open>\<^verbatim>\<open>PT_REGS_PARM1\<close> is the register \<^verbatim>\<open>di\<close>, the fifteenth word of \<^verbatim>\<open>struct pt_regs\<close>.\<close>

definition fexit_tcp_close :: "link_env \<Rightarrow> ptr \<Rightarrow> u32 \<Rightarrow> link_state \<Rightarrow> link_state" where
  "fexit_tcp_close e regs retval s =
     (if retval \<noteq> 0 then
        (let sk = load64 (k_mem (en_kernel e)) (regs + 112);
             s = s\<lparr>conn_tracing_map := snd (htab_pop (conn_tracing_map s) sk)\<rparr>;
             key = en_key e sk
         in s\<lparr>conn_ctx_map := snd (htab_delete (conn_ctx_map s) key)\<rparr>)
      else s)"

definition handle_tcp_data_queue :: "link_env \<Rightarrow> link_state \<Rightarrow> link_state" where
  "handle_tcp_data_queue e s = s"

text \<open>The handlers that are one or two operations on the maps, for the proofs about all of them.\<close>

lemmas link_defs =
  fentry___sys_connect_def fentry___sys_accept4_def fexit___sys_accept4_def fentry_tcp_v4_connect_def
  fexit_tcp_v4_connect_def fentry_tcp_v6_connect_def fexit_inet_csk_accept_def k_tcp_v4_destroy_sock_def
  rtp_tcp_destroy_sock_def tp_destroy_sock_func_def handle_tcp_data_queue_def

end
