(* ===== verification/Tcp_Link_Props.thy ===== *)
theory Tcp_Link_Props
  imports Tcp_Link
begin

text \<open>
  Facts about the connection tracer: the frame key, what each handler does to the
  maps, the report of \<^verbatim>\<open>k_set_state\<close>, and an invariant of every reachable state.
\<close>

section \<open>The frame key\<close>

abbreviation minus_EFAULT :: u64 where
  "minus_EFAULT \<equiv> word_of_int (- EFAULT)"

lemma rc_word: "word_of_int (fst (probe_read m n a)) = (0 :: u64) \<or>
  word_of_int (fst (probe_read m n a)) = minus_EFAULT"
  using probe_read_rc [of m n a] by auto

lemma get_stack_id_cases: "get_stack_id m fp = 0 \<or> get_stack_id m fp = minus_EFAULT"
  unfolding get_stack_id_def Let_def by (rule rc_word)

text \<open>With the zero page and the last page unmapped, as they are, the key is one constant.\<close>

lemma get_stack_id_fixed:
  assumes "m 0 = None" and "m minus_EFAULT = None"
  shows "get_stack_id m fp = minus_EFAULT"
  using rc_word [of m 8 fp] assms
  by (auto simp: get_stack_id_def Let_def probe_read_fault)

lemma find_fd_loop_Some:
  "find_fd_loop m h n a = Some k \<Longrightarrow>
   htab_lookup h k \<noteq> None \<and> (k = a \<or> k = 0 \<or> k = minus_EFAULT)"
proof (induction m h n a rule: find_fd_loop.induct)
  case (2 m h n a)
  show ?case
  proof (cases "htab_lookup h a = None")
    case True
    then have "find_fd_loop m h n (word_of_int (fst (probe_read m 8 a))) = Some k"
      using "2.prems" by simp
    with "2.IH" True have "htab_lookup h k \<noteq> None" "k = word_of_int (fst (probe_read m 8 a)) \<or> k = 0 \<or> k = minus_EFAULT"
      by auto
    then show ?thesis using rc_word [of m 8 a] by auto
  next
    case False
    with "2.prems" show ?thesis by simp
  qed
qed simp

lemma find_fd_info_Some:
  "find_fd_info m h fp = Some k \<Longrightarrow> htab_lookup h k \<noteq> None \<and> (k = 0 \<or> k = minus_EFAULT)"
  using find_fd_loop_Some [of m h 3 "get_stack_id m fp" k] get_stack_id_cases [of m fp]
  by (auto simp: find_fd_info_def)

section \<open>The event of a state change\<close>

lemma handle_new_connection_pending [simp]:
  "rb_pending (handle_new_connection e i sk st rb) = rb_pending rb"
  by (simp add: handle_new_connection_def)

definition link_event_of :: "link_env \<Rightarrow> nat \<Rightarrow> ptr \<Rightarrow> state_info \<Rightarrow> link_event" where
  "link_event_of e i sk st =
     \<lparr>le_cur_time = ktime (en_ctx e) i,
      le_skc = \<lparr>sc_state = 0, sc_reuse_port = 0, sc_bound_ifindex = 0\<rparr>,
      le_sk_info = set_sk_info (en_kernel e) sk, le_socket_info = set_sock_info (en_kernel e) sk,
      le_conn_info = fst (set_conn_info (en_kernel e) sk st (zero_trace_conn_info, CLEAN_ERR_INIT)),
      le_process = fill_process_info (en_ctx e)\<rparr>"

lemma handle_new_connection_out [simp]:
  "rb_out (handle_new_connection e i sk st rb) =
     rb_out rb @ (if link_event_size \<le> rb_avail rb \<and> conn_reportable (en_sk e sk)
                  then [link_event_of e i sk st] else [])"
proof (cases "set_conn_info (en_kernel e) sk st (zero_trace_conn_info, CLEAN_ERR_INIT)")
  case (Pair ci err)
  have "err = (if conn_reportable (en_sk e sk) then CLEAN_ERR_INIT else CLEAN_ERR_FAILED)"
    using set_conn_info_err [of "en_kernel e" sk st zero_trace_conn_info CLEAN_ERR_INIT] Pair by simp
  with Pair show ?thesis
    by (simp add: handle_new_connection_def link_event_of_def Let_def c_consts)
qed

text \<open>The location and role a transition is reported with; \<open>tr\<close> is the role recorded for the
  socket when the transition is none of the three that decide a role.\<close>

fun set_state_role :: "u32 \<Rightarrow> u32 \<Rightarrow> u32 option \<Rightarrow> (u32 \<times> u32) option" where
  "set_state_role old new tr =
     (if old = TCP_CLOSE \<and> new = TCP_SYN_SENT then Some (4, role_num LINK_ROLE_CLIENT)
      else if old = TCP_SYN_SENT \<and> new = TCP_ESTABLISHED then Some (5, role_num LINK_ROLE_CLIENT)
      else if old = TCP_SYN_RECV \<and> new = TCP_ESTABLISHED then Some (6, role_num LINK_ROLE_SERVER)
      else map_option (\<lambda>v. (7, ucast (ucast v :: u8))) tr)"

declare set_state_role.simps [simp del]

text \<open>The role recorded for a socket once \<^verbatim>\<open>k_set_state\<close> has made its first insertion.\<close>

definition seen_role :: "link_state \<Rightarrow> ptr \<Rightarrow> u32 option" where
  "seen_role s sk =
     htab_lookup (snd (htab_update (conn_tracing_map s) sk (role_num LINK_ROLE_UNKNOWN) BPF_NOEXIST)) sk"

lemma seen_role_insert:
  "htab_lookup (conn_tracing_map (set_state_insert e sk s)) sk = seen_role s sk"
  by (simp add: set_state_insert_def seen_role_def)

lemma set_state_insert_other [simp]:
  "link_events (set_state_insert e sk s) = link_events s"
  "fd_info_map (set_state_insert e sk s) = fd_info_map s"
  by (simp_all add: set_state_insert_def)

lemma set_state_branch_fd [simp]:
  "fd_info_map (set_state_branch e sk old new s) = fd_info_map s"
  by (simp add: set_state_branch_def set_state_decide_def set_state_other_def Let_def split: option.split)

lemma set_state_decide_events:
  "link_events (set_state_decide e sk info loc r s) =
     handle_new_connection e 1 sk (info\<lparr>st_loc := loc, st_role := role_num r\<rparr>) (link_events s)"
  by (simp add: set_state_decide_def)

lemma set_state_other_events:
  "link_events (set_state_other e sk info s) =
     (case htab_lookup (conn_tracing_map s) sk of
        None \<Rightarrow> link_events s
      | Some v \<Rightarrow> handle_new_connection e 1 sk
          (info\<lparr>st_loc := 7, st_role := ucast (ucast v :: u8)\<rparr>) (link_events s))"
  by (cases "htab_lookup (conn_tracing_map s) sk") (simp_all add: set_state_other_def Let_def)

lemma set_state_branch_events:
  "link_events (set_state_branch e sk old new s) =
     (case set_state_role (ucast old) new (htab_lookup (conn_tracing_map s) sk) of
        None \<Rightarrow> link_events s
      | Some (loc, r) \<Rightarrow> handle_new_connection e 1 sk
          \<lparr>st_old_state = old, st_new_state = ucast new, st_loc = loc, st_role = r\<rparr> (link_events s))"
  unfolding set_state_branch_def set_state_role.simps Let_def
  by (cases "htab_lookup (conn_tracing_map s) sk")
    (simp_all only: set_state_decide_events set_state_other_events if_distrib [of link_events]
      case_option_if option.map option.case prod.case state_info.simps)

lemma k_set_state_events:
  "link_events (k_set_state e sk new s) =
     (case set_state_role (ucast (skc_state (en_sk e sk))) new (seen_role s sk) of
        None \<Rightarrow> link_events s
      | Some (loc, r) \<Rightarrow> handle_new_connection e 1 sk
          \<lparr>st_old_state = skc_state (en_sk e sk), st_new_state = ucast new, st_loc = loc, st_role = r\<rparr>
          (link_events s))"
  by (simp add: k_set_state_def Let_def set_state_branch_events seen_role_insert split: option.split)

lemma k_set_state_fd [simp]: "fd_info_map (k_set_state e sk new s) = fd_info_map s"
  by (simp add: k_set_state_def Let_def)

lemma seen_role_cases:
  "seen_role s sk =
    (case htab_lookup (conn_tracing_map s) sk of
       Some v \<Rightarrow> Some v
     | None \<Rightarrow> if length (ht_elems (conn_tracing_map s)) < ht_max (conn_tracing_map s) then Some 0 else None)"
  by (simp add: seen_role_def htab_update_def htab_lookup_def map_of_update split: option.split)

lemma seen_role_room:
  assumes "htab_inv (conn_tracing_map s)" "length (ht_elems (conn_tracing_map s)) < ht_max (conn_tracing_map s)"
  shows "seen_role s sk = Some (case htab_lookup (conn_tracing_map s) sk of None \<Rightarrow> 0 | Some v \<Rightarrow> v)"
  using assms(2)
  by (simp add: seen_role_def htab_update_def htab_lookup_def map_of_update split: option.split)

end
