(* ===== verification/Runs.thy ===== *)
theory Runs
  imports Prelude
begin

text \<open>
  Programs as event systems. A tracer is a function \<open>run e c\<close> on its state, for the call \<open>c\<close> of
  one of its handlers in the environment \<open>e\<close>. Three contracts are shared by the tracers: an
  invariant that every call keeps, a part of the state that belongs to whoever runs (a
  task, a CPU) and that calls of others leave alone, and an abstract state that every call
  changes by one operation.
\<close>

abbreviation runs :: "('e \<Rightarrow> 'c \<Rightarrow> 's \<Rightarrow> 's) \<Rightarrow> ('e \<times> 'c) list \<Rightarrow> 's \<Rightarrow> 's" where
  "runs run calls \<equiv> fold (\<lambda>(e, c). run e c) calls"

locale event_system =
  fixes run :: "'e \<Rightarrow> 'c \<Rightarrow> 's \<Rightarrow> 's"
    and inv :: "'s \<Rightarrow> bool"
  assumes run_inv: "inv s \<Longrightarrow> inv (run e c s)"
begin

lemma runs_inv: "inv s \<Longrightarrow> inv (runs run calls s)"
  by (induction calls arbitrary: s) (auto intro: run_inv)

end

locale owned_events = event_system run inv
  for run :: "'e \<Rightarrow> 'c \<Rightarrow> 's \<Rightarrow> 's" and inv +
  fixes owner :: "'e \<Rightarrow> 'o"
    and view :: "'s \<Rightarrow> 'o \<Rightarrow> 'v"
  assumes run_other: "inv s \<Longrightarrow> owner e \<noteq> k \<Longrightarrow> view (run e c s) k = view s k"
begin

lemma runs_other:
  "inv s \<Longrightarrow> list_all (\<lambda>(e, c). owner e \<noteq> k) calls \<Longrightarrow> view (runs run calls s) k = view s k"
  by (induction calls arbitrary: s) (auto simp: run_inv run_other)

text \<open>A property of one owner's part, set up by that owner, survives whatever the others do.\<close>

lemma kept_by_others:
  assumes "inv s" and "P (view s k)" and "list_all (\<lambda>(e, c). owner e \<noteq> k) calls"
  shows "inv (runs run calls s) \<and> P (view (runs run calls s) k)"
  using assms by (simp add: runs_inv runs_other)

end

text \<open>Every call does to the abstract state what one operation does, as long as the invariant holds, whose
  number is how many more calls the resources of the state are known to last.\<close>

locale simulation =
  fixes run :: "'e \<Rightarrow> 'c \<Rightarrow> 's \<Rightarrow> 's"
    and inv :: "nat \<Rightarrow> 's \<Rightarrow> bool"
    and ok :: "'e \<Rightarrow> 'c \<Rightarrow> bool"
    and abs_state :: "'s \<Rightarrow> 't"
    and abs_run :: "'e \<Rightarrow> 'c \<Rightarrow> 't \<Rightarrow> 't"
  assumes run_inv: "inv (Suc n) s \<Longrightarrow> ok e c \<Longrightarrow> inv n (run e c s)"
    and run_abs: "inv (Suc n) s \<Longrightarrow> ok e c \<Longrightarrow> abs_state (run e c s) = abs_run e c (abs_state s)"
begin

lemma runs_inv:
  "inv (length calls + n) s \<Longrightarrow> list_all (\<lambda>(e, c). ok e c) calls \<Longrightarrow> inv n (runs run calls s)"
  by (induction calls arbitrary: s) (auto intro: run_inv)

lemma runs_abs:
  "inv (length calls) s \<Longrightarrow> list_all (\<lambda>(e, c). ok e c) calls \<Longrightarrow>
   abs_state (runs run calls s) = runs abs_run calls (abs_state s)"
proof (induction calls arbitrary: s)
  case (Cons a calls)
  then show ?case by (cases a) (simp add: run_abs run_inv)
qed simp

end

end
