(* ===== verification/Tcp_Link_Run.thy ===== *)
theory Tcp_Link_Run
  imports Tcp_Link_Props Runs
begin

text \<open>
  The connection tracer as a state machine: the kernel runs one of its programs, or
  user space takes events out of the ring buffer. Programs are atomic steps. The
  properties are stated for every reachable state, or for one handler in any state.
\<close>

section \<open>Steps\<close>

datatype link_call =
    Sys_Connect
  | Sys_Connect_File ptr
  | Sys_Connect_Exit
  | Sys_Accept4
  | Do_Accept_Exit ptr ptr
  | Sys_Accept4_Exit u32
  | V4_Connect ptr
  | V4_Connect_Exit ptr u32
  | V6_Connect ptr
  | Csk_Accept ptr
  | Set_State ptr u32
  | V4_Destroy ptr
  | Raw_Tp_Destroy ptr
  | Tp_Destroy ptr
  | Close_Exit ptr u32
  | Data_Queue

fun link_run :: "link_env \<Rightarrow> link_call \<Rightarrow> link_state \<Rightarrow> link_state" where
  "link_run e Sys_Connect = fentry___sys_connect e"
| "link_run e (Sys_Connect_File file) = fentry___sys_connect_file e file"
| "link_run e Sys_Connect_Exit = fexit___sys_connect e"
| "link_run e Sys_Accept4 = fentry___sys_accept4 e"
| "link_run e (Do_Accept_Exit file newfile) = fexit_do_accept e file newfile"
| "link_run e (Sys_Accept4_Exit newfd) = fexit___sys_accept4 e newfd"
| "link_run e (V4_Connect sk) = fentry_tcp_v4_connect e sk"
| "link_run e (V4_Connect_Exit sk retval) = fexit_tcp_v4_connect e sk retval"
| "link_run e (V6_Connect sk) = fentry_tcp_v6_connect e sk"
| "link_run e (Csk_Accept sk) = fexit_inet_csk_accept e sk"
| "link_run e (Set_State sk new) = k_set_state e sk new"
| "link_run e (V4_Destroy sk) = k_tcp_v4_destroy_sock e sk"
| "link_run e (Raw_Tp_Destroy sk) = rtp_tcp_destroy_sock e sk"
| "link_run e (Tp_Destroy sk) = tp_destroy_sock_func e sk"
| "link_run e (Close_Exit regs retval) = fexit_tcp_close e regs retval"
| "link_run e Data_Queue = handle_tcp_data_queue e"

inductive link_reachable :: "link_state \<Rightarrow> bool" where
  start: "link_reachable link_init"
| run: "link_reachable s \<Longrightarrow> link_reachable (link_run e c s)"
| drain: "link_reachable s \<Longrightarrow> link_reachable (s\<lparr>link_events := (link_events s)\<lparr>rb_avail := n\<rparr>\<rparr>)"

section \<open>The invariant\<close>

definition role_ok :: "u32 \<Rightarrow> bool" where
  "role_ok r \<longleftrightarrow> r \<in> range role_num"

definition link_event_ok :: "link_event \<Rightarrow> bool" where
  "link_event_ok ev \<longleftrightarrow>
     (let ci = le_conn_info ev
      in role_ok (ci_role ci) \<and> ci_loc ci \<in> {4, 5, 6, 7} \<and>
         (ci_loc ci \<in> {4, 5} \<longrightarrow> ci_role ci = role_num LINK_ROLE_CLIENT) \<and>
         (ci_loc ci = 6 \<longrightarrow> ci_role ci = role_num LINK_ROLE_SERVER) \<and>
         ci_family ci \<in> {AF_INET, AF_INET6} \<and>
         ci_sk_protocol ci \<in> {IPPROTO_TCP, IPPROTO_UDP, IPPROTO_ICMP} \<and>
         (ci_family ci = AF_INET \<longrightarrow> ci_dest_ip ci \<noteq> 0 \<and> ci_src_ip ci \<noteq> 0))"

definition fd_key :: "u64 \<Rightarrow> bool" where
  "fd_key k \<longleftrightarrow> k = 0 \<or> k = minus_EFAULT"

definition link_inv :: "link_state \<Rightarrow> bool" where
  "link_inv s \<longleftrightarrow>
     htab_all (\<lambda>_. role_ok) (conn_tracing_map s) \<and> ht_max (conn_tracing_map s) = 10000000 \<and>
     htab_all (\<lambda>_ v. role_ok (cv_role v)) (conn_ctx_map s) \<and> ht_max (conn_ctx_map s) = 10000000 \<and>
     htab_all (\<lambda>k _. fd_key k) (fd_info_map s) \<and> ht_max (fd_info_map s) = 1024 \<and>
     rb_pending (link_events s) = 0 \<and> (\<forall>ev \<in> set (rb_out (link_events s)). link_event_ok ev)"

lemma role_ok_num [simp]: "role_ok (role_num r)"
  by (simp add: role_ok_def)

lemma role_ok_iff: "role_ok r \<longleftrightarrow> r = 0 \<or> r = 1 \<or> r = 2"
proof
  assume "role_ok r"
  then obtain q where "r = role_num q" by (auto simp: role_ok_def)
  then show "r = 0 \<or> r = 1 \<or> r = 2" by (cases q) simp_all
next
  assume "r = 0 \<or> r = 1 \<or> r = 2"
  then show "role_ok r"
    using role_ok_num [of LINK_ROLE_UNKNOWN] role_ok_num [of LINK_ROLE_CLIENT]
      role_ok_num [of LINK_ROLE_SERVER]
    by (auto simp del: role_ok_num)
qed

text \<open>Reading a role through a byte pointer loses nothing.\<close>

lemma role_byte [simp]: "role_ok r \<Longrightarrow> (ucast (ucast r :: u8) :: u32) = r"
  by (auto simp: role_ok_iff)

lemma link_event_of_ok:
  assumes "conn_reportable (en_sk e sk)" and "role_ok (st_role st)"
    and "st_loc st \<in> {4, 5, 6, 7}"
    and "st_loc st \<in> {4, 5} \<Longrightarrow> st_role st = role_num LINK_ROLE_CLIENT"
    and "st_loc st = 6 \<Longrightarrow> st_role st = role_num LINK_ROLE_SERVER"
  shows "link_event_ok (link_event_of e i sk st)"
proof -
  let ?ci = "fst (set_conn_info (en_kernel e) sk st (zero_trace_conn_info, CLEAN_ERR_INIT))"
  note v4 = set_conn_info_v4 [OF assms(1)]
  have fam: "ci_family ?ci \<in> {AF_INET, AF_INET6}"
    "ci_sk_protocol ?ci \<in> {IPPROTO_TCP, IPPROTO_UDP, IPPROTO_ICMP}"
    using assms(1) by (auto simp: set_conn_info_reported conn_reportable_def)
  have ips: "ci_dest_ip ?ci \<noteq> 0 \<and> ci_src_ip ?ci \<noteq> 0" if "ci_family ?ci = AF_INET"
  proof -
    from that have f: "ucast (skc_family (en_sk e sk)) = AF_INET"
      by (simp add: set_conn_info_reported [OF assms(1)])
    with assms(1) have "skc_rcv_saddr (en_sk e sk) \<noteq> 0" "skc_daddr (en_sk e sk) \<noteq> 0"
      by (auto simp: conn_reportable_def c_consts)
    with v4 [OF f] show ?thesis by (simp add: ntohl_eq_0_iff)
  qed
  from assms(2-5) fam ips show ?thesis
    by (auto simp: link_event_ok_def link_event_of_def Let_def set_conn_info_states)
qed

lemma role_ok_conn_val [simp]: "cv_role (conn_val e i r) = r"
  by (simp add: conn_val_def)

lemma link_inv_mark_ctx: "link_inv s \<Longrightarrow> link_inv (mark_ctx e sk r s)"
  by (auto simp: link_inv_def mark_ctx_def)

lemma link_inv_mark_sock: "link_inv s \<Longrightarrow> link_inv (mark_sock e sk r s)"
  unfolding mark_sock_def by (rule link_inv_mark_ctx) (auto simp: link_inv_def)

lemma link_inv_drop_tracing:
  "link_inv s \<Longrightarrow> link_inv (s\<lparr>conn_tracing_map := snd (htab_delete (conn_tracing_map s) sk)\<rparr>)"
  by (auto simp: link_inv_def)

lemma link_inv_drop_both:
  "link_inv s \<Longrightarrow> link_inv (s\<lparr>conn_tracing_map := snd (htab_delete (conn_tracing_map s) sk),
                              conn_ctx_map := snd (htab_delete (conn_ctx_map s) key)\<rparr>)"
  "link_inv s \<Longrightarrow> link_inv (s\<lparr>conn_ctx_map := snd (htab_delete (conn_ctx_map s) key),
                              conn_tracing_map := snd (htab_delete (conn_tracing_map s) sk)\<rparr>)"
  by (auto simp: link_inv_def)

lemma link_inv_drop_ctx:
  "link_inv s \<Longrightarrow> link_inv (s\<lparr>conn_ctx_map := snd (htab_delete (conn_ctx_map s) key)\<rparr>)"
  by (auto simp: link_inv_def)

lemma link_inv_fd:
  "link_inv s \<Longrightarrow> htab_all (\<lambda>k _. fd_key k) h \<Longrightarrow> ht_max h = 1024 \<Longrightarrow>
   link_inv (s\<lparr>fd_info_map := h\<rparr>)"
  by (simp add: link_inv_def)

lemma link_inv_fd_parts:
  "link_inv s \<Longrightarrow> htab_all (\<lambda>k _. fd_key k) (fd_info_map s) \<and> ht_max (fd_info_map s) = 1024"
  by (simp add: link_inv_def)

lemma link_inv_fd_reset:
  "link_inv s \<Longrightarrow>
   link_inv (s\<lparr>fd_info_map := snd (htab_update (fd_info_map s) (get_stack_id m fp) fd BPF_ANY)\<rparr>)"
  using get_stack_id_cases [of m fp, folded fd_key_def]
  by (intro link_inv_fd) (auto dest: link_inv_fd_parts)

lemma link_inv_fd_poke:
  "link_inv s \<Longrightarrow> link_inv (s\<lparr>fd_info_map := htab_poke (fd_info_map s) k f\<rparr>)"
  by (intro link_inv_fd) (auto dest: link_inv_fd_parts)

lemma link_inv_fd_pop:
  "link_inv s \<Longrightarrow> link_inv (s\<lparr>fd_info_map := snd (htab_pop (fd_info_map s) k)\<rparr>)"
  by (intro link_inv_fd) (auto dest: link_inv_fd_parts)

lemmas link_inv_intros =
  link_inv_mark_ctx link_inv_mark_sock link_inv_drop_tracing link_inv_drop_ctx link_inv_drop_both
  link_inv_fd_reset link_inv_fd_poke link_inv_fd_pop

lemma link_inv_connect_file: "link_inv s \<Longrightarrow> link_inv (fentry___sys_connect_file e file s)"
  by (simp add: fentry___sys_connect_file_def Let_def link_inv_intros split: option.split)

lemma link_inv_connect_exit: "link_inv s \<Longrightarrow> link_inv (fexit___sys_connect e s)"
  by (simp add: fexit___sys_connect_def Let_def case_prod_beta link_inv_intros split: option.split)

lemma link_inv_set_state_insert: "link_inv s \<Longrightarrow> link_inv (set_state_insert e sk s)"
  by (auto simp: link_inv_def set_state_insert_def simp del: role_num.simps)

lemma link_inv_event:
  assumes "link_inv s"
    and "\<lbrakk>conn_reportable (en_sk e sk)\<rbrakk> \<Longrightarrow> link_event_ok (link_event_of e i sk st)"
  shows "link_inv (s\<lparr>link_events := handle_new_connection e i sk st (link_events s)\<rparr>)"
  using assms by (auto simp: link_inv_def)

lemma link_inv_tracing_events:
  "link_inv (s\<lparr>link_events := rb\<rparr>) \<Longrightarrow> htab_all (\<lambda>_. role_ok) h \<Longrightarrow> ht_max h = 10000000 \<Longrightarrow>
   link_inv (s\<lparr>conn_tracing_map := h, link_events := rb\<rparr>)"
  by (simp add: link_inv_def)

lemma link_inv_ctx_events:
  "link_inv (s\<lparr>link_events := rb\<rparr>) \<Longrightarrow> htab_all (\<lambda>_ v. role_ok (cv_role v)) h \<Longrightarrow> ht_max h = 10000000 \<Longrightarrow>
   link_inv (s\<lparr>conn_ctx_map := h, link_events := rb\<rparr>)"
  by (simp add: link_inv_def)

lemma link_inv_decide:
  assumes "link_inv s" and "(loc, r) \<in> {(4, LINK_ROLE_CLIENT), (5, LINK_ROLE_CLIENT), (6, LINK_ROLE_SERVER)}"
  shows "link_inv (set_state_decide e sk info loc r s)"
  unfolding set_state_decide_def
proof (intro link_inv_tracing_events link_inv_event link_event_of_ok assms(1))
  show "htab_all (\<lambda>_. role_ok) (snd (htab_update (conn_tracing_map s) sk (role_num r) BPF_ANY))"
    "ht_max (snd (htab_update (conn_tracing_map s) sk (role_num r) BPF_ANY)) = 10000000"
    using assms(1) by (auto simp: link_inv_def simp del: role_num.simps)
qed (use assms(2) in \<open>auto simp del: role_num.simps\<close>)

lemma link_inv_other:
  assumes "link_inv s" shows "link_inv (set_state_other e sk info s)"
proof (cases "htab_lookup (conn_tracing_map s) sk")
  case (Some v)
  then have v: "role_ok v" using assms by (auto simp: link_inv_def dest: htab_all_lookup)
  show ?thesis
    using assms v unfolding set_state_other_def Some
    by (simp, intro link_inv_ctx_events link_inv_event link_event_of_ok) (auto simp: link_inv_def)
qed (simp add: set_state_other_def assms)

lemma link_inv_set_state: "link_inv s \<Longrightarrow> link_inv (k_set_state e sk new s)"
proof -
  assume s: "link_inv s"
  have "link_inv (set_state_branch e sk (skc_state (en_sk e sk)) new (set_state_insert e sk s))"
    unfolding set_state_branch_def Let_def
    using link_inv_decide [OF link_inv_set_state_insert [OF s]] link_inv_other [OF link_inv_set_state_insert [OF s]]
    by (simp del: role_num.simps)
  then show ?thesis
    unfolding k_set_state_def Let_def
    by (split if_split) (intro conjI impI link_inv_drop_tracing)
qed

lemma link_inv_close: "link_inv s \<Longrightarrow> link_inv (fexit_tcp_close e regs retval s)"
  by (auto simp: fexit_tcp_close_def Let_def link_inv_def)

lemma link_inv_run: "link_inv s \<Longrightarrow> link_inv (link_run e c s)"
  by (cases c)
    (simp_all add: link_inv_connect_file link_inv_connect_exit link_inv_set_state link_inv_close,
     simp_all add: link_defs fexit_do_accept_def
       link_inv_intros case_prod_beta Let_def split: option.split)

lemma link_inv_init: "link_inv link_init"
  by (simp add: link_inv_def link_init_def) (simp add: htab_empty_def)

interpretation link: event_system link_run link_inv
  by unfold_locales (rule link_inv_run)

end
