(* ===== verification/Tcp_Link_Claims.thy ===== *)
theory Tcp_Link_Claims
  imports Tcp_Link_Run
begin

text \<open>
  The properties of the connection tracer, with the lemmas that describe the maps
  after a state change and the concrete runs that exercise them.
\<close>

section \<open>Maps after a state change\<close>

definition frames_fixed :: "bytemem \<Rightarrow> bool" where
  "frames_fixed m \<longleftrightarrow> m 0 = None \<and> m minus_EFAULT = None"

lemma get_stack_id_frames: "frames_fixed m \<Longrightarrow> get_stack_id m fp = minus_EFAULT"
  by (simp only: frames_fixed_def get_stack_id_fixed)

lemma find_fd_info_frames:
  assumes "frames_fixed m"
  shows "find_fd_info m h fp = (if htab_lookup h minus_EFAULT \<noteq> None then Some minus_EFAULT else None)"
proof -
  have rc: "probe_read m 8 minus_EFAULT = (- EFAULT, replicate 8 0)"
    using assms by (intro probe_read_fault) (simp_all add: frames_fixed_def)
  have loop: "find_fd_loop m h (Suc n) minus_EFAULT =
      (if htab_lookup h minus_EFAULT \<noteq> None then Some minus_EFAULT else None)" for n
  proof (induction n)
    case (Suc n)
    then show ?case by (simp only: find_fd_loop.simps(2) [of m h "Suc n"] rc fst_conv) simp
  qed (simp only: find_fd_loop.simps)
  show ?thesis
    using loop [of "Suc (Suc 0)"]
    by (simp only: find_fd_info_def get_stack_id_frames [OF assms] numeral_3_eq_3)
qed

lemma htab_update_any_present:
  "htab_lookup h k = Some w \<Longrightarrow> htab_lookup (snd (htab_update h k v BPF_ANY)) = (htab_lookup h)(k \<mapsto> v)"
  using htab.update_present [of h k w v] by (auto simp: fun_eq_iff)

lemma htab_update_noexist_lookup:
  assumes "length (ht_elems h) < ht_max h"
  shows "htab_lookup (snd (htab_update h k v BPF_NOEXIST)) =
    (if htab_lookup h k = None then (htab_lookup h)(k \<mapsto> v) else htab_lookup h)"
  using assms by (auto simp: htab_update_def htab_lookup_def map_of_update split: option.split)

lemma set_state_insert_tracing:
  assumes "length (ht_elems (conn_tracing_map s)) < ht_max (conn_tracing_map s)"
  shows "htab_lookup (conn_tracing_map (set_state_insert e sk s)) =
    (htab_lookup (conn_tracing_map s))
      (sk \<mapsto> case htab_lookup (conn_tracing_map s) sk of None \<Rightarrow> role_num LINK_ROLE_UNKNOWN | Some v \<Rightarrow> v)"
  by (auto simp: set_state_insert_def htab_update_noexist_lookup [OF assms] fun_eq_iff split: option.split)

lemma set_state_branch_tracing:
  assumes "htab_lookup (conn_tracing_map s) sk = Some v"
  shows "htab_lookup (conn_tracing_map (set_state_branch e sk old new s)) =
    (htab_lookup (conn_tracing_map s))
      (sk \<mapsto> case set_state_role (ucast old) new None of None \<Rightarrow> v | Some (loc, r) \<Rightarrow> r)"
proof -
  have [simp]: "htab_lookup (conn_tracing_map (set_state_decide e sk info loc r s)) =
      (htab_lookup (conn_tracing_map s))(sk \<mapsto> role_num r)" for info loc r
    using htab_update_any_present [OF assms] by (simp add: set_state_decide_def del: htab_simps)
  have [simp]: "htab_lookup (conn_tracing_map (set_state_other e sk info s)) =
      (htab_lookup (conn_tracing_map s))(sk \<mapsto> v)" for info
    using assms by (auto simp: set_state_other_def Let_def fun_eq_iff)
  have "htab_lookup (conn_tracing_map
       (if c1 then set_state_decide e sk info 4 LINK_ROLE_CLIENT s
        else if c2 then set_state_decide e sk info 5 LINK_ROLE_CLIENT s
        else if c3 then set_state_decide e sk info 6 LINK_ROLE_SERVER s
        else set_state_other e sk info s)) =
     (htab_lookup (conn_tracing_map s))
      (sk \<mapsto> case (if c1 then Some (4 :: u32, role_num LINK_ROLE_CLIENT)
        else if c2 then Some (5, role_num LINK_ROLE_CLIENT)
        else if c3 then Some (6, role_num LINK_ROLE_SERVER)
        else map_option (\<lambda>v. (7, ucast (ucast v :: u8))) None) of None \<Rightarrow> v | Some (loc, r) \<Rightarrow> r)"
    for c1 c2 c3 info
    by (cases c1; cases c2; cases c3) simp_all
  then show ?thesis
    unfolding set_state_branch_def set_state_role.simps Let_def .
qed

lemma k_set_state_tracing:
  assumes "length (ht_elems (conn_tracing_map s)) < ht_max (conn_tracing_map s)"
  shows "htab_lookup (conn_tracing_map (k_set_state e sk new s)) =
    (htab_lookup (conn_tracing_map s))
      (sk := if new = TCP_CLOSE then None
             else Some (case set_state_role (ucast (skc_state (en_sk e sk))) new None of
                          Some (loc, r) \<Rightarrow> r
                        | None \<Rightarrow> (case htab_lookup (conn_tracing_map s) sk of
                                    None \<Rightarrow> role_num LINK_ROLE_UNKNOWN | Some v \<Rightarrow> v)))"
proof -
  let ?s1 = "set_state_insert e sk s"
  let ?v = "case htab_lookup (conn_tracing_map s) sk of None \<Rightarrow> role_num LINK_ROLE_UNKNOWN | Some v \<Rightarrow> v"
  note ins = set_state_insert_tracing [OF assms, of e sk]
  then have "htab_lookup (conn_tracing_map ?s1) sk = Some ?v" by simp
  note br = set_state_branch_tracing [OF this, of e "skc_state (en_sk e sk)" new, unfolded ins]
  show ?thesis
  proof (cases "new = TCP_CLOSE")
    case True
    show ?thesis using br unfolding True by (simp add: fun_eq_iff k_set_state_def Let_def)
  next
    case False
    then show ?thesis by (simp add: k_set_state_def Let_def br option.case_eq_if)
  qed
qed

section \<open>The invariant, used\<close>

lemma link_inv_holds:
  assumes "link_reachable s" shows "link_inv s"
  using assms
proof (induction rule: link_reachable.induct)
  case (drain s n)
  then show ?case by (simp add: link_inv_def)
qed (simp_all add: link_inv_init link_inv_run)

lemma length_le_2:
  assumes "distinct ks" "set ks \<subseteq> {a, b}" shows "length ks \<le> 2"
proof -
  have "length ks = card (set ks)" using assms(1) by (simp add: distinct_card)
  also have "\<dots> \<le> card {a, b}" using assms(2) by (intro card_mono) auto
  also have "\<dots> \<le> 2" by (simp add: card_insert_if)
  finally show ?thesis .
qed

lemma fd_info_inv_small:
  assumes "link_inv s"
  shows "length (ht_elems (fd_info_map s)) \<le> 2" "ht_max (fd_info_map s) = 1024"
proof -
  have inv: "htab_all (\<lambda>k _. fd_key k) (fd_info_map s)" and "ht_max (fd_info_map s) = 1024"
    using assms by (simp_all add: link_inv_def)
  then show "ht_max (fd_info_map s) = 1024" by simp
  have "set (map fst (ht_elems (fd_info_map s))) \<subseteq> {0, minus_EFAULT}"
    using inv by (auto simp: htab_all_def htab_lookup_def fd_key_def simp del: of_int_minus
        dest!: weak_map_of_SomeI)
  moreover have "distinct (map fst (ht_elems (fd_info_map s)))"
    using inv by (simp add: htab_all_def htab_inv_def)
  ultimately show "length (ht_elems (fd_info_map s)) \<le> 2"
    using length_le_2 [of "map fst (ht_elems (fd_info_map s))"] by simp
qed

lemmas fd_info_small = fd_info_inv_small [OF link_inv_holds]

lemma k_set_state_out:
  assumes "link_inv s"
    and "length (ht_elems (conn_tracing_map s)) < ht_max (conn_tracing_map s)"
  shows "rb_out (link_events (k_set_state e sk new s)) = rb_out (link_events s) @
    (if link_event_size \<le> rb_avail (link_events s) \<and> conn_reportable (en_sk e sk)
     then (let old = skc_state (en_sk e sk);
               (loc, r) = (if ucast old = TCP_CLOSE \<and> new = TCP_SYN_SENT then (4, 1)
                 else if ucast old = TCP_SYN_SENT \<and> new = TCP_ESTABLISHED then (5, 1)
                 else if ucast old = TCP_SYN_RECV \<and> new = TCP_ESTABLISHED then (6, 2)
                 else (7, case htab_lookup (conn_tracing_map s) sk of None \<Rightarrow> 0 | Some v \<Rightarrow> v))
           in [link_event_of e 1 sk
                 \<lparr>st_old_state = old, st_new_state = ucast new, st_loc = loc, st_role = r\<rparr>])
     else [])"
proof -
  have inv: "htab_all (\<lambda>_. role_ok) (conn_tracing_map s)"
    using assms(1) by (simp add: link_inv_def)
  let ?v = "case htab_lookup (conn_tracing_map s) sk of None \<Rightarrow> 0 | Some v \<Rightarrow> v"
  have v: "(ucast (ucast ?v :: u8) :: u32) = ?v"
    using inv by (intro role_byte) (auto simp: role_ok_iff dest: htab_all_lookup split: option.split)
  have seen: "seen_role s sk = Some ?v"
    using inv assms(2) by (intro seen_role_room) (simp_all add: htab_all_def)
  have "rb_out (case (if c1 then Some (4, role_num LINK_ROLE_CLIENT)
             else if c2 then Some (5, role_num LINK_ROLE_CLIENT)
             else if c3 then Some (6, role_num LINK_ROLE_SERVER) else Some (7, ?v)) of
        None \<Rightarrow> link_events s
      | Some (loc, r) \<Rightarrow> handle_new_connection e 1 sk
          \<lparr>st_old_state = skc_state (en_sk e sk), st_new_state = ucast new, st_loc = loc, st_role = r\<rparr>
          (link_events s)) = rb_out (link_events s) @
      (if link_event_size \<le> rb_avail (link_events s) \<and> conn_reportable (en_sk e sk)
       then (case (if c1 then (4, 1) else if c2 then (5, 1) else if c3 then (6, 2) else (7, ?v)) of
               (loc, r) \<Rightarrow> [link_event_of e 1 sk \<lparr>st_old_state = skc_state (en_sk e sk),
                  st_new_state = ucast new, st_loc = loc, st_role = r\<rparr>])
       else [])" for c1 c2 c3
    by (cases c1; cases c2; cases c3) simp_all
  then show ?thesis
    unfolding k_set_state_events seen set_state_role.simps option.map v Let_def .
qed

lemma k_set_state_out_all:
  assumes "link_inv s"
  shows "rb_out (link_events (k_set_state e sk new s)) = rb_out (link_events s) @
    (let old = skc_state (en_sk e sk);
         recorded = (case htab_lookup (conn_tracing_map s) sk of
             Some v \<Rightarrow> Some v
           | None \<Rightarrow> if length (ht_elems (conn_tracing_map s)) < ht_max (conn_tracing_map s) then Some 0 else None);
         report = (if ucast old = TCP_CLOSE \<and> new = TCP_SYN_SENT then Some (4, 1)
           else if ucast old = TCP_SYN_SENT \<and> new = TCP_ESTABLISHED then Some (5, 1)
           else if ucast old = TCP_SYN_RECV \<and> new = TCP_ESTABLISHED then Some (6, 2)
           else map_option (Pair 7) recorded)
     in case report of
          None \<Rightarrow> []
        | Some (loc, r) \<Rightarrow>
            if link_event_size \<le> rb_avail (link_events s) \<and> conn_reportable (en_sk e sk)
            then [link_event_of e 1 sk
                    \<lparr>st_old_state = old, st_new_state = ucast new, st_loc = loc, st_role = r\<rparr>]
            else [])"
proof -
  have inv: "htab_all (\<lambda>_. role_ok) (conn_tracing_map s)"
    using assms(1) by (simp add: link_inv_def)
  define recorded where "recorded = (case htab_lookup (conn_tracing_map s) sk of
      Some v \<Rightarrow> Some v
    | None \<Rightarrow> if length (ht_elems (conn_tracing_map s)) < ht_max (conn_tracing_map s) then Some (0 :: u32) else None)"
  have seen: "seen_role s sk = recorded" by (simp add: seen_role_cases recorded_def)
  have v: "map_option (\<lambda>v. (7 :: u32, ucast (ucast v :: u8) :: u32)) recorded = map_option (Pair 7) recorded"
    using inv role_byte
    by (auto simp: recorded_def role_ok_iff dest: htab_all_lookup split: option.split)
  have "rb_out (case (if c1 then Some (4, role_num LINK_ROLE_CLIENT)
             else if c2 then Some (5, role_num LINK_ROLE_CLIENT)
             else if c3 then Some (6, role_num LINK_ROLE_SERVER) else map_option (Pair 7) recorded) of
        None \<Rightarrow> link_events s
      | Some (loc, r) \<Rightarrow> handle_new_connection e 1 sk
          \<lparr>st_old_state = skc_state (en_sk e sk), st_new_state = ucast new, st_loc = loc, st_role = r\<rparr>
          (link_events s)) = rb_out (link_events s) @
      (case (if c1 then Some (4, 1) else if c2 then Some (5, 1) else if c3 then Some (6, 2)
             else map_option (Pair 7) recorded) of
         None \<Rightarrow> []
       | Some (loc, r) \<Rightarrow>
           if link_event_size \<le> rb_avail (link_events s) \<and> conn_reportable (en_sk e sk)
           then [link_event_of e 1 sk \<lparr>st_old_state = skc_state (en_sk e sk), st_new_state = ucast new,
                   st_loc = loc, st_role = r\<rparr>]
           else [])" for c1 c2 c3
    by (cases c1; cases c2; cases c3; cases recorded) simp_all
  then show ?thesis
    unfolding k_set_state_events seen set_state_role.simps v Let_def recorded_def [symmetric] .
qed

section \<open>Properties\<close>

text \<open>C1: In every reachable state the three maps have no duplicate keys and stay within their
  capacity, only the three roles are ever stored, no ring buffer reservation is left open, and
  every submitted event names an IPv4 or IPv6 TCP, UDP or ICMP socket, with non-zero addresses
  if it is IPv4, and carries the role its location stands for.\<close>

theorem link_reachable_inv:
  assumes "link_reachable s"
  shows "htab_inv (conn_tracing_map s) \<and> htab_inv (conn_ctx_map s) \<and> htab_inv (fd_info_map s) \<and>
    (\<forall>sk r. htab_lookup (conn_tracing_map s) sk = Some r \<longrightarrow> r \<in> range role_num) \<and>
    (\<forall>key v. htab_lookup (conn_ctx_map s) key = Some v \<longrightarrow> cv_role v \<in> range role_num) \<and>
    rb_pending (link_events s) = 0 \<and>
    (\<forall>ev \<in> set (rb_out (link_events s)). link_event_ok ev)"
  using link_inv_holds [OF assms] by (auto simp: link_inv_def htab_all_def role_ok_def)

text \<open>A concrete run: an IPv4 TCP socket at address 100 whose state is \<open>st\<close>.\<close>

definition demo_env :: "u8 \<Rightarrow> link_env" where
  "demo_env st =
     \<lparr>en_ctx = \<lparr>cur_tgid = 7, cur_pid = 8, cur_comm = [], cur_cpu = 0, ktime = of_nat\<rparr>,
      en_kernel = no_kernel\<lparr>k_sock := [100 \<mapsto> zero_sock\<lparr>skc_family := 2, skc_state := st, sk_protocol := 6,
        skc_rcv_saddr := 1, skc_daddr := 2\<rparr>]\<rparr>,
      en_stack = \<lparr>ck_src_port = 0, ck_dest_port = 0, ck_src_ip = 0, ck_dest_ip = 0,
        ck_src_ip6 = (0, 0, 0, 0), ck_dest_ip6 = (0, 0, 0, 0), ck_family = 0, ck_pad = [0, 0, 0]\<rparr>,
      en_fp = 4096\<rparr>"

lemma demo_sk: "en_sk (demo_env st) 100 =
    zero_sock\<lparr>skc_family := 2, skc_state := st, sk_protocol := 6, skc_rcv_saddr := 1, skc_daddr := 2\<rparr>"
  by (simp add: demo_env_def)

lemma demo_reportable: "conn_reportable (en_sk (demo_env st) 100)"
  by (simp only: demo_sk) (simp add: conn_reportable_def c_consts)

lemma link_init_room:
  "length (ht_elems (conn_tracing_map link_init)) < ht_max (conn_tracing_map link_init)"
  by (simp add: link_init_def htab_empty_def)

theorem link_reachable_inv_witness:
  "rb_pending (link_events (link_run (demo_env 3) (Set_State 100 1) link_init)) = 0"
  using link_reachable_inv [OF link_reachable.run [OF link_reachable.start, of "demo_env 3" "Set_State 100 1"]]
  by blast

text \<open>C2: What a state change reports, in every reachable state. The three transitions that decide the
  role report their location and role; every other one reports location 7 and the role recorded
  for the socket, unknown if it was not recorded and \<^verbatim>\<open>conn_tracing_map\<close> has room for it, and reports
  nothing if it was not recorded and the map is full. The report is exactly one event with the old
  and the new state when the ring buffer has room for it and the socket is reportable, and no event
  otherwise.\<close>

theorem k_set_state_report:
  assumes "link_reachable s"
  shows "rb_out (link_events (k_set_state e sk new s)) = rb_out (link_events s) @
    (let old = skc_state (en_sk e sk);
         recorded = (case htab_lookup (conn_tracing_map s) sk of
             Some v \<Rightarrow> Some v
           | None \<Rightarrow> if length (ht_elems (conn_tracing_map s)) < ht_max (conn_tracing_map s) then Some 0 else None);
         report = (if ucast old = TCP_CLOSE \<and> new = TCP_SYN_SENT then Some (4, 1)
           else if ucast old = TCP_SYN_SENT \<and> new = TCP_ESTABLISHED then Some (5, 1)
           else if ucast old = TCP_SYN_RECV \<and> new = TCP_ESTABLISHED then Some (6, 2)
           else map_option (Pair 7) recorded)
     in case report of
          None \<Rightarrow> []
        | Some (loc, r) \<Rightarrow>
            if link_event_size \<le> rb_avail (link_events s) \<and> conn_reportable (en_sk e sk)
            then [link_event_of e 1 sk
                    \<lparr>st_old_state = old, st_new_state = ucast new, st_loc = loc, st_role = r\<rparr>]
            else [])"
  by (rule k_set_state_out_all [OF link_inv_holds [OF assms]])

theorem k_set_state_report_witness:
  "map (\<lambda>ev. (ci_loc (le_conn_info ev), ci_role (le_conn_info ev), ci_old_state (le_conn_info ev),
       ci_new_state (le_conn_info ev)))
     (rb_out (link_events (k_set_state (demo_env 3) 100 1 link_init))) = [(6, 2, 3, 1)]"
proof -
  have "link_event_size \<le> rb_avail (link_events link_init)" "rb_out (link_events link_init) = []"
    by (simp_all add: link_event_size_def link_init_def)
  with k_set_state_report [OF link_reachable.start, of "demo_env 3" 100 1]
  show ?thesis
    by (simp only: demo_reportable [unfolded demo_sk] demo_sk)
      (simp add: c_consts link_event_of_def set_conn_info_states)
qed

text \<open>After a state change the socket is no longer recorded if the new state is closed; otherwise
  it is recorded as client or server by the transitions that decide it, and keeps the role it had
  (unknown if it had none) on every other one. The record of every other socket is unchanged.\<close>

theorem k_set_state_records_role:
  assumes "length (ht_elems (conn_tracing_map s)) < ht_max (conn_tracing_map s)"
  shows "htab_lookup (conn_tracing_map (k_set_state e sk new s)) sk' =
    (let old = ucast (skc_state (en_sk e sk))
     in if sk' \<noteq> sk then htab_lookup (conn_tracing_map s) sk'
        else if new = TCP_CLOSE then None
        else if old = TCP_CLOSE \<and> new = TCP_SYN_SENT \<or> old = TCP_SYN_SENT \<and> new = TCP_ESTABLISHED
          then Some (role_num LINK_ROLE_CLIENT)
        else if old = TCP_SYN_RECV \<and> new = TCP_ESTABLISHED then Some (role_num LINK_ROLE_SERVER)
        else (case htab_lookup (conn_tracing_map s) sk of
                None \<Rightarrow> Some (role_num LINK_ROLE_UNKNOWN) | Some v \<Rightarrow> Some v))"
proof -
  have "(case (if c1 then Some (4 :: u32, role_num LINK_ROLE_CLIENT)
        else if c2 then Some (5, role_num LINK_ROLE_CLIENT)
        else if c3 then Some (6, role_num LINK_ROLE_SERVER)
        else map_option (\<lambda>v. (7, ucast (ucast v :: u8))) None) of Some (loc, r) \<Rightarrow> r | None \<Rightarrow> d) =
      (if c1 \<or> c2 then role_num LINK_ROLE_CLIENT else if c3 then role_num LINK_ROLE_SERVER else d)"
    for c1 c2 c3 d
    by (cases c1; cases c2; cases c3) simp_all
  note roles = this
  show ?thesis
    unfolding k_set_state_tracing [OF assms] set_state_role.simps roles
    by (cases "sk' = sk"; cases "htab_lookup (conn_tracing_map s) sk")
      (simp_all only: fun_upd_apply if_True if_False simp_thms option.case Let_def
        if_distrib [of Some] refl)
qed

theorem k_set_state_records_role_witness:
  "htab_lookup (conn_tracing_map (k_set_state (demo_env 3) 100 1 link_init)) 100 = Some 2"
  using k_set_state_records_role [OF link_init_room, of "demo_env 3" 100 1 100]
  by (simp only: demo_sk) (simp add: c_consts)

lemma htab_delete_elems: "snd (htab_delete h k) = h\<lparr>ht_elems := AList.delete k (ht_elems h)\<rparr>"
proof (cases "htab_lookup h k")
  case None
  then have "AList.delete k (ht_elems h) = ht_elems h"
    by (intro AList.delete_id) (simp add: htab_lookup_def map_of_eq_None_iff)
  with None show ?thesis by (simp add: htab_delete_def)
qed (simp add: htab_delete_def)

lemma htab_delete_commute:
  "snd (htab_delete (snd (htab_delete h a)) b) = snd (htab_delete (snd (htab_delete h b)) a)"
  by (simp add: htab_delete_elems AList.delete_eq conj_commute)

lemma destroy_hooks:
  assumes "sk \<noteq> NULL" "D \<in> {k_tcp_v4_destroy_sock, rtp_tcp_destroy_sock, tp_destroy_sock_func}"
  shows "D e sk s = s\<lparr>conn_tracing_map := snd (htab_delete (conn_tracing_map s) sk),
     conn_ctx_map := snd (htab_delete (conn_ctx_map s) (en_key e sk))\<rparr>"
  using assms
  by (auto simp: k_tcp_v4_destroy_sock_def rtp_tcp_destroy_sock_def tp_destroy_sock_func_def Let_def)

text \<open>C14: What a hook on the destruction of a socket removes, for a socket that is not \<^verbatim>\<open>NULL\<close> and each of
  the three programs: the record of the socket, and the entry of its connection at the key this run
  builds, from the socket and from what its own stack holds. All other entries of both maps, the
  descriptors and the events are as before. Two of the programs, in runs with different stacks,
  processors and times, do the same in either order. For \<^verbatim>\<open>NULL\<close> the two tracepoints do nothing.\<close>

theorem destroy_sock_forgets:
  assumes "sk \<noteq> NULL" "D1 \<in> {k_tcp_v4_destroy_sock, rtp_tcp_destroy_sock, tp_destroy_sock_func}"
    and "D2 \<in> {k_tcp_v4_destroy_sock, rtp_tcp_destroy_sock, tp_destroy_sock_func}"
  shows "htab_lookup (conn_tracing_map (D1 e1 sk s)) = (htab_lookup (conn_tracing_map s))(sk := None) \<and>
    htab_lookup (conn_ctx_map (D1 e1 sk s)) =
      (htab_lookup (conn_ctx_map s))(get_conn_key (en_kernel e1) (en_stack e1) sk := None) \<and>
    fd_info_map (D1 e1 sk s) = fd_info_map s \<and> link_events (D1 e1 sk s) = link_events s \<and>
    D2 e2 sk (D1 e1 sk s) = D1 e1 sk (D2 e2 sk s) \<and>
    htab_lookup (conn_ctx_map (D2 e2 sk (D1 e1 sk s))) =
      (htab_lookup (conn_ctx_map s))
        (get_conn_key (en_kernel e1) (en_stack e1) sk := None,
         get_conn_key (en_kernel e2) (en_stack e2) sk := None) \<and>
    rtp_tcp_destroy_sock e1 NULL s = s \<and> tp_destroy_sock_func e1 NULL s = s"
  unfolding destroy_hooks [OF assms(1,2)] destroy_hooks [OF assms(1,3)]
  using htab_delete_commute [of "conn_tracing_map s" sk sk]
    htab_delete_commute [of "conn_ctx_map s" "en_key e1 sk" "en_key e2 sk"]
  by (simp add: rtp_tcp_destroy_sock_def tp_destroy_sock_func_def fun_eq_iff)

theorem destroy_sock_forgets_witness:
  "htab_lookup (conn_tracing_map (rtp_tcp_destroy_sock (demo_env 1) 100
     (k_set_state (demo_env 3) 100 1 link_init))) 100 = None"
  using destroy_sock_forgets [of 100 rtp_tcp_destroy_sock k_tcp_v4_destroy_sock "demo_env 1"
      "k_set_state (demo_env 3) 100 1 link_init"]
  by simp

text \<open>The key that stands for the frame of the traced call never depends on the frame: it is 0 or
  -EFAULT, the return code of the second read. With the first and the last page unmapped it is
  -EFAULT for every frame, the descriptor map never holds more than two entries, and starting a
  connect or an accept therefore always succeeds in recording its entry.\<close>

theorem stack_id_not_the_frame:
  assumes "link_reachable s"
  shows "get_stack_id m fp \<in> {0, word_of_int (- EFAULT)} \<and>
    (m 0 = None \<and> m (word_of_int (- EFAULT)) = None \<longrightarrow>
       get_stack_id m fp = get_stack_id m fp') \<and>
    length (ht_elems (fd_info_map s)) \<le> 2 \<and>
    htab_lookup (fd_info_map (fentry___sys_connect e s))
      (get_stack_id (k_mem (en_kernel e)) (en_fp e)) = Some zero_fd_info"
proof -
  have room: "length (ht_elems (fd_info_map s)) < ht_max (fd_info_map s)"
    using fd_info_small [OF assms] by simp
  have "m 0 = None \<and> m minus_EFAULT = None \<longrightarrow> get_stack_id m fp = get_stack_id m fp'"
    using get_stack_id_fixed [of m fp] get_stack_id_fixed [of m fp'] by auto
  then show ?thesis
    using get_stack_id_cases [of m fp] fd_info_small [OF assms] htab_update_room [OF room]
    by (simp add: fentry___sys_connect_def)
qed

theorem stack_id_not_the_frame_witness:
  "length (ht_elems (fd_info_map (link_run (demo_env 3) Sys_Connect link_init))) \<le> 2"
  using stack_id_not_the_frame [OF link_reachable.run [OF link_reachable.start, of "demo_env 3" Sys_Connect]]
  by blast

text \<open>C40: In the runs of two connect calls let the bytes at address 0 and at address \<open>-EFAULT\<close> be unreadable,
  as they are when the first and the last page are unmapped. Then, from any reachable state, the calls
  share one entry of the descriptor map, whatever their frames: if they overlap, the return of the
  first one marks the socket of the file that the second call stored, and the return of the second one
  finds no entry and changes nothing at all.\<close>

theorem overlapping_connects_share_entry:
  assumes "link_reachable s" "frames_fixed (k_mem (en_kernel e1))" "frames_fixed (k_mem (en_kernel e2))"
    and "s2 = fentry___sys_connect_file e1 f1 (fentry___sys_connect e1 s)"
    and "s4 = fentry___sys_connect_file e2 f2 (fentry___sys_connect e2 s2)"
  shows "fexit___sys_connect e1 s4 =
      mark_sock e1 (sock_from_file (en_kernel e1) f2) LINK_ROLE_CLIENT
        (s4\<lparr>fd_info_map := snd (htab_pop (fd_info_map s4) minus_EFAULT)\<rparr>) \<and>
    fexit___sys_connect e2 (fexit___sys_connect e1 s4) = fexit___sys_connect e1 s4"
proof -
  note id = get_stack_id_frames [OF assms(2)] get_stack_id_frames [OF assms(3)]
  have "link_reachable s2"
    using assms(1) link_reachable.run [of _ e1 Sys_Connect] link_reachable.run [of _ e1 "Sys_Connect_File f1"]
    by (simp add: assms(4))
  then have room: "length (ht_elems (fd_info_map s2)) < ht_max (fd_info_map s2)"
    using fd_info_small [of s2] by simp
  define s3 where "s3 = fentry___sys_connect e2 s2"
  have s3: "htab_lookup (fd_info_map s3) minus_EFAULT = Some zero_fd_info"
    using htab_update_room [OF room] by (simp add: s3_def fentry___sys_connect_def id)
  then have s4: "\<exists>fd. htab_lookup (fd_info_map s4) minus_EFAULT = Some fd \<and> fd_file fd = f2"
    unfolding assms(5) s3_def [symmetric]
    by (simp add: fentry___sys_connect_file_def find_fd_info_frames [OF assms(3)] Let_def mark_ctx_def
        htab_poke_lookup)
  then obtain fd where fd: "htab_lookup (fd_info_map s4) minus_EFAULT = Some fd" "fd_file fd = f2" by blast
  have one: "fexit___sys_connect e1 s4 =
      mark_sock e1 (sock_from_file (en_kernel e1) f2) LINK_ROLE_CLIENT
        (s4\<lparr>fd_info_map := snd (htab_pop (fd_info_map s4) minus_EFAULT)\<rparr>)"
    using fd by (simp add: fexit___sys_connect_def id case_prod_beta)
  define s5 where "s5 = fexit___sys_connect e1 s4"
  have "htab_lookup (fd_info_map s5) minus_EFAULT = None"
    by (simp add: s5_def one mark_sock_def mark_ctx_def)
  then have "htab_pop (fd_info_map s5) minus_EFAULT = (None, fd_info_map s5)"
    by (simp add: map_lookup_and_delete_def)
  then have "fexit___sys_connect e2 s5 = s5"
    by (simp add: fexit___sys_connect_def [of e2] id)
  with one show ?thesis unfolding s5_def by blast
qed

theorem overlapping_connects_share_entry_witness:
  "let e1 = demo_env 7; e2 = (demo_env 7)\<lparr>en_fp := 8192\<rparr>;
       s2 = fentry___sys_connect_file e1 1000 (fentry___sys_connect e1 link_init);
       s4 = fentry___sys_connect_file e2 2000 (fentry___sys_connect e2 s2)
   in fexit___sys_connect e2 (fexit___sys_connect e1 s4) = fexit___sys_connect e1 s4"
proof -
  have "frames_fixed (k_mem (en_kernel (demo_env 7)))"
    by (simp add: frames_fixed_def demo_env_def no_kernel_def)
  then show ?thesis
    unfolding Let_def
    by (intro overlapping_connects_share_entry [OF link_reachable.start _ _ refl refl, THEN conjunct2])
      simp_all
qed

text \<open>The three transitions that decide the role record it for the socket and report it, but not for
  the connection: if the connection was not known, its entry is left with the role unknown.\<close>

theorem decided_role_not_in_ctx:
  assumes "length (ht_elems (conn_ctx_map s)) < ht_max (conn_ctx_map s)"
    and "htab_lookup (conn_ctx_map s) (get_conn_key (en_kernel e) (en_stack e) sk) = None"
    and "skc_state (en_sk e sk) = 2 \<or> skc_state (en_sk e sk) = 3"
  shows "map_option cv_role (htab_lookup (conn_ctx_map (k_set_state e sk TCP_ESTABLISHED s))
      (get_conn_key (en_kernel e) (en_stack e) sk)) = Some (role_num LINK_ROLE_UNKNOWN)"
proof -
  have ins: "htab_lookup (conn_ctx_map (set_state_insert e sk s)) (en_key e sk) =
      Some (conn_val e 0 (role_num LINK_ROLE_UNKNOWN))"
    using assms(1,2) by (simp add: set_state_insert_def htab_update_noexist_lookup del: htab_simps)
  have ne: "TCP_ESTABLISHED \<noteq> TCP_SYN_SENT" "TCP_ESTABLISHED \<noteq> TCP_CLOSE"
    by (simp_all add: c_consts)
  have "conn_ctx_map (set_state_branch e sk (skc_state (en_sk e sk)) TCP_ESTABLISHED (set_state_insert e sk s))
      = conn_ctx_map (set_state_insert e sk s)"
    using assms(3) ne by (auto simp: set_state_branch_def set_state_decide_def Let_def TCP_SYN_SENT_def TCP_SYN_RECV_def)
  then show ?thesis
    using ne ins by (simp add: k_set_state_def Let_def conn_val_def)
qed

theorem decided_role_not_in_ctx_witness:
  "map_option cv_role (htab_lookup (conn_ctx_map (k_set_state (demo_env 3) 100 1 link_init))
      (get_conn_key (en_kernel (demo_env 3)) (en_stack (demo_env 3)) 100)) = Some 0"
  using decided_role_not_in_ctx [of link_init "demo_env 3" 100]
  by (simp only: demo_sk) (simp add: link_init_def TCP_ESTABLISHED_def, simp add: htab_empty_def)

end
