(* ===== verification/Link_Table.thy ===== *)
theory Link_Table
  imports Tcp_Link_Claims
begin

text \<open>
  The connection tracer as a table: what its maps mean, without identifiers, capacities, frames
  or helper calls. While the maps have room and the first and last pages are unmapped, every handler
  refines one operation on the table; the map of calls in progress is then a single cell.
\<close>

section \<open>The table\<close>

record link_table =
  lt_roles :: "ptr \<rightharpoonup> u32"
  lt_conns :: "trace_conn_key \<rightharpoonup> u32"
  lt_call :: "tcp_fd_info option"
  lt_sent :: "link_event list"

definition link_abs :: "link_state \<Rightarrow> link_table" where
  "link_abs s =
     \<lparr>lt_roles = htab_lookup (conn_tracing_map s),
      lt_conns = (\<lambda>k. map_option cv_role (htab_lookup (conn_ctx_map s) k)),
      lt_call = htab_lookup (fd_info_map s) minus_EFAULT,
      lt_sent = rb_out (link_events s)\<rparr>"

text \<open>The first mark wins.\<close>

definition mark :: "('k \<rightharpoonup> 'v) \<Rightarrow> 'k \<Rightarrow> 'v \<Rightarrow> ('k \<rightharpoonup> 'v)" where
  "mark m k v = (if m k = None then m(k \<mapsto> v) else m)"

definition table_mark :: "link_env \<Rightarrow> ptr \<Rightarrow> link_role \<Rightarrow> link_table \<Rightarrow> link_table" where
  "table_mark e sk r t =
     t\<lparr>lt_roles := mark (lt_roles t) sk (role_num r), lt_conns := mark (lt_conns t) (en_key e sk) (role_num r)\<rparr>"

definition table_forget :: "link_env \<Rightarrow> ptr \<Rightarrow> link_table \<Rightarrow> link_table" where
  "table_forget e sk t = t\<lparr>lt_roles := (lt_roles t)(sk := None), lt_conns := (lt_conns t)(en_key e sk := None)\<rparr>"

text \<open>The role a state change reports, as in \<^verbatim>\<open>k_set_state\<close>'s own three tests.\<close>

definition loc_role :: "u8 \<Rightarrow> u32 \<Rightarrow> u32 \<Rightarrow> u32 \<times> u32" where
  "loc_role old new known =
     (if ucast old = TCP_CLOSE \<and> new = TCP_SYN_SENT then (4, 1)
      else if ucast old = TCP_SYN_SENT \<and> new = TCP_ESTABLISHED then (5, 1)
      else if ucast old = TCP_SYN_RECV \<and> new = TCP_ESTABLISHED then (6, 2)
      else (7, known))"

definition table_set_state :: "link_env \<Rightarrow> ptr \<Rightarrow> u32 \<Rightarrow> link_table \<Rightarrow> link_table" where
  "table_set_state e sk new t =
     (let old = skc_state (en_sk e sk);
          known = (case lt_roles t sk of None \<Rightarrow> 0 | Some r \<Rightarrow> r);
          (loc, r) = loc_role old new known;
          event = link_event_of e 1 sk \<lparr>st_old_state = old, st_new_state = ucast new, st_loc = loc, st_role = r\<rparr>
      in t\<lparr>lt_roles := (lt_roles t)(sk := if new = TCP_CLOSE then None else Some r),
           lt_conns := (if loc = 7 then (lt_conns t)(en_key e sk \<mapsto> r) else mark (lt_conns t) (en_key e sk) 0),
           lt_sent := lt_sent t @ (if conn_reportable (en_sk e sk) then [event] else [])\<rparr>)"

fun table_run :: "link_env \<Rightarrow> link_call \<Rightarrow> link_table \<Rightarrow> link_table" where
  "table_run e Sys_Connect t = t\<lparr>lt_call := Some zero_fd_info\<rparr>"
| "table_run e (Sys_Connect_File file) t =
     (case lt_call t of
        None \<Rightarrow> t
      | Some fd \<Rightarrow>
          (let sk = sock_from_file (en_kernel e) file
           in t\<lparr>lt_call := Some (fd\<lparr>fd_file := file, fd_cur_state := skc_state (en_sk e sk)\<rparr>),
                lt_conns := mark (lt_conns t) (en_key e sk) (role_num LINK_ROLE_CLIENT)\<rparr>))"
| "table_run e Sys_Connect_Exit t =
     (case lt_call t of
        None \<Rightarrow> t
      | Some fd \<Rightarrow> table_mark e (sock_from_file (en_kernel e) (fd_file fd)) LINK_ROLE_CLIENT (t\<lparr>lt_call := None\<rparr>))"
| "table_run e Sys_Accept4 t = t\<lparr>lt_call := Some zero_fd_info\<rparr>"
| "table_run e (Do_Accept_Exit file newfile) t =
     t\<lparr>lt_call := map_option (\<lambda>fd. if IS_ERR_VALUE newfile then fd\<lparr>fd_file := file\<rparr>
        else fd\<lparr>fd_file := file, fd_new_file := newfile\<rparr>) (lt_call t)\<rparr>"
| "table_run e (Sys_Accept4_Exit newfd) t = t\<lparr>lt_call := None\<rparr>"
| "table_run e (V4_Connect sk) t = t"
| "table_run e (V4_Connect_Exit sk retval) t = (if retval = 0 then table_mark e sk LINK_ROLE_CLIENT t else t)"
| "table_run e (V6_Connect sk) t = table_mark e sk LINK_ROLE_CLIENT t"
| "table_run e (Csk_Accept sk) t = table_mark e sk LINK_ROLE_SERVER t"
| "table_run e (Set_State sk new) t = table_set_state e sk new t"
| "table_run e (V4_Destroy sk) t = table_forget e sk t"
| "table_run e (Raw_Tp_Destroy sk) t = (if sk = NULL then t else table_forget e sk t)"
| "table_run e (Tp_Destroy sk) t = (if sk = NULL then t else table_forget e sk t)"
| "table_run e (Close_Exit regs retval) t =
     (if retval = 0 then t else table_forget e (load64 (k_mem (en_kernel e)) (regs + 112)) t)"
| "table_run e Data_Queue t = t"

section \<open>Maps as partial functions\<close>

definition has_room :: "('k, 'v) htab \<Rightarrow> bool" where
  "has_room h \<longleftrightarrow> length (ht_elems h) < ht_max h"

lemma lookup_update_any: "has_room h \<Longrightarrow> htab_lookup (snd (htab_update h k v BPF_ANY)) = (htab_lookup h)(k \<mapsto> v)"
  using htab_update_room [of h k v] by (auto simp: has_room_def fun_eq_iff)

lemma lookup_update_noexist:
  "has_room h \<Longrightarrow> htab_lookup (snd (htab_update h k v BPF_NOEXIST)) = mark (htab_lookup h) k v"
  by (simp add: has_room_def htab_update_noexist_lookup mark_def del: htab_simps)

lemma lookup_try_init: "has_room h \<Longrightarrow> htab_lookup (snd (htab_try_init h k v)) = mark (htab_lookup h) k v"
  using htab_try_init_present [of h k v]
  by (cases "htab_lookup h k") (auto simp: has_room_def mark_def htab_try_init_lookup fun_eq_iff split: if_splits)

lemma mark_option_map:
  "(\<lambda>k'. map_option f (mark m k v k')) = mark (\<lambda>k'. map_option f (m k')) k (f v)"
  by (auto simp: mark_def fun_eq_iff)

lemma mark_upd: "(mark m k u)(k \<mapsto> v) = m(k \<mapsto> v)"
  by (auto simp: mark_def fun_eq_iff)

section \<open>Refinement\<close>

definition link_room :: "link_state \<Rightarrow> bool" where
  "link_room s \<longleftrightarrow> has_room (conn_tracing_map s) \<and> has_room (conn_ctx_map s) \<and> has_room (fd_info_map s) \<and>
     link_event_size \<le> rb_avail (link_events s)"

lemma abs_mark_ctx:
  "has_room (conn_ctx_map s) \<Longrightarrow>
   link_abs (mark_ctx e sk r s) = (link_abs s)\<lparr>lt_conns := mark (lt_conns (link_abs s)) (en_key e sk) (role_num r)\<rparr>"
  by (simp add: link_abs_def mark_ctx_def lookup_try_init mark_option_map del: htab_simps)

lemma abs_mark_sock:
  "link_room s \<Longrightarrow> link_abs (mark_sock e sk r s) = table_mark e sk r (link_abs s)"
  unfolding mark_sock_def
  by (subst abs_mark_ctx) (simp_all add: link_room_def link_abs_def lookup_try_init table_mark_def del: htab_simps)

text \<open>The connection map after a state change: the first three transitions leave it as the insertion
  made it, every other one stores the recorded role.\<close>

lemma decide_ctx: "conn_ctx_map (set_state_decide e sk info loc r s) = conn_ctx_map s"
  by (simp add: set_state_decide_def)

lemma insert_ctx:
  "has_room (conn_ctx_map s) \<Longrightarrow>
   (\<lambda>k. map_option cv_role (htab_lookup (conn_ctx_map (set_state_insert e sk s)) k)) =
     mark (lt_conns (link_abs s)) (en_key e sk) 0"
  by (simp add: set_state_insert_def lookup_update_noexist mark_option_map link_abs_def del: htab_simps)

lemma other_ctx:
  assumes "has_room (conn_ctx_map s)" "htab_lookup (conn_tracing_map (set_state_insert e sk s)) sk = Some v" "role_ok v"
  shows "(\<lambda>k. map_option cv_role (htab_lookup (conn_ctx_map (set_state_other e sk info (set_state_insert e sk s))) k)) =
     (lt_conns (link_abs s))(en_key e sk \<mapsto> v)"
proof -
  let ?s = "set_state_insert e sk s"
  note ins = insert_ctx [OF assms(1), of e sk]
  obtain w where "htab_lookup (conn_ctx_map ?s) (en_key e sk) = Some w"
    using fun_cong [OF ins, of "en_key e sk"]
    by (cases "lt_conns (link_abs s) (en_key e sk)") (auto simp: mark_def split: if_splits)
  then have "htab_lookup (conn_ctx_map (set_state_other e sk info ?s)) =
      (htab_lookup (conn_ctx_map ?s))(en_key e sk \<mapsto> conn_val e 0 v)"
    using assms(3) by (simp add: set_state_other_def assms(2) Let_def htab_update_any_present del: htab_simps)
  then have "(\<lambda>k. map_option cv_role (htab_lookup (conn_ctx_map (set_state_other e sk info ?s)) k)) =
      (\<lambda>k. map_option cv_role (htab_lookup (conn_ctx_map ?s) k))(en_key e sk \<mapsto> v)"
    by (simp add: fun_eq_iff)
  then show ?thesis by (simp only: ins mark_upd)
qed

lemma unknown_num: "role_num LINK_ROLE_UNKNOWN = 0"
  by simp

lemma known_role:
  assumes "link_inv s" "link_room s"
    and "known = (case htab_lookup (conn_tracing_map s) sk of None \<Rightarrow> 0 | Some v \<Rightarrow> v)"
  shows "role_ok known" "htab_lookup (conn_tracing_map (set_state_insert e sk s)) sk = Some known"
proof -
  have "htab_all (\<lambda>_. role_ok) (conn_tracing_map s)"
    using assms(1) by (simp add: link_inv_def)
  then show "role_ok known"
    by (auto simp: assms(3) role_ok_iff dest: htab_all_lookup split: option.split)
  have "length (ht_elems (conn_tracing_map s)) < ht_max (conn_tracing_map s)"
    using assms(2) by (simp add: link_room_def has_room_def)
  then show "htab_lookup (conn_tracing_map (set_state_insert e sk s)) sk = Some known"
    by (simp only: set_state_insert_tracing assms(3) unknown_num) simp
qed

lemma conns_set_state:
  assumes "link_inv s" "link_room s"
    and "known = (case htab_lookup (conn_tracing_map s) sk of None \<Rightarrow> 0 | Some v \<Rightarrow> v)"
    and "(loc, r) = loc_role (skc_state (en_sk e sk)) new known"
  shows "lt_conns (link_abs (k_set_state e sk new s)) =
     (if loc = 7 then (lt_conns (link_abs s))(en_key e sk \<mapsto> r) else mark (lt_conns (link_abs s)) (en_key e sk) 0)"
proof -
  let ?s = "set_state_insert e sk s" and ?old = "skc_state (en_sk e sk)"
  have room: "has_room (conn_ctx_map s)" using assms(2) by (simp add: link_room_def)
  note known = known_role [OF assms(1-3)]
  have "conn_ctx_map (k_set_state e sk new s) = conn_ctx_map (set_state_branch e sk ?old new ?s)"
    by (simp add: k_set_state_def Let_def)
  then have "lt_conns (link_abs (k_set_state e sk new s)) =
      (\<lambda>k. map_option cv_role (htab_lookup (conn_ctx_map (set_state_branch e sk ?old new ?s)) k))"
    by (simp add: link_abs_def)
  also have "\<dots> = (if loc = 7 then (lt_conns (link_abs s))(en_key e sk \<mapsto> r) else mark (lt_conns (link_abs s)) (en_key e sk) 0)"
  proof -
    have "(\<lambda>k. map_option cv_role (htab_lookup (conn_ctx_map
          (if c1 then set_state_decide e sk info 4 LINK_ROLE_CLIENT ?s
           else if c2 then set_state_decide e sk info 5 LINK_ROLE_CLIENT ?s
           else if c3 then set_state_decide e sk info 6 LINK_ROLE_SERVER ?s
           else set_state_other e sk info ?s)) k)) =
        (if loc = 7 then (lt_conns (link_abs s))(en_key e sk \<mapsto> r) else mark (lt_conns (link_abs s)) (en_key e sk) 0)"
      if "(loc, r) = (if c1 then (4, 1) else if c2 then (5, 1) else if c3 then (6, 2) else (7, known))"
      for c1 c2 c3 info
      using that
      by (cases c1; cases c2; cases c3)
        (simp_all only: if_True if_False prod.inject decide_ctx insert_ctx [OF room]
          other_ctx [OF room known(2,1)], simp_all)
    from this [OF assms(4) [unfolded loc_role_def]] show ?thesis
      unfolding set_state_branch_def Let_def .
  qed
  finally show ?thesis .
qed

lemma set_state_role_loc_role:
  "(case set_state_role (ucast old) new None of Some (loc, r) \<Rightarrow> r | None \<Rightarrow> known) = snd (loc_role old new known)"
proof -
  have "(case (if c1 then Some (4, role_num LINK_ROLE_CLIENT)
        else if c2 then Some (5, role_num LINK_ROLE_CLIENT)
        else if c3 then Some (6, role_num LINK_ROLE_SERVER) else None) of
        Some (loc, r) \<Rightarrow> r | None \<Rightarrow> known) =
      snd (if c1 then (4 :: u32, 1) else if c2 then (5, 1) else if c3 then (6, 2) else (7, known))"
    for c1 c2 c3
    by (cases c1; cases c2; cases c3) simp_all
  then show ?thesis unfolding set_state_role.simps loc_role_def option.map .
qed

lemma abs_set_state:
  assumes "link_inv s" "link_room s"
  shows "link_abs (k_set_state e sk new s) = table_set_state e sk new (link_abs s)"
proof -
  define known where "known = (case htab_lookup (conn_tracing_map s) sk of None \<Rightarrow> 0 | Some v \<Rightarrow> v)"
  obtain loc r where lr: "(loc, r) = loc_role (skc_state (en_sk e sk)) new known" by (metis surj_pair)
  have room: "length (ht_elems (conn_tracing_map s)) < ht_max (conn_tracing_map s)"
    "link_event_size \<le> rb_avail (link_events s)"
    using assms(2) by (simp_all add: link_room_def has_room_def)
  have roles: "lt_roles (link_abs (k_set_state e sk new s)) =
      (lt_roles (link_abs s))(sk := if new = TCP_CLOSE then None else Some r)"
    using k_set_state_tracing [OF room(1), of e sk new]
    unfolding unknown_num known_def [symmetric] set_state_role_loc_role lr [symmetric] snd_conv
    by (simp add: link_abs_def)
  have sent: "lt_sent (link_abs (k_set_state e sk new s)) = lt_sent (link_abs s) @
      (if conn_reportable (en_sk e sk) then [link_event_of e 1 sk \<lparr>st_old_state = skc_state (en_sk e sk),
         st_new_state = ucast new, st_loc = loc, st_role = r\<rparr>] else [])"
    using k_set_state_out [OF assms(1) room(1), of e sk new] room(2)
    by (simp add: link_abs_def Let_def known_def [symmetric] loc_role_def [symmetric] lr [symmetric])
  have call: "lt_call (link_abs (k_set_state e sk new s)) = lt_call (link_abs s)"
    by (simp add: link_abs_def)
  have tab: "table_set_state e sk new (link_abs s) = (link_abs s)
     \<lparr>lt_roles := (lt_roles (link_abs s))(sk := if new = TCP_CLOSE then None else Some r),
      lt_conns := (if loc = 7 then (lt_conns (link_abs s))(en_key e sk \<mapsto> r)
        else mark (lt_conns (link_abs s)) (en_key e sk) 0),
      lt_sent := lt_sent (link_abs s) @ (if conn_reportable (en_sk e sk) then
        [link_event_of e 1 sk \<lparr>st_old_state = skc_state (en_sk e sk), st_new_state = ucast new,
          st_loc = loc, st_role = r\<rparr>] else [])\<rparr>"
  proof -
    have k: "(case lt_roles (link_abs s) sk of None \<Rightarrow> 0 | Some r \<Rightarrow> r) = known"
      by (simp add: link_abs_def known_def)
    show ?thesis
      unfolding table_set_state_def Let_def k lr [symmetric] prod.case ..
  qed
  show ?thesis
    unfolding tab by (rule link_table.equality) (simp_all add: roles sent call conns_set_state [OF assms known_def lr])
qed

text \<open>With the first and last pages unmapped, the map of calls in progress is one cell.\<close>

lemma abs_fd_update:
  "has_room (fd_info_map s) \<Longrightarrow>
   link_abs (s\<lparr>fd_info_map := snd (htab_update (fd_info_map s) minus_EFAULT fd BPF_ANY)\<rparr>) =
     (link_abs s)\<lparr>lt_call := Some fd\<rparr>"
  by (simp add: link_abs_def lookup_update_any del: htab_simps)

lemma abs_fd_poke:
  "link_abs (s\<lparr>fd_info_map := htab_poke (fd_info_map s) minus_EFAULT f\<rparr>) =
     (link_abs s)\<lparr>lt_call := map_option f (lt_call (link_abs s))\<rparr>"
  by (simp add: link_abs_def htab_poke_lookup)

lemma abs_fd_pop:
  "link_abs (s\<lparr>fd_info_map := snd (htab_pop (fd_info_map s) minus_EFAULT)\<rparr>) = (link_abs s)\<lparr>lt_call := None\<rparr>"
  by (simp add: link_abs_def)

lemma lt_call_abs: "htab_lookup (fd_info_map s) minus_EFAULT = lt_call (link_abs s)"
  by (simp add: link_abs_def)

lemma lt_call_same: "lt_call t = x \<Longrightarrow> t\<lparr>lt_call := x\<rparr> = t"
  by (rule link_table.equality) simp_all

lemma link_room_fd: "link_room s \<Longrightarrow> has_room h \<Longrightarrow> link_room (s\<lparr>fd_info_map := h\<rparr>)"
  by (simp add: link_room_def)

lemma has_room_delete: "has_room h \<Longrightarrow> has_room (snd (htab_delete h k))"
  using length_delete_le [of k "ht_elems h"]
  by (cases "htab_lookup h k") (simp_all add: has_room_def htab_delete_def)

lemma has_room_pop: "has_room h \<Longrightarrow> has_room (snd (htab_pop h k))"
  by (auto simp: map_lookup_and_delete_def case_prod_beta has_room_delete split: option.split)

lemma abs_connect_file:
  assumes "link_room s" "frames_fixed (k_mem (en_kernel e))"
  shows "link_abs (fentry___sys_connect_file e file s) = table_run e (Sys_Connect_File file) (link_abs s)"
proof (cases "lt_call (link_abs s)")
  case (Some fd)
  have "has_room (conn_ctx_map s)" using assms(1) by (simp add: link_room_def)
  with Some show ?thesis
    by (simp add: fentry___sys_connect_file_def find_fd_info_frames [OF assms(2)] lt_call_abs Let_def
        abs_mark_ctx abs_fd_poke del: of_int_minus)
qed (simp add: fentry___sys_connect_file_def find_fd_info_frames [OF assms(2)] lt_call_abs del: of_int_minus)

lemma abs_connect_exit:
  assumes "link_room s" "frames_fixed (k_mem (en_kernel e))"
  shows "link_abs (fexit___sys_connect e s) = table_run e Sys_Connect_Exit (link_abs s)"
proof -
  have "has_room (fd_info_map s)" using assms(1) by (simp add: link_room_def)
  then have room: "link_room (s\<lparr>fd_info_map := snd (htab_pop (fd_info_map s) minus_EFAULT)\<rparr>)"
    by (intro link_room_fd [OF assms(1)] has_room_pop)
  show ?thesis
    by (cases "lt_call (link_abs s)")
      (simp_all add: fexit___sys_connect_def get_stack_id_frames [OF assms(2)] case_prod_beta lt_call_abs
        abs_mark_sock [OF room] abs_fd_pop lt_call_same Let_def del: of_int_minus)
qed

lemma abs_accept_exit:
  assumes "frames_fixed (k_mem (en_kernel e))"
  shows "link_abs (fexit_do_accept e file newfile s) = table_run e (Do_Accept_Exit file newfile) (link_abs s)"
  by (cases "lt_call (link_abs s)")
    (auto simp: fexit_do_accept_def find_fd_info_frames [OF assms] lt_call_abs abs_fd_poke Let_def lt_call_same
        simp del: of_int_minus)

lemma abs_forget:
  "link_abs (s\<lparr>conn_tracing_map := snd (htab_delete (conn_tracing_map s) sk),
      conn_ctx_map := snd (htab_delete (conn_ctx_map s) (en_key e sk))\<rparr>) = table_forget e sk (link_abs s)"
  "link_abs (s\<lparr>conn_ctx_map := snd (htab_delete (conn_ctx_map s) (en_key e sk)),
      conn_tracing_map := snd (htab_delete (conn_tracing_map s) sk)\<rparr>) = table_forget e sk (link_abs s)"
  "link_abs (s\<lparr>conn_tracing_map := snd (htab_pop (conn_tracing_map s) sk),
      conn_ctx_map := snd (htab_delete (conn_ctx_map s) (en_key e sk))\<rparr>) = table_forget e sk (link_abs s)"
  by (simp_all add: link_abs_def table_forget_def fun_eq_iff)

text \<open>One call.\<close>

lemma abs_link_run:
  assumes "link_inv s" and "link_room s" and "frames_fixed (k_mem (en_kernel e))"
  shows "link_abs (link_run e c s) = table_run e c (link_abs s)"
proof -
  have room: "has_room (fd_info_map s)" using assms(2) by (simp add: link_room_def)
  show ?thesis
  proof (cases c)
    case Sys_Connect_Exit
    then show ?thesis using assms by (simp only: link_run.simps abs_connect_exit)
  next
    case (Set_State sk new)
    then show ?thesis using assms by (simp add: abs_set_state)
  next
    case Sys_Connect_File
    then show ?thesis using assms by (simp only: link_run.simps abs_connect_file)
  next
    case Do_Accept_Exit
    then show ?thesis using assms by (simp only: link_run.simps abs_accept_exit)
  qed (use assms room in \<open>simp_all add: link_defs fexit_tcp_close_def
  get_stack_id_frames abs_fd_update abs_fd_pop abs_mark_sock abs_forget
  case_prod_beta Let_def del: of_int_minus\<close>)
qed

end
