(* ===== verification/Link_History.thy ===== *)
theory Link_History
  imports Link_Table
begin

text \<open>
  The connection tracer over whole runs: how many calls its maps and its ring buffer last for, the
  refinement of a run to a run of the table, and what becomes of the role of a socket and of the
  entry of a connection from one call to the last.
\<close>

section \<open>How long the resources last\<close>

definition free_for :: "nat \<Rightarrow> ('k, 'v) htab \<Rightarrow> bool" where
  "free_for n h \<longleftrightarrow> length (ht_elems h) + n \<le> ht_max h"

lemma free_for_mono: "free_for (Suc n) h \<Longrightarrow> free_for n h"
  by (simp add: free_for_def)

lemma length_htab_update: "length (ht_elems (snd (htab_update h k v fl))) \<le> Suc (length (ht_elems h))"
  using length_update_le [of k v "ht_elems h"] by (auto simp: htab_update_def split: option.split)

lemma length_htab_update_again:
  "length (ht_elems (snd (htab_update (snd (htab_update h k v fl)) k w BPF_ANY))) \<le> Suc (length (ht_elems h))"
proof (cases "htab_lookup (snd (htab_update h k v fl)) k")
  case None
  then have "snd (htab_update h k v fl) = h"
    by (auto simp: htab_update_def htab_lookup_def map_of_update split: option.splits if_splits)
  then show ?thesis by (simp add: length_htab_update)
next
  case (Some x)
  then have "length (ht_elems (snd (htab_update (snd (htab_update h k v fl)) k w BPF_ANY))) =
      length (ht_elems (snd (htab_update h k v fl)))"
    by (simp add: htab_update_def [of "snd (htab_update h k v fl)"] htab_lookup_def length_update_present
        del: htab_simps)
  then show ?thesis using length_htab_update [of h k v fl] by simp
qed

lemma free_update: "free_for (Suc n) h \<Longrightarrow> free_for n (snd (htab_update h k v fl))"
  using length_htab_update [of h k v fl] by (simp add: free_for_def)

lemma free_update_again:
  "free_for (Suc n) h \<Longrightarrow> free_for n (snd (htab_update (snd (htab_update h k v fl)) k w BPF_ANY))"
  using length_htab_update_again [of h k v fl w] by (simp add: free_for_def)

lemma free_delete: "free_for n h \<Longrightarrow> free_for n (snd (htab_delete h k))"
  using length_delete_le [of k "ht_elems h"]
  by (cases "htab_lookup h k") (simp_all add: free_for_def htab_delete_def)

lemma free_pop: "free_for n h \<Longrightarrow> free_for n (snd (htab_pop h k))"
  by (auto simp: map_lookup_and_delete_def case_prod_beta free_delete split: option.split)

lemma free_try_init: "free_for (Suc n) h \<Longrightarrow> free_for n (snd (htab_try_init h k v))"
  using free_update [of n h k v BPF_ANY]
  by (cases "htab_lookup h k"; cases "htab_update h k v BPF_ANY")
    (auto simp: lookup_or_try_init_any_def free_for_mono)

lemmas free_intros = free_update free_update_again free_delete free_pop free_try_init

lemma rb_avail_guard: "rb_avail rb \<le> rb_avail (guard_rb rb sz body) + sz"
  by (cases body)
    (simp add: guard_ring_buf_def guard_ring_buf_destructor_def bpf_ringbuf_reserve_def bpf_ringbuf_submit_def
      bpf_ringbuf_discard_def)

text \<open>The state lasts for \<open>n\<close> more calls, whatever they are: each adds at most one entry to a map and one
  event. The map of calls in progress never has more than two entries.\<close>

definition link_lasts :: "nat \<Rightarrow> link_state \<Rightarrow> bool" where
  "link_lasts n s \<longleftrightarrow>
     link_inv s \<and> free_for n (conn_tracing_map s) \<and> free_for n (conn_ctx_map s) \<and>
     n * link_event_size \<le> rb_avail (link_events s)"

lemma link_lasts_room: "link_lasts (Suc n) s \<Longrightarrow> link_room s"
  using fd_info_inv_small [of s] by (auto simp: link_lasts_def link_room_def has_room_def free_for_def)

lemma set_state_branch_cases:
  assumes "\<And>info loc r. P (set_state_decide e sk info loc r s)" "\<And>info. P (set_state_other e sk info s)"
  shows "P (set_state_branch e sk old new s)"
proof -
  have "P (if c1 then a else if c2 then b else if c3 then c else d)" if "P a" "P b" "P c" "P d" for c1 c2 c3 a b c d
    using that by simp
  then show ?thesis unfolding set_state_branch_def Let_def using assms by blast
qed

lemma set_state_branch_free:
  assumes "free_for (Suc n) (conn_tracing_map s0)" "free_for (Suc n) (conn_ctx_map s0)"
  shows "free_for n (conn_tracing_map (set_state_branch e sk old new (set_state_insert e sk s0))) \<and>
    free_for n (conn_ctx_map (set_state_branch e sk old new (set_state_insert e sk s0)))"
proof (rule set_state_branch_cases [where P = "\<lambda>s. free_for n (conn_tracing_map s) \<and> free_for n (conn_ctx_map s)"])
qed (use assms in \<open>simp_all add: set_state_decide_def set_state_other_def set_state_insert_def free_intros Let_def
  split: option.split\<close>)

lemma link_events_run: "rb_avail (link_events s) \<le> rb_avail (link_events (link_run e c s)) + link_event_size"
proof (cases c)
  case (Set_State sk new)
  then show ?thesis
    by (simp add: k_set_state_events handle_new_connection_def rb_avail_guard split: option.split prod.split)
qed (simp_all add: link_defs fentry___sys_connect_file_def fexit___sys_connect_def fexit_do_accept_def
    fexit_tcp_close_def mark_sock_def mark_ctx_def case_prod_beta Let_def split: option.split)

lemma link_maps_run:
  assumes "free_for (Suc n) (conn_tracing_map s)" "free_for (Suc n) (conn_ctx_map s)"
  shows "free_for n (conn_tracing_map (link_run e c s)) \<and> free_for n (conn_ctx_map (link_run e c s))"
proof (cases c)
  case (Set_State sk new)
  then show ?thesis
    using set_state_branch_free [OF assms] by (simp add: k_set_state_def Let_def free_delete)
qed (use assms assms [THEN free_for_mono] in \<open>simp_all add: link_defs fentry___sys_connect_file_def fexit___sys_connect_def fexit_do_accept_def
    fexit_tcp_close_def mark_sock_def mark_ctx_def case_prod_beta Let_def free_intros split: option.split\<close>)

lemma link_lasts_run: "link_lasts (Suc n) s \<Longrightarrow> link_lasts n (link_run e c s)"
  using link_maps_run [of n s e c] link_events_run [of s e c]
  by (auto simp: link_lasts_def link_inv_run)

interpretation link_sim: simulation link_run link_lasts "\<lambda>e c. frames_fixed (k_mem (en_kernel e))" link_abs table_run
proof unfold_locales
  fix n s and e :: link_env and c assume "link_lasts (Suc n) s" "frames_fixed (k_mem (en_kernel e))"
  then show "link_abs (link_run e c s) = table_run e c (link_abs s)"
    using link_lasts_room by (intro abs_link_run) (auto simp: link_lasts_def)
qed (rule link_lasts_run)

section \<open>The role of a socket\<close>

text \<open>The calls that may change the role recorded for a socket: one of the three transitions that decide
  it, and those that remove the socket.\<close>

fun changes_role :: "ptr \<Rightarrow> link_env \<Rightarrow> link_call \<Rightarrow> bool" where
  "changes_role x e (Set_State sk new) \<longleftrightarrow>
     sk = x \<and> (new = TCP_CLOSE \<or> fst (loc_role (skc_state (en_sk e sk)) new 0) \<noteq> 7)"
| "changes_role x e (V4_Destroy sk) \<longleftrightarrow> sk = x"
| "changes_role x e (Raw_Tp_Destroy sk) \<longleftrightarrow> sk = x"
| "changes_role x e (Tp_Destroy sk) \<longleftrightarrow> sk = x"
| "changes_role x e (Close_Exit regs retval) \<longleftrightarrow>
     retval \<noteq> 0 \<and> load64 (k_mem (en_kernel e)) (regs + 112) = x"
| "changes_role x e _ \<longleftrightarrow> False"

text \<open>Whatever happens to a map, an entry it has is not replaced by an insertion.\<close>

lemma try_init_keeps: "htab_lookup h x = Some v \<Longrightarrow> htab_lookup (snd (htab_try_init h k w)) x = Some v"
  by (auto simp: htab_try_init_lookup)

lemma noexist_keeps: "htab_lookup h x = Some v \<Longrightarrow> htab_lookup (snd (htab_update h k w BPF_NOEXIST)) x = Some v"
  by (auto simp: htab_update_def htab_lookup_def map_of_update split: option.split)

lemma any_other: "k \<noteq> x \<Longrightarrow> htab_lookup (snd (htab_update h k w fl)) x = htab_lookup h x"
  by (auto simp: htab_update_def htab_lookup_def map_of_update split: option.split)

lemma insert_keeps:
  "htab_lookup (conn_tracing_map s) x = Some v \<Longrightarrow>
   htab_lookup (conn_tracing_map (set_state_insert e sk s)) x = Some v"
  by (simp add: set_state_insert_def noexist_keeps del: htab_simps)

lemma branch_keeps_other:
  "sk \<noteq> x \<Longrightarrow> htab_lookup (conn_tracing_map (set_state_branch e sk old new s)) x = htab_lookup (conn_tracing_map s) x"
proof (rule set_state_branch_cases [where P = "\<lambda>s'. htab_lookup (conn_tracing_map s') x = htab_lookup (conn_tracing_map s) x"])
qed (simp_all add: set_state_decide_def set_state_other_def any_other Let_def del: htab_simps split: option.split)

lemma loc_role_seven:
  assumes "fst (loc_role old new known) = 7" shows "loc_role old new known' = (7, known')"
proof -
  have "(if c1 then (4 :: u32, 1 :: u32) else if c2 then (5, 1) else if c3 then (6, 2) else (7, known')) = (7, known')"
    if "fst (if c1 then (4 :: u32, 1 :: u32) else if c2 then (5, 1) else if c3 then (6, 2) else (7, known)) = 7"
    for c1 c2 c3
    using that by (cases c1; cases c2; cases c3) simp_all
  from this [OF assms [unfolded loc_role_def]] show ?thesis unfolding loc_role_def .
qed

lemma set_state_role_Some:
  "set_state_role (ucast old) new (Some v) = Some (loc_role old new (ucast (ucast v :: u8)))"
proof -
  have "(if c1 then Some (4 :: u32, role_num LINK_ROLE_CLIENT) else if c2 then Some (5, role_num LINK_ROLE_CLIENT)
      else if c3 then Some (6, role_num LINK_ROLE_SERVER) else Some (7, w)) =
      Some (if c1 then (4, 1) else if c2 then (5, 1) else if c3 then (6, 2) else (7, w))"
    for c1 c2 c3 w
    by (cases c1; cases c2; cases c3) simp_all
  then show ?thesis unfolding set_state_role.simps loc_role_def option.map .
qed

lemma set_state_keeps:
  assumes "htab_lookup (conn_tracing_map s) x = Some v" "\<not> changes_role x e (Set_State sk new)"
  shows "htab_lookup (conn_tracing_map (k_set_state e sk new s)) x = Some v"
proof (cases "sk = x")
  case False
  then show ?thesis
    using insert_keeps [OF assms(1)]
    by (simp add: k_set_state_def Let_def branch_keeps_other)
next
  case True
  have seven: "fst (loc_role (skc_state (en_sk e sk)) new 0) = 7" and new: "new \<noteq> TCP_CLOSE"
    using assms(2) True by auto
  have "htab_lookup (conn_tracing_map (set_state_branch e sk (skc_state (en_sk e sk)) new (set_state_insert e sk s))) x = Some v"
    using set_state_branch_tracing [OF insert_keeps [OF assms(1), of e sk], of e "skc_state (en_sk e sk)" new] True
    by (simp add: set_state_role_loc_role loc_role_seven [OF seven [unfolded True]])
  then show ?thesis using new by (simp add: k_set_state_def Let_def)
qed

lemma link_run_keeps_role:
  assumes "htab_lookup (conn_tracing_map s) x = Some v" "\<not> changes_role x e c"
  shows "htab_lookup (conn_tracing_map (link_run e c s)) x = Some v"
proof (cases c)
  case (Set_State sk new)
  then show ?thesis using set_state_keeps assms by simp
qed (use assms in \<open>auto simp: link_defs fentry___sys_connect_file_def fexit___sys_connect_def fexit_do_accept_def
    fexit_tcp_close_def mark_sock_def mark_ctx_def case_prod_beta Let_def try_init_keeps split: option.split\<close>)

text \<open>The events of a socket are those its state changes report.\<close>

definition sent_as :: "ptr \<Rightarrow> u32 \<Rightarrow> link_event \<Rightarrow> bool" where
  "sent_as x r ev \<longleftrightarrow>
     (si_sock_id (le_sk_info ev) = x \<longrightarrow> ci_role (le_conn_info ev) = r \<and> ci_loc (le_conn_info ev) = 7)"

lemma sent_as_event:
  "sk \<noteq> x \<or> (st_role st = r \<and> st_loc st = 7) \<Longrightarrow> sent_as x r (link_event_of e i sk st)"
  by (auto simp: sent_as_def link_event_of_def set_sk_info_def set_conn_info_states Let_def)

lemma seen_role_present: "htab_lookup (conn_tracing_map s) sk = Some v \<Longrightarrow> seen_role s sk = Some v"
  by (simp add: seen_role_def noexist_keeps del: htab_simps)

lemma set_state_reports:
  assumes "htab_lookup (conn_tracing_map s) x = Some v" "role_ok v"
    and "sk = x \<longrightarrow> fst (loc_role (skc_state (en_sk e sk)) new 0) = 7"
  shows "\<exists>evs. rb_out (link_events (k_set_state e sk new s)) = rb_out (link_events s) @ evs \<and>
    list_all (sent_as x v) evs"
proof (cases "sk = x")
  case True
  then have "set_state_role (ucast (skc_state (en_sk e sk))) new (seen_role s sk) = Some (7, v)"
    using assms by (simp add: seen_role_present set_state_role_Some loc_role_seven [where known = 0])
  then show ?thesis
    by (simp add: k_set_state_events sent_as_event)
next
  case False
  then show ?thesis
    by (cases "set_state_role (ucast (skc_state (en_sk e sk))) new (seen_role s sk)")
      (auto simp: k_set_state_events sent_as_event)
qed

lemma link_run_reports:
  assumes "htab_lookup (conn_tracing_map s) x = Some v" "role_ok v" "\<not> changes_role x e c"
  shows "\<exists>evs. rb_out (link_events (link_run e c s)) = rb_out (link_events s) @ evs \<and> list_all (sent_as x v) evs"
proof (cases c)
  case (Set_State sk new)
  then show ?thesis using set_state_reports [OF assms(1,2), of sk e new] assms(3) by simp
qed (simp_all add: link_defs fentry___sys_connect_file_def fexit___sys_connect_def fexit_do_accept_def
    fexit_tcp_close_def mark_sock_def mark_ctx_def case_prod_beta Let_def split: option.split)

lemma link_runs_keep_role:
  assumes "htab_lookup (conn_tracing_map s) x = Some v" "role_ok v" "list_all (\<lambda>(e, c). \<not> changes_role x e c) calls"
  shows "htab_lookup (conn_tracing_map (runs link_run calls s)) x = Some v \<and>
    (\<exists>evs. rb_out (link_events (runs link_run calls s)) = rb_out (link_events s) @ evs \<and> list_all (sent_as x v) evs)"
  using assms
proof (induction calls arbitrary: s)
  case (Cons a calls)
  obtain e c where a: "a = (e, c)" by (cases a)
  with Cons.prems have keep: "\<not> changes_role x e c" and rest: "list_all (\<lambda>(e, c). \<not> changes_role x e c) calls" by simp_all
  obtain evs where evs: "rb_out (link_events (link_run e c s)) = rb_out (link_events s) @ evs" "list_all (sent_as x v) evs"
    using link_run_reports [OF Cons.prems(1,2) keep] by blast
  obtain more where "rb_out (link_events (runs link_run calls (link_run e c s))) =
      rb_out (link_events (link_run e c s)) @ more" "list_all (sent_as x v) more"
    and "htab_lookup (conn_tracing_map (runs link_run calls (link_run e c s))) x = Some v"
    using Cons.IH [OF link_run_keeps_role [OF Cons.prems(1) keep] Cons.prems(2) rest] by blast
  with evs a show ?case by (auto intro!: exI [of _ "evs @ more"])
qed simp

lemma link_runs_abs:
  assumes "link_reachable s"
    and "length (ht_elems (conn_tracing_map s)) + length calls \<le> 10000000"
    and "length (ht_elems (conn_ctx_map s)) + length calls \<le> 10000000"
    and "length calls * link_event_size \<le> rb_avail (link_events s)"
    and "list_all (\<lambda>(e, c). frames_fixed (k_mem (en_kernel e))) calls"
  shows "link_abs (runs link_run calls s) = runs table_run calls (link_abs s)"
proof (rule link_sim.runs_abs)
  have "link_inv s" using assms(1) by (rule link_inv_holds)
  then show "link_lasts (length calls) s"
    using assms(2-4) by (simp add: link_lasts_def free_for_def) (simp add: link_inv_def)
qed (rule assms(5))

section \<open>Properties\<close>

text \<open>C3: For as many calls as the maps have free entries and the ring buffer has room for events, and with
  the first and the last page unmapped, a whole run of the connection tracer does exactly what the
  run of a plain table does: the first mark of a socket and of a connection wins, a state change
  moves the role of the socket by the transition and reports it, the destruction of a socket
  forgets it, and one cell holds the call in progress, whatever its frame.\<close>

theorem link_runs_refine_table:
  assumes "link_reachable s"
    and "length (ht_elems (conn_tracing_map s)) + length calls \<le> 10000000"
    and "length (ht_elems (conn_ctx_map s)) + length calls \<le> 10000000"
    and "length calls * link_event_size \<le> rb_avail (link_events s)"
    and "list_all (\<lambda>(e, c). frames_fixed (k_mem (en_kernel e))) calls"
  shows "link_abs (runs link_run calls s) = runs table_run calls (link_abs s)"
  by (rule link_runs_abs [OF assms])

theorem link_runs_refine_table_witness:
  "lt_roles (link_abs (runs link_run [(demo_env 7, Sys_Connect), (demo_env 3, Set_State 100 1)] link_init)) 100 = Some 2"
proof -
  let ?calls = "[(demo_env 7, Sys_Connect), (demo_env 3, Set_State 100 1)]"
  have frames: "list_all (\<lambda>(e, c). frames_fixed (k_mem (en_kernel e))) ?calls"
    by (simp add: frames_fixed_def demo_env_def no_kernel_def)
  have sizes: "length (ht_elems (conn_tracing_map link_init)) = 0" "length (ht_elems (conn_ctx_map link_init)) = 0"
    "rb_avail (link_events link_init) = 1048576"
    by (simp_all add: link_init_def) (simp_all add: htab_empty_def)
  have "loc_role 3 1 0 = (6, 2)"
    by (simp add: loc_role_def c_consts)
  moreover have "link_abs (runs link_run ?calls link_init) = runs table_run ?calls (link_abs link_init)"
    by (rule link_runs_refine_table [OF link_reachable.start _ _ _ frames])
      (simp_all add: sizes link_event_size_def)
  ultimately show ?thesis
    by (simp add: table_set_state_def demo_sk c_consts link_abs_def [of link_init]) (simp add: link_init_def)
qed

text \<open>C13: Once, in a reachable state, a role is recorded for a socket, no handler changes it but the three transitions that decide a
  role and the removal of the socket, even when the maps are full: through any other calls every
  event of that socket carries this role at location 7, and so does the report of its closing,
  after which the socket is forgotten.\<close>

theorem recorded_role_reported:
  assumes "link_reachable s" and "htab_lookup (conn_tracing_map s) sk = Some r"
    and "list_all (\<lambda>(e, c). \<not> changes_role sk e c) calls"
    and "s' = runs link_run calls s" and "s'' = k_set_state e sk TCP_CLOSE s'"
  shows "htab_lookup (conn_tracing_map s') sk = Some r \<and>
    (\<exists>evs. rb_out (link_events s'') = rb_out (link_events s) @ evs \<and>
       (\<forall>ev \<in> set evs. si_sock_id (le_sk_info ev) = sk \<longrightarrow>
          ci_role (le_conn_info ev) = r \<and> ci_loc (le_conn_info ev) = 7)) \<and>
    htab_lookup (conn_tracing_map s'') sk = None"
proof -
  have role: "role_ok r"
    using link_inv_holds [OF assms(1)] assms(2) by (auto simp: link_inv_def dest: htab_all_lookup)
  note kept = link_runs_keep_role [OF assms(2) role assms(3), folded assms(4)]
  have "TCP_CLOSE \<noteq> TCP_SYN_SENT" "TCP_CLOSE \<noteq> TCP_ESTABLISHED" by (simp_all add: c_consts)
  then have seven: "fst (loc_role (skc_state (en_sk e sk)) TCP_CLOSE 0) = 7" by (simp add: loc_role_def)
  obtain evs where evs: "rb_out (link_events s') = rb_out (link_events s) @ evs" "list_all (sent_as sk r) evs"
    using kept by blast
  obtain more where "rb_out (link_events s'') = rb_out (link_events s') @ more" "list_all (sent_as sk r) more"
    using set_state_reports [of s' sk r sk e TCP_CLOSE] kept role seven by (auto simp: assms(5))
  with evs have "\<exists>evs. rb_out (link_events s'') = rb_out (link_events s) @ evs \<and> list_all (sent_as sk r) evs"
    by (intro exI [of _ "evs @ more"]) simp
  moreover have "htab_lookup (conn_tracing_map s'') sk = None"
    by (simp add: assms(5) k_set_state_def Let_def)
  ultimately show ?thesis
    using kept unfolding list_all_iff sent_as_def by blast
qed

theorem recorded_role_reported_witness:
  "htab_lookup (conn_tracing_map (runs link_run [(demo_env 1, Csk_Accept 100)] (k_set_state (demo_env 2) 100 1 link_init))) 100 = Some 1"
proof -
  have reach: "link_reachable (k_set_state (demo_env 2) 100 1 link_init)"
    using link_reachable.run [OF link_reachable.start, of "demo_env 2" "Set_State 100 1"] by simp
  have none: "htab_lookup (conn_tracing_map link_init) 100 = None" by (simp add: link_init_def)
  have "htab_lookup (conn_tracing_map (k_set_state (demo_env 2) 100 1 link_init)) 100 =
      Some (snd (loc_role 2 1 0))"
    using k_set_state_tracing [OF link_init_room, of "demo_env 2" 100 1, unfolded set_state_role_loc_role none option.case]
    by (simp add: demo_sk TCP_CLOSE_def)
  then have "htab_lookup (conn_tracing_map (k_set_state (demo_env 2) 100 1 link_init)) 100 = Some 1"
    by (simp add: loc_role_def c_consts)
  from recorded_role_reported [OF reach this _ refl refl, of "[(demo_env 1, Csk_Accept 100)]"]
  show ?thesis by simp
qed



end
