(* ===== verification/Link_Sockets.thy ===== *)
theory Link_Sockets
  imports Link_History
begin

text \<open>
  The connection tracer seen from one socket. What a call does to a socket depends on the call and on
  the call in progress, which is a cell of its own; so the calls of a run give, for every socket, the
  list of the operations on it, and this list alone decides the role recorded for the socket
  and the events it appears in, whatever happens to other sockets.
\<close>

section \<open>Operations on a socket\<close>

datatype sock_op = Mark link_role | Move u32 | Forget

text \<open>The call in progress, as each handler leaves it.\<close>

fun next_call :: "link_env \<Rightarrow> link_call \<Rightarrow> tcp_fd_info option \<Rightarrow> tcp_fd_info option" where
  "next_call e Sys_Connect cell = Some zero_fd_info"
| "next_call e Sys_Accept4 cell = Some zero_fd_info"
| "next_call e (Sys_Connect_File file) cell =
     map_option (\<lambda>fd. fd\<lparr>fd_file := file,
       fd_cur_state := skc_state (en_sk e (sock_from_file (en_kernel e) file))\<rparr>) cell"
| "next_call e (Do_Accept_Exit file newfile) cell =
     map_option (\<lambda>fd. if IS_ERR_VALUE newfile then fd\<lparr>fd_file := file\<rparr>
       else fd\<lparr>fd_file := file, fd_new_file := newfile\<rparr>) cell"
| "next_call e Sys_Connect_Exit cell = None"
| "next_call e (Sys_Accept4_Exit newfd) cell = None"
| "next_call e _ cell = cell"

text \<open>The socket a call is about and what it does to it.\<close>

fun call_op :: "link_env \<Rightarrow> link_call \<Rightarrow> tcp_fd_info option \<Rightarrow> (ptr \<times> sock_op) option" where
  "call_op e Sys_Connect_Exit cell =
     map_option (\<lambda>fd. (sock_from_file (en_kernel e) (fd_file fd), Mark LINK_ROLE_CLIENT)) cell"
| "call_op e (V4_Connect_Exit sk retval) cell = (if retval = 0 then Some (sk, Mark LINK_ROLE_CLIENT) else None)"
| "call_op e (V6_Connect sk) cell = Some (sk, Mark LINK_ROLE_CLIENT)"
| "call_op e (Csk_Accept sk) cell = Some (sk, Mark LINK_ROLE_SERVER)"
| "call_op e (Set_State sk new) cell = Some (sk, Move new)"
| "call_op e (V4_Destroy sk) cell = Some (sk, Forget)"
| "call_op e (Raw_Tp_Destroy sk) cell = (if sk = NULL then None else Some (sk, Forget))"
| "call_op e (Tp_Destroy sk) cell = (if sk = NULL then None else Some (sk, Forget))"
| "call_op e (Close_Exit regs retval) cell =
     (if retval = 0 then None else Some (load64 (k_mem (en_kernel e)) (regs + 112), Forget))"
| "call_op e _ cell = None"

fun sock_ops :: "ptr \<Rightarrow> (link_env \<times> link_call) list \<Rightarrow> tcp_fd_info option \<Rightarrow> (link_env \<times> sock_op) list" where
  "sock_ops sk [] cell = []"
| "sock_ops sk ((e, c) # calls) cell =
     (case call_op e c cell of
        None \<Rightarrow> []
      | Some (x, op) \<Rightarrow> if x = sk then [(e, op)] else []) @ sock_ops sk calls (next_call e c cell)"

section \<open>The life of a socket\<close>

text \<open>The first mark wins; a transition moves the role and is reported; what forgets the socket, the
  transition to \<^verbatim>\<open>TCP_CLOSE\<close> among it, ends its role.\<close>

fun sock_step :: "ptr \<Rightarrow> link_env \<Rightarrow> sock_op \<Rightarrow> u32 option \<Rightarrow> u32 option \<times> link_event list" where
  "sock_step sk e (Mark r) role = (Some (case role of None \<Rightarrow> role_num r | Some known \<Rightarrow> known), [])"
| "sock_step sk e Forget role = (None, [])"
| "sock_step sk e (Move new) role =
     (let old = skc_state (en_sk e sk);
          (loc, r) = loc_role old new (case role of None \<Rightarrow> 0 | Some known \<Rightarrow> known)
      in (if new = TCP_CLOSE then None else Some r,
          if conn_reportable (en_sk e sk)
          then [link_event_of e 1 sk \<lparr>st_old_state = old, st_new_state = ucast new, st_loc = loc, st_role = r\<rparr>]
          else []))"

fun sock_life :: "ptr \<Rightarrow> (link_env \<times> sock_op) list \<Rightarrow> u32 option \<Rightarrow> u32 option \<times> link_event list" where
  "sock_life sk [] role = (role, [])"
| "sock_life sk ((e, op) # ops) role =
     (let (role, evs) = sock_step sk e op role; (role', evs') = sock_life sk ops role in (role', evs @ evs'))"

lemma sock_life_append:
  "sock_life sk (ops @ ops') role =
     (let (role, evs) = sock_life sk ops role; (role', evs') = sock_life sk ops' role in (role', evs @ evs'))"
  by (induction ops arbitrary: role) (auto simp: case_prod_beta Let_def)

section \<open>The table, socket by socket\<close>

definition of_sock :: "ptr \<Rightarrow> link_event \<Rightarrow> bool" where
  "of_sock sk ev \<longleftrightarrow> si_sock_id (le_sk_info ev) = sk"

lemma of_sock_event [simp]: "of_sock sk (link_event_of e i x st) \<longleftrightarrow> x = sk"
  by (simp add: of_sock_def link_event_of_def set_sk_info_def Let_def)

lemma table_run_call: "lt_call (table_run e c t) = next_call e c (lt_call t)"
  by (cases c) (auto simp: table_mark_def table_forget_def table_set_state_def Let_def case_prod_beta
      split: option.split)

lemma table_mark_sock:
  "lt_roles (table_mark e x r t) sk = (if x = sk then fst (sock_step sk e (Mark r) (lt_roles t sk)) else lt_roles t sk)"
  "lt_sent (table_mark e x r t) = lt_sent t"
  by (auto simp: table_mark_def mark_def split: option.split)

lemma table_set_state_sock:
  "lt_roles (table_set_state e x new t) sk =
     (if x = sk then fst (sock_step sk e (Move new) (lt_roles t sk)) else lt_roles t sk)"
  "filter (of_sock sk) (lt_sent (table_set_state e x new t)) =
     filter (of_sock sk) (lt_sent t) @ (if x = sk then snd (sock_step sk e (Move new) (lt_roles t sk)) else [])"
  by (auto simp: table_set_state_def Let_def case_prod_beta)

lemma table_run_sock:
  "(lt_roles (table_run e c t) sk, filter (of_sock sk) (lt_sent (table_run e c t))) =
     (case call_op e c (lt_call t) of
        None \<Rightarrow> (lt_roles t sk, filter (of_sock sk) (lt_sent t))
      | Some (x, op) \<Rightarrow>
          if x = sk then (fst (sock_step sk e op (lt_roles t sk)),
            filter (of_sock sk) (lt_sent t) @ snd (sock_step sk e op (lt_roles t sk)))
          else (lt_roles t sk, filter (of_sock sk) (lt_sent t)))"
proof (cases c)
  case (Set_State x new)
  then show ?thesis by (simp add: table_set_state_sock del: sock_step.simps)
next
  case Sys_Connect_Exit
  then show ?thesis by (auto simp: table_mark_sock split: option.split)
qed (auto simp: table_mark_sock table_forget_def Let_def split: option.split)

lemma table_runs_sock:
  assumes "(role, evs) = sock_life sk (sock_ops sk calls (lt_call t)) (lt_roles t sk)"
  shows "lt_roles (runs table_run calls t) sk = role \<and>
    filter (of_sock sk) (lt_sent (runs table_run calls t)) = filter (of_sock sk) (lt_sent t) @ evs"
  using assms
proof (induction calls arbitrary: t role evs)
  case Nil
  then show ?case by simp
next
  case (Cons a calls)
  obtain e c where a: "a = (e, c)" by (cases a)
  define ops where "ops = (case call_op e c (lt_call t) of None \<Rightarrow> [] | Some (x, op) \<Rightarrow> if x = sk then [(e, op)] else [])"
  obtain r1 evs1 where one: "sock_life sk ops (lt_roles t sk) = (r1, evs1)" by fastforce
  have step: "lt_roles (table_run e c t) sk = r1"
    "filter (of_sock sk) (lt_sent (table_run e c t)) = filter (of_sock sk) (lt_sent t) @ evs1"
    using table_run_sock [of e c t sk] one
    by (auto simp: ops_def case_prod_beta Let_def split: option.splits if_splits simp del: sock_step.simps)
  obtain r2 evs2 where rest: "(r2, evs2) = sock_life sk (sock_ops sk calls (lt_call (table_run e c t))) r1"
    by (metis surj_pair)
  from Cons.IH [OF rest [folded step(1)]] have
    "lt_roles (runs table_run calls (table_run e c t)) sk = r2"
    "filter (of_sock sk) (lt_sent (runs table_run calls (table_run e c t))) =
      filter (of_sock sk) (lt_sent t) @ evs1 @ evs2"
    using step(2) by simp_all
  moreover have "(role, evs) = (r2, evs1 @ evs2)"
    using Cons.prems rest [unfolded table_run_call, symmetric] by (simp add: a sock_life_append table_run_call one flip: ops_def)
  ultimately show ?case by (simp add: a)
qed

section \<open>Properties\<close>

text \<open>C4: In a run that the maps and the ring buffer have room for, with the first and the last page
  unmapped, the role recorded for a socket and the events it appears in are those of the life of
  this socket alone: of the marks, transitions and removals that the calls make on it, in their
  order, from the role recorded before the run. Calls about other sockets have no part in it.\<close>

theorem link_socket_history:
  assumes "link_reachable s"
    and "length (ht_elems (conn_tracing_map s)) + length calls \<le> 10000000"
    and "length (ht_elems (conn_ctx_map s)) + length calls \<le> 10000000"
    and "length calls * link_event_size \<le> rb_avail (link_events s)"
    and "list_all (\<lambda>(e, c). frames_fixed (k_mem (en_kernel e))) calls"
    and "s' = runs link_run calls s"
    and "(role, evs) = sock_life sk (sock_ops sk calls (htab_lookup (fd_info_map s) minus_EFAULT))
      (htab_lookup (conn_tracing_map s) sk)"
  shows "htab_lookup (conn_tracing_map s') sk = role \<and>
    filter (of_sock sk) (rb_out (link_events s')) = filter (of_sock sk) (rb_out (link_events s)) @ evs"
proof -
  have run: "runs table_run calls (link_abs s) = link_abs s'"
    unfolding assms(6) by (rule link_runs_abs [OF assms(1-5), symmetric])
  have parts: "lt_roles (link_abs x) = htab_lookup (conn_tracing_map x)"
    "lt_call (link_abs x) = htab_lookup (fd_info_map x) minus_EFAULT"
    "lt_sent (link_abs x) = rb_out (link_events x)" for x
    by (simp_all only: link_abs_def link_table.simps)
  show ?thesis
    using table_runs_sock [of role evs sk calls "link_abs s"] assms(7) unfolding run parts by blast
qed

text \<open>Socket 100 is accepted and then closed, while socket 101 is connected.\<close>

theorem link_socket_history_witness:
  "let s' = runs link_run [(demo_env 3, Set_State 100 1), (demo_env 1, V6_Connect 101), (demo_env 1, Set_State 100 7)] link_init
   in htab_lookup (conn_tracing_map s') 101 = Some 1 \<and> htab_lookup (conn_tracing_map s') 100 = None \<and>
     map (\<lambda>ev. (ci_loc (le_conn_info ev), ci_role (le_conn_info ev)))
       (filter (of_sock 100) (rb_out (link_events s'))) = [(6, 2), (7, 2)]"
proof -
  let ?calls = "[(demo_env 3, Set_State 100 1), (demo_env 1, V6_Connect 101), (demo_env 1, Set_State 100 7)]"
  have frames: "list_all (\<lambda>(e, c). frames_fixed (k_mem (en_kernel e))) ?calls"
    by (simp add: frames_fixed_def demo_env_def no_kernel_def)
  have sizes: "length (ht_elems (conn_tracing_map link_init)) = 0" "length (ht_elems (conn_ctx_map link_init)) = 0"
    "rb_avail (link_events link_init) = 1048576" "rb_out (link_events link_init) = []"
    "htab_lookup (fd_info_map link_init) minus_EFAULT = None" "htab_lookup (conn_tracing_map link_init) x = None" for x
    by (simp_all add: link_init_def) (simp_all add: htab_empty_def)
  have roles: "loc_role 3 1 0 = (6, 2)" "loc_role 1 7 2 = (7, 2)"
    by (simp_all add: loc_role_def c_consts)
  note history = link_socket_history [OF link_reachable.start _ _ _ frames refl, unfolded sizes]
  show ?thesis
    using history [OF _ _ _ prod.collapse, of 100] history [OF _ _ _ prod.collapse, of 101]
    by (simp add: link_event_size_def demo_sk demo_reportable [unfolded demo_sk] roles Let_def c_consts
        link_event_of_def set_conn_info_states)
qed

end
