(* ===== verification/Link_Interleave.thy ===== *)
theory Link_Interleave
  imports Interleave Link_Sockets
begin

text \<open>
  The handlers of the connection tracer access by access: each lookup, update and deletion in a
  map, each reservation and commit of the ring buffer, and each access through a pointer that a
  lookup gave, is one step, so that handlers on several CPUs interleave at everything they share. The
  other helper calls (reads of kernel memory, the name and numbers of the task, the time) read only
  what the environment of the run fixes, and are not steps. Alone, a handler does what its definition as
  one step says; under any interleaving the invariant of the maps and of the ring buffer holds.
\<close>

section \<open>Accesses\<close>

abbreviation upd_tracing :: "((ptr, u32) htab \<Rightarrow> (ptr, u32) htab) \<Rightarrow> link_state \<Rightarrow> link_state" where
  "upd_tracing f s \<equiv> s\<lparr>conn_tracing_map := f (conn_tracing_map s)\<rparr>"

abbreviation upd_ctx ::
  "((trace_conn_key, trace_conn_value) htab \<Rightarrow> (trace_conn_key, trace_conn_value) htab) \<Rightarrow> link_state \<Rightarrow> link_state" where
  "upd_ctx f s \<equiv> s\<lparr>conn_ctx_map := f (conn_ctx_map s)\<rparr>"

abbreviation upd_fd :: "((u64, tcp_fd_info) htab \<Rightarrow> (u64, tcp_fd_info) htab) \<Rightarrow> link_state \<Rightarrow> link_state" where
  "upd_fd f s \<equiv> s\<lparr>fd_info_map := f (fd_info_map s)\<rparr>"

abbreviation upd_events :: "(link_event ringbuf \<Rightarrow> link_event ringbuf) \<Rightarrow> link_state \<Rightarrow> link_state" where
  "upd_events f s \<equiv> s\<lparr>link_events := f (link_events s)\<rparr>"

text \<open>\<^verbatim>\<open>bpf_map_lookup_or_try_init\<close>, whose callers ignore what it returns: the lookup, the update, and the
  second lookup. \<open>put\<close> updates the map of the state and gives the result of the helper.\<close>

definition try_init_prog ::
  "(link_state \<Rightarrow> 'v option) \<Rightarrow> (link_state \<Rightarrow> int \<times> link_state) \<Rightarrow> link_state program \<Rightarrow> link_state program" where
  "try_init_prog get put p =
     ask get (\<lambda>found. case found of
        Some v \<Rightarrow> p
      | None \<Rightarrow> Step (\<lambda>s. snd (put s))
          (\<lambda>s. if fst (put s) \<noteq> 0 \<and> fst (put s) \<noteq> - EEXIST then p else ask get (\<lambda>_. p)))"

definition mark_ctx_prog :: "link_env \<Rightarrow> ptr \<Rightarrow> link_role \<Rightarrow> link_state program \<Rightarrow> link_state program" where
  "mark_ctx_prog e sk r =
     try_init_prog (\<lambda>s. htab_lookup (conn_ctx_map s) (en_key e sk))
       (\<lambda>s. let (err, h) = htab_update (conn_ctx_map s) (en_key e sk) (conn_val e 0 (role_num r)) BPF_ANY
            in (err, s\<lparr>conn_ctx_map := h\<rparr>))"

definition mark_sock_prog :: "link_env \<Rightarrow> ptr \<Rightarrow> link_role \<Rightarrow> link_state program \<Rightarrow> link_state program" where
  "mark_sock_prog e sk r p =
     try_init_prog (\<lambda>s. htab_lookup (conn_tracing_map s) sk)
       (\<lambda>s. let (err, h) = htab_update (conn_tracing_map s) sk (role_num r) BPF_ANY
            in (err, s\<lparr>conn_tracing_map := h\<rparr>))
       (mark_ctx_prog e sk r p)"

text \<open>\<^verbatim>\<open>bpf_map_lookup_and_delete\<close> on the map of calls in progress.\<close>

definition pop_fd_prog :: "u64 \<Rightarrow> (tcp_fd_info option \<Rightarrow> link_state program) \<Rightarrow> link_state program" where
  "pop_fd_prog key p =
     ask (\<lambda>s. htab_lookup (fd_info_map s) key) (\<lambda>found. case found of
        None \<Rightarrow> p None
      | Some fd \<Rightarrow> act (upd_fd (\<lambda>h. snd (htab_delete h key))) (p (Some fd)))"

fun find_fd_prog :: "bytemem \<Rightarrow> nat \<Rightarrow> u64 \<Rightarrow> (u64 option \<Rightarrow> link_state program) \<Rightarrow> link_state program" where
  "find_fd_prog m 0 stack_id p = p None"
| "find_fd_prog m (Suc n) stack_id p =
     ask (\<lambda>s. htab_lookup (fd_info_map s) stack_id \<noteq> None) (\<lambda>found.
       if found then p (Some stack_id)
       else find_fd_prog m n (word_of_int (fst (probe_read m 8 stack_id))) p)"

text \<open>The sample \<^verbatim>\<open>handle_new_connection\<close> builds, and the error its scope guard ends with.\<close>

definition new_connection_sample :: "link_env \<Rightarrow> nat \<Rightarrow> ptr \<Rightarrow> state_info \<Rightarrow> link_event \<times> int" where
  "new_connection_sample e i sk states =
     (let k = en_kernel e;
          (ci, err) = set_conn_info k sk states (zero_trace_conn_info, CLEAN_ERR_INIT);
          event = \<lparr>le_cur_time = ktime (en_ctx e) i,
                   le_skc = \<lparr>sc_state = 0, sc_reuse_port = 0, sc_bound_ifindex = 0\<rparr>,
                   le_sk_info = set_sk_info k sk, le_socket_info = set_sock_info k sk,
                   le_conn_info = ci, le_process = fill_process_info (en_ctx e)\<rparr>
      in (event, if err = CLEAN_ERR_INIT then CLEAN_ERR_SUCCESS else err))"

definition new_connection_prog :: "link_env \<Rightarrow> ptr \<Rightarrow> state_info \<Rightarrow> link_state program \<Rightarrow> link_state program" where
  "new_connection_prog e sk states p =
     Step (upd_events (\<lambda>rb. case bpf_ringbuf_reserve rb link_event_size of None \<Rightarrow> rb | Some rb' \<Rightarrow> rb'))
       (\<lambda>s. if bpf_ringbuf_reserve (link_events s) link_event_size = None then p
            else (case new_connection_sample e 1 sk states of (event, err) \<Rightarrow>
              act (upd_events (\<lambda>rb. guard_ring_buf_destructor bpf_ringbuf_submit bpf_ringbuf_discard rb event err)) p))"

section \<open>Handlers\<close>

text \<open>A pointer into a map is used again after the lookup: what it points to is read again at each use,
  and is what was found if the entry has gone since.\<close>

definition set_state_decide_prog ::
  "link_env \<Rightarrow> ptr \<Rightarrow> state_info \<Rightarrow> u32 \<Rightarrow> link_role \<Rightarrow> link_state program \<Rightarrow> link_state program" where
  "set_state_decide_prog e sk info loc r p =
     act (upd_tracing (\<lambda>h. snd (htab_update h sk (role_num r) BPF_ANY)))
       (new_connection_prog e sk (info\<lparr>st_loc := loc, st_role := role_num r\<rparr>) p)"

definition set_state_other_prog :: "link_env \<Rightarrow> ptr \<Rightarrow> state_info \<Rightarrow> link_state program \<Rightarrow> link_state program" where
  "set_state_other_prog e sk info p =
     ask (\<lambda>s. htab_lookup (conn_tracing_map s) sk) (\<lambda>found. case found of
        None \<Rightarrow> p
      | Some v \<Rightarrow>
          (let val = (\<lambda>s. case htab_lookup (conn_tracing_map s) sk of None \<Rightarrow> v | Some v' \<Rightarrow> v')
           in ask val (\<lambda>v1. ask val (\<lambda>v2.
                act (upd_ctx (\<lambda>h. snd (htab_update h (en_key e sk) (conn_val e 0 (ucast (ucast v2 :: u8))) BPF_ANY)))
                  (new_connection_prog e sk (info\<lparr>st_loc := 7, st_role := ucast (ucast v1 :: u8)\<rparr>) p)))))"

definition set_state_prog :: "link_env \<Rightarrow> ptr \<Rightarrow> u32 \<Rightarrow> link_state program" where
  "set_state_prog e sk new_state =
     (let old_state = skc_state (en_sk e sk);
          info = \<lparr>st_old_state = old_state, st_new_state = ucast new_state, st_loc = 0, st_role = 0\<rparr>;
          close = (if new_state = TCP_CLOSE then act (upd_tracing (\<lambda>h. snd (htab_delete h sk))) Done else Done)
      in act (upd_tracing (\<lambda>h. snd (htab_update h sk (role_num LINK_ROLE_UNKNOWN) BPF_NOEXIST)))
           (act (upd_ctx (\<lambda>h. snd (htab_update h (en_key e sk) (conn_val e 0 (role_num LINK_ROLE_UNKNOWN)) BPF_NOEXIST)))
             (if ucast old_state = TCP_CLOSE \<and> new_state = TCP_SYN_SENT
                then set_state_decide_prog e sk info 4 LINK_ROLE_CLIENT close
              else if ucast old_state = TCP_SYN_SENT \<and> new_state = TCP_ESTABLISHED
                then set_state_decide_prog e sk info 5 LINK_ROLE_CLIENT close
              else if ucast old_state = TCP_SYN_RECV \<and> new_state = TCP_ESTABLISHED
                then set_state_decide_prog e sk info 6 LINK_ROLE_SERVER close
              else set_state_other_prog e sk info close)))"

definition connect_file_prog :: "link_env \<Rightarrow> ptr \<Rightarrow> link_state program" where
  "connect_file_prog e file =
     find_fd_prog (k_mem (en_kernel e)) 3 (get_stack_id (k_mem (en_kernel e)) (en_fp e)) (\<lambda>fdk. case fdk of
        None \<Rightarrow> Done
      | Some k \<Rightarrow>
          act (upd_fd (\<lambda>h. htab_poke h k (\<lambda>fd. fd\<lparr>fd_file := file\<rparr>)))
            (ask (\<lambda>s. case htab_lookup (fd_info_map s) k of None \<Rightarrow> file | Some fd \<Rightarrow> fd_file fd) (\<lambda>file.
              let sk = sock_from_file (en_kernel e) file
              in act (upd_fd (\<lambda>h. htab_poke h k (\<lambda>fd. fd\<lparr>fd_cur_state := skc_state (en_sk e sk)\<rparr>)))
                   (mark_ctx_prog e sk LINK_ROLE_CLIENT Done))))"

definition do_accept_prog :: "link_env \<Rightarrow> ptr \<Rightarrow> ptr \<Rightarrow> link_state program" where
  "do_accept_prog e file newfile =
     find_fd_prog (k_mem (en_kernel e)) 3 (get_stack_id (k_mem (en_kernel e)) (en_fp e)) (\<lambda>fdk. case fdk of
        None \<Rightarrow> Done
      | Some k \<Rightarrow>
          act (upd_fd (\<lambda>h. htab_poke h k (\<lambda>fd. fd\<lparr>fd_file := file\<rparr>)))
            (if \<not> IS_ERR_VALUE newfile
             then act (upd_fd (\<lambda>h. htab_poke h k (\<lambda>fd. fd\<lparr>fd_new_file := newfile\<rparr>))) Done
             else Done))"

abbreviation del_tracing :: "ptr \<Rightarrow> link_state program \<Rightarrow> link_state program" where
  "del_tracing sk \<equiv> act (upd_tracing (\<lambda>h. snd (htab_delete h sk)))"

abbreviation del_ctx :: "link_env \<Rightarrow> ptr \<Rightarrow> link_state program \<Rightarrow> link_state program" where
  "del_ctx e sk \<equiv> act (upd_ctx (\<lambda>h. snd (htab_delete h (en_key e sk))))"

fun link_prog :: "link_env \<Rightarrow> link_call \<Rightarrow> link_state program" where
  "link_prog e Sys_Connect =
     act (upd_fd (\<lambda>h. snd (htab_update h (get_stack_id (k_mem (en_kernel e)) (en_fp e)) zero_fd_info BPF_ANY))) Done"
| "link_prog e (Sys_Connect_File file) = connect_file_prog e file"
| "link_prog e Sys_Connect_Exit =
     pop_fd_prog (get_stack_id (k_mem (en_kernel e)) (en_fp e)) (\<lambda>found. case found of
        None \<Rightarrow> Done
      | Some fd \<Rightarrow> mark_sock_prog e (sock_from_file (en_kernel e) (fd_file fd)) LINK_ROLE_CLIENT Done)"
| "link_prog e Sys_Accept4 =
     act (upd_fd (\<lambda>h. snd (htab_update h (get_stack_id (k_mem (en_kernel e)) (en_fp e)) zero_fd_info BPF_ANY))) Done"
| "link_prog e (Do_Accept_Exit file newfile) = do_accept_prog e file newfile"
| "link_prog e (Sys_Accept4_Exit newfd) = pop_fd_prog (get_stack_id (k_mem (en_kernel e)) (en_fp e)) (\<lambda>_. Done)"
| "link_prog e (V4_Connect sk) = Done"
| "link_prog e (V4_Connect_Exit sk retval) = (if retval = 0 then mark_sock_prog e sk LINK_ROLE_CLIENT Done else Done)"
| "link_prog e (V6_Connect sk) = mark_sock_prog e sk LINK_ROLE_CLIENT Done"
| "link_prog e (Csk_Accept sk) = mark_sock_prog e sk LINK_ROLE_SERVER Done"
| "link_prog e (Set_State sk new) = set_state_prog e sk new"
| "link_prog e (V4_Destroy sk) = del_tracing sk (del_ctx e sk Done)"
| "link_prog e (Raw_Tp_Destroy sk) = (if sk = NULL then Done else del_ctx e sk (del_tracing sk Done))"
| "link_prog e (Tp_Destroy sk) = (if sk = NULL then Done else del_ctx e sk (del_tracing sk Done))"
| "link_prog e (Close_Exit regs retval) =
     (if retval \<noteq> 0 then
        (let sk = load64 (k_mem (en_kernel e)) (regs + 112)
         in ask (\<lambda>s. htab_lookup (conn_tracing_map s) sk) (\<lambda>found. case found of
              None \<Rightarrow> del_ctx e sk Done
            | Some _ \<Rightarrow> del_tracing sk (del_ctx e sk Done)))
      else Done)"
| "link_prog e Data_Queue = Done"

section \<open>Alone\<close>

lemma exec_try_init:
  "exec (try_init_prog get put p) s =
     exec p (if get s = None then snd (put s) else s)"
  by (simp add: try_init_prog_def split: option.split)

lemma htab_try_init_snd:
  "snd (htab_try_init h k v) = (if htab_lookup h k = None then snd (htab_update h k v BPF_ANY) else h)"
  by (auto simp: lookup_or_try_init_any_def case_prod_beta split: option.split)

lemma exec_mark_ctx: "exec (mark_ctx_prog e sk r p) s = exec p (mark_ctx e sk r s)"
  by (simp add: mark_ctx_prog_def exec_try_init mark_ctx_def htab_try_init_snd case_prod_beta Let_def)

lemma exec_mark_sock: "exec (mark_sock_prog e sk r p) s = exec p (mark_sock e sk r s)"
  by (simp add: mark_sock_prog_def exec_try_init exec_mark_ctx mark_sock_def htab_try_init_snd case_prod_beta Let_def)

lemma exec_pop_fd:
  "exec (pop_fd_prog key p) s =
     (let (fd, h) = htab_pop (fd_info_map s) key in exec (p fd) (s\<lparr>fd_info_map := h\<rparr>))"
  by (simp add: pop_fd_prog_def map_lookup_and_delete_def split: option.split)

lemma exec_find_fd:
  "exec (find_fd_prog m n stack_id p) s = exec (p (find_fd_loop m (fd_info_map s) n stack_id)) s"
  by (induction n arbitrary: stack_id) simp_all

lemma handle_new_connection_sample:
  "handle_new_connection e i sk states rb = guard_rb rb link_event_size (new_connection_sample e i sk states)"
  by (simp add: handle_new_connection_def new_connection_sample_def)

lemma exec_new_connection:
  "exec (new_connection_prog e sk states p) s =
     exec p (s\<lparr>link_events := handle_new_connection e 1 sk states (link_events s)\<rparr>)"
  by (cases "new_connection_sample e 1 sk states"; cases "bpf_ringbuf_reserve (link_events s) link_event_size")
    (simp_all add: new_connection_prog_def handle_new_connection_sample guard_ring_buf_def)

lemma exec_set_state_decide:
  "exec (set_state_decide_prog e sk info loc r p) s = exec p (set_state_decide e sk info loc r s)"
  by (simp add: set_state_decide_prog_def exec_new_connection set_state_decide_def del: role_num.simps)

lemma exec_set_state_other: "exec (set_state_other_prog e sk info p) s = exec p (set_state_other e sk info s)"
  by (cases "htab_lookup (conn_tracing_map s) sk")
    (simp_all add: set_state_other_prog_def set_state_other_def exec_new_connection Let_def)

lemma exec_set_state: "exec (set_state_prog e sk new) s = k_set_state e sk new s"
proof -
  have insert: "upd_ctx (\<lambda>h. snd (htab_update h (en_key e sk) (conn_val e 0 (role_num LINK_ROLE_UNKNOWN)) BPF_NOEXIST))
      (upd_tracing (\<lambda>h. snd (htab_update h sk (role_num LINK_ROLE_UNKNOWN) BPF_NOEXIST)) s) = set_state_insert e sk s"
    by (simp add: set_state_insert_def)
  have merge: "exec (if c1 then p1 else if c2 then p2 else if c3 then p3 else p4) t = F (if c1 then a else if c2 then b else if c3 then d else g)"
    if "exec p1 t = F a" "exec p2 t = F b" "exec p3 t = F d" "exec p4 t = F g"
    for c1 c2 c3 p1 p2 p3 p4 and t a b d g :: link_state and F :: "link_state \<Rightarrow> link_state"
    using that by simp
  have "exec (set_state_prog e sk new) s =
      exec (if new = TCP_CLOSE then act (upd_tracing (\<lambda>h. snd (htab_delete h sk))) Done else Done)
        (set_state_branch e sk (skc_state (en_sk e sk)) new (set_state_insert e sk s))"
    unfolding set_state_prog_def set_state_branch_def Let_def exec_act insert
    by (rule merge) (simp_all only: exec_set_state_decide exec_set_state_other)
  then show ?thesis by (simp add: k_set_state_def Let_def)
qed

lemma htab_poke_poke: "htab_poke (htab_poke h k f) k g = htab_poke h k (\<lambda>v. g (f v))"
  by (cases "htab_lookup h k")
    (simp_all add: htab_poke_def htab_update_def htab_lookup_def map_of_update)

lemma exec_connect_file: "exec (connect_file_prog e file) s = fentry___sys_connect_file e file s"
  by (auto simp: connect_file_prog_def exec_find_fd fentry___sys_connect_file_def find_fd_info_def exec_mark_ctx
      htab_poke_poke htab_poke_lookup Let_def dest: find_fd_loop_Some split: option.split)

lemma exec_do_accept: "exec (do_accept_prog e file newfile) s = fexit_do_accept e file newfile s"
  by (auto simp: do_accept_prog_def exec_find_fd fexit_do_accept_def find_fd_info_def htab_poke_poke Let_def
      split: option.split)

lemma exec_link_prog: "exec (link_prog e c) s = link_run e c s"
proof (cases c)
  case (Close_Exit regs retval)
  then show ?thesis
    by (simp add: fexit_tcp_close_def Let_def map_lookup_and_delete_def split: option.split)
next
  case Sys_Connect_Exit
  then show ?thesis
    by (simp add: fexit___sys_connect_def exec_pop_fd exec_mark_sock case_prod_beta Let_def split: option.split)
qed (simp_all add: link_defs exec_set_state exec_connect_file exec_do_accept exec_pop_fd exec_mark_sock case_prod_beta Let_def)

section \<open>Safety\<close>

text \<open>The invariant without the open reservations, and their number.\<close>

definition link_shared :: "link_state \<Rightarrow> bool" where
  "link_shared s \<longleftrightarrow> link_inv (s\<lparr>link_events := (link_events s)\<lparr>rb_pending := 0\<rparr>\<rparr>)"

definition link_held :: "link_state \<Rightarrow> nat" where
  "link_held s = rb_pending (link_events s)"

lemma link_inv_shared: "link_inv s \<longleftrightarrow> link_shared s \<and> link_held s = 0"
  by (auto simp: link_shared_def link_held_def link_inv_def)

lemma link_shared_maps:
  "link_shared s \<longleftrightarrow>
     htab_all (\<lambda>_. role_ok) (conn_tracing_map s) \<and> ht_max (conn_tracing_map s) = 10000000 \<and>
     htab_all (\<lambda>_ v. role_ok (cv_role v)) (conn_ctx_map s) \<and> ht_max (conn_ctx_map s) = 10000000 \<and>
     htab_all (\<lambda>k _. fd_key k) (fd_info_map s) \<and> ht_max (fd_info_map s) = 1024 \<and>
     (\<forall>ev \<in> set (rb_out (link_events s)). link_event_ok ev)"
  by (auto simp: link_shared_def link_inv_def)

abbreviation link_safe :: "nat \<Rightarrow> link_state program \<Rightarrow> bool" where
  "link_safe \<equiv> safe link_shared link_held"

lemma link_safe_upd:
  "(\<And>s. link_shared s \<Longrightarrow> link_shared (f s)) \<Longrightarrow> (\<And>s. link_events (f s) = link_events s) \<Longrightarrow> link_safe n p \<Longrightarrow>
   link_safe n (act f p)"
  by (rule safe_act) (simp_all add: link_held_def)

lemma link_safe_try_init:
  assumes "\<And>s. link_shared s \<Longrightarrow> link_shared (snd (put s)) \<and> link_events (snd (put s)) = link_events s"
    and "link_safe 0 p"
  shows "link_safe 0 (try_init_prog get put p)"
proof -
  have "link_safe 0 (Step (\<lambda>s. snd (put s))
      (\<lambda>s. if fst (put s) \<noteq> 0 \<and> fst (put s) \<noteq> - EEXIST then p else ask get (\<lambda>_. p)))"
    using assms by (intro safe.step) (auto simp: link_held_def intro: safe_ask)
  then show ?thesis
    unfolding try_init_prog_def using assms(2) by (intro safe_ask) (simp split: option.split)
qed

lemma link_safe_mark_ctx: "link_safe 0 p \<Longrightarrow> link_safe 0 (mark_ctx_prog e sk r p)"
  unfolding mark_ctx_prog_def
  by (rule link_safe_try_init) (auto simp: link_shared_maps case_prod_beta Let_def simp del: role_num.simps)

lemma link_safe_mark_sock: "link_safe 0 p \<Longrightarrow> link_safe 0 (mark_sock_prog e sk r p)"
  unfolding mark_sock_prog_def
  by (intro link_safe_try_init link_safe_mark_ctx)
    (auto simp: link_shared_maps case_prod_beta Let_def simp del: role_num.simps)

lemma link_safe_pop_fd: "(\<And>found. link_safe n (p found)) \<Longrightarrow> link_safe n (pop_fd_prog key p)"
  unfolding pop_fd_prog_def
  by (intro safe_ask) (auto intro!: link_safe_upd simp: link_shared_maps split: option.split)

lemma link_safe_find_fd: "(\<And>k. link_safe n (p k)) \<Longrightarrow> link_safe n (find_fd_prog m i stack_id p)"
  by (induction i arbitrary: stack_id) (auto intro: safe_ask)

lemma link_shared_poke: "link_shared s \<Longrightarrow> link_shared (s\<lparr>fd_info_map := htab_poke (fd_info_map s) k f\<rparr>)"
  by (auto simp: link_shared_maps)

lemma link_shared_delete:
  "link_shared s \<Longrightarrow> link_shared (s\<lparr>conn_tracing_map := snd (htab_delete (conn_tracing_map s) sk)\<rparr>)"
  "link_shared s \<Longrightarrow> link_shared (s\<lparr>conn_ctx_map := snd (htab_delete (conn_ctx_map s) key)\<rparr>)"
  by (auto simp: link_shared_maps)

lemma link_shared_put:
  "link_shared s \<Longrightarrow> role_ok r \<Longrightarrow> link_shared (s\<lparr>conn_tracing_map := snd (htab_update (conn_tracing_map s) sk r fl)\<rparr>)"
  "link_shared s \<Longrightarrow> role_ok r \<Longrightarrow>
   link_shared (s\<lparr>conn_ctx_map := snd (htab_update (conn_ctx_map s) key (conn_val e i r) fl)\<rparr>)"
  "link_shared s \<Longrightarrow> fd_key k \<Longrightarrow> link_shared (s\<lparr>fd_info_map := snd (htab_update (fd_info_map s) k fd fl)\<rparr>)"
  by (auto simp: link_shared_maps)

text \<open>The reservation is held from one step to the other.\<close>

lemma new_connection_sample_event:
  "new_connection_sample e i sk st = (ev, err) \<Longrightarrow>
   ev = link_event_of e i sk st \<and> (\<not> err > 0 \<longrightarrow> conn_reportable (en_sk e sk))"
  using set_conn_info_err [of "en_kernel e" sk st zero_trace_conn_info CLEAN_ERR_INIT]
  by (auto simp: new_connection_sample_def link_event_of_def Let_def c_consts case_prod_beta split: if_splits)

lemma link_safe_new_connection:
  assumes "conn_reportable (en_sk e sk) \<Longrightarrow> link_event_ok (link_event_of e 1 sk st)" and "link_safe 0 p"
  shows "link_safe 0 (new_connection_prog e sk st p)"
proof -
  obtain ev err where sample: "new_connection_sample e 1 sk st = (ev, err)" by fastforce
  have ok: "\<not> err > 0 \<Longrightarrow> link_event_ok ev" using new_connection_sample_event [OF sample] assms(1) by simp
  have commit: "link_safe 1 (act (upd_events (\<lambda>rb. guard_ring_buf_destructor bpf_ringbuf_submit bpf_ringbuf_discard rb ev err)) p)"
    using ok assms(2)
    by (intro safe_act [where n' = 0])
      (auto simp: link_shared_maps link_held_def guard_ring_buf_destructor_def bpf_ringbuf_submit_def bpf_ringbuf_discard_def)
  show ?thesis
    unfolding new_connection_prog_def sample prod.case
  proof (rule safe.step)
    fix s assume s: "link_shared s"
    show "link_shared (upd_events (\<lambda>rb. case bpf_ringbuf_reserve rb link_event_size of None \<Rightarrow> rb | Some rb' \<Rightarrow> rb') s) \<and>
      (\<exists>n'. link_safe n' (if bpf_ringbuf_reserve (link_events s) link_event_size = None then p
           else act (upd_events (\<lambda>rb. guard_ring_buf_destructor bpf_ringbuf_submit bpf_ringbuf_discard rb ev err)) p) \<and>
        link_held (upd_events (\<lambda>rb. case bpf_ringbuf_reserve rb link_event_size of None \<Rightarrow> rb | Some rb' \<Rightarrow> rb') s) + 0 =
          link_held s + n')"
    proof (cases "link_event_size \<le> rb_avail (link_events s)")
      case True
      then show ?thesis
        using s commit by (intro conjI exI [of _ 1]) (simp_all add: link_shared_maps link_held_def bpf_ringbuf_reserve_def)
    next
      case False
      then show ?thesis
        using s assms(2) by (intro conjI exI [of _ 0]) (simp_all add: link_shared_maps link_held_def bpf_ringbuf_reserve_def)
    qed
  qed
qed

lemma link_safe_set_state: "link_safe 0 (set_state_prog e sk new)"
proof -
  define close where "close = (if new = TCP_CLOSE then act (upd_tracing (\<lambda>h. snd (htab_delete h sk))) Done else Done)"
  have close: "link_safe 0 close"
    unfolding close_def by (auto intro!: link_safe_upd link_shared_delete safe.finished)
  have decide: "link_safe 0 (set_state_decide_prog e sk info loc r close)"
    if "(loc, r) \<in> {(4, LINK_ROLE_CLIENT), (5, LINK_ROLE_CLIENT), (6, LINK_ROLE_SERVER)}" for info loc r
    unfolding set_state_decide_prog_def using that
    by (intro link_safe_upd link_shared_put link_safe_new_connection link_event_of_ok close)
      (auto simp del: role_num.simps)
  have other: "link_safe 0 (set_state_other_prog e sk info close)" for info
    unfolding set_state_other_prog_def
  proof (rule safe_ask)
    fix s assume "link_shared s"
    then have found: "role_ok v" if "htab_lookup (conn_tracing_map s) sk = Some v" for v
      using that by (auto simp: link_shared_maps dest: htab_all_lookup)
    have again: "role_ok (case htab_lookup (conn_tracing_map t) sk of None \<Rightarrow> v | Some v' \<Rightarrow> v')"
      if "link_shared t" "role_ok v" for t v
      using that by (auto simp: link_shared_maps dest: htab_all_lookup split: option.split)
    have report: "link_safe 0 (act (upd_ctx (\<lambda>h. snd (htab_update h (en_key e sk) (conn_val e 0 (ucast (ucast v2 :: u8))) BPF_ANY)))
        (new_connection_prog e sk (info\<lparr>st_loc := 7, st_role := ucast (ucast v1 :: u8)\<rparr>) close))"
      if "role_ok v1" "role_ok v2" for v1 v2
      using that close by (auto intro!: link_safe_upd link_shared_put link_safe_new_connection link_event_of_ok)
    show "link_safe 0 (case htab_lookup (conn_tracing_map s) sk of None \<Rightarrow> close
        | Some v \<Rightarrow>
            (let val = (\<lambda>s. case htab_lookup (conn_tracing_map s) sk of None \<Rightarrow> v | Some v' \<Rightarrow> v')
             in ask val (\<lambda>v1. ask val (\<lambda>v2.
                  act (upd_ctx (\<lambda>h. snd (htab_update h (en_key e sk) (conn_val e 0 (ucast (ucast v2 :: u8))) BPF_ANY)))
                    (new_connection_prog e sk (info\<lparr>st_loc := 7, st_role := ucast (ucast v1 :: u8)\<rparr>) close)))))"
      unfolding Let_def using close found again report
      by (cases "htab_lookup (conn_tracing_map s) sk") (auto intro!: safe_ask)
  qed
  show ?thesis
    unfolding set_state_prog_def Let_def close_def [symmetric]
    by (intro link_safe_upd link_shared_put role_ok_num) (simp_all add: decide other)
qed

lemma link_safe_prog: "link_safe 0 (link_prog e c)"
proof (cases c)
  case (Sys_Connect_File f)
  then show ?thesis
    by (auto simp: connect_file_prog_def Let_def split: option.split
        intro!: link_safe_find_fd link_safe_upd link_shared_poke safe_ask link_safe_mark_ctx safe.finished)
next
  case (Do_Accept_Exit f g)
  then show ?thesis
    by (auto simp: do_accept_prog_def split: option.split
        intro!: link_safe_find_fd link_safe_upd link_shared_poke safe.finished)
qed (use get_stack_id_cases [folded fd_key_def] in \<open>auto simp: Let_def link_safe_set_state split: option.split
  intro!: link_safe_upd link_shared_put link_shared_delete link_safe_mark_sock link_safe_pop_fd safe_ask safe.finished\<close>)

text \<open>Any number of handlers may be entered at any time, and user space may take events out of the ring
  buffer between any two steps.\<close>

definition link_progs :: "link_state program set" where
  "link_progs = range (case_prod link_prog)"

definition link_drains :: "(link_state \<Rightarrow> link_state) set" where
  "link_drains = range (\<lambda>n s. s\<lparr>link_events := (link_events s)\<lparr>rb_avail := n\<rparr>\<rparr>)"

interpretation link_il: safe_programs link_progs link_drains link_shared link_held
  by unfold_locales (auto simp: link_progs_def link_drains_def link_safe_prog link_shared_maps link_held_def)

lemma link_progs_map: "set (map (case_prod link_prog) calls) \<subseteq> link_progs"
  by (auto simp: link_progs_def)

section \<open>Properties\<close>

text \<open>C5: However the handlers of the connection tracer interleave, between any two of their accesses to a
  map, to the ring buffer or through a pointer into a map, on any number of CPUs and from any reachable
  state, the maps hold valid roles and keys within their capacity, every submitted event is valid,
  and when no handler is under way no reservation is open; and a handler that is not interrupted
  does what it does as one step, so that the runs of whole handlers are among the interleavings.\<close>

theorem link_interleavings_safe:
  assumes "link_reachable s0" and "interleaving link_progs link_drains (s0, []) (s, ps)"
  shows "link_shared s \<and> (set ps \<subseteq> {Done} \<longrightarrow> link_inv s) \<and>
    interleaving link_progs link_drains (s, ps) (link_run e c s, ps @ [Done])"
proof -
  have start: "all_safe link_shared link_held (s0, [])"
    using link_inv_holds [OF assms(1)] by (intro link_il.all_safe_start) (simp_all add: link_inv_shared)
  note safe = link_il.all_safe_interleaving [OF assms(2) start]
  have "interleaved link_progs link_drains (s, ps) (s, ps @ [link_prog e c])"
    by (rule interleaved.enter) (auto simp: link_progs_def)
  moreover have "interleaving link_progs link_drains (s, ps @ [link_prog e c]) (link_run e c s, ps @ [Done])"
    using interleaving_exec [of "length ps" "ps @ [link_prog e c]" "link_prog e c" link_progs link_drains s]
    by (simp add: exec_link_prog)
  ultimately have "interleaving link_progs link_drains (s, ps) (link_run e c s, ps @ [Done])"
    by (rule converse_rtranclp_into_rtranclp)
  moreover have "link_shared s" using safe by (simp add: all_safe_def)
  moreover have "link_inv s" if "set ps \<subseteq> {Done}"
    using all_safe_done [OF safe] that by (auto simp: link_inv_shared)
  ultimately show ?thesis by blast
qed

text \<open>A handler that marks socket 100 has made its first lookup when a state change of the same socket
  runs.\<close>

theorem link_interleavings_safe_witness:
  "\<exists>s p. interleaving link_progs link_drains (link_init, []) (s, [p, Done]) \<and> p \<noteq> Done \<and> link_shared s \<and>
     s = link_run (demo_env 3) (Set_State 100 1) link_init"
proof -
  obtain f p where marker: "link_prog (demo_env 1) (V6_Connect 100) = Step f p" "f link_init = link_init"
      "p link_init \<noteq> Done"
    by (simp add: mark_sock_prog_def try_init_prog_def ask_def link_init_def)
  have "interleaved link_progs link_drains (link_init, []) (link_init, [] @ [Step f p])"
    using marker(1) by (intro interleaved.enter) (auto simp: link_progs_def image_iff intro!: exI [of _ "demo_env 1"] exI [of _ "V6_Connect 100"])
  moreover have "interleaved link_progs link_drains (link_init, [Step f p]) (link_init, [p link_init])"
    using interleaved_head [OF refl, of link_progs link_drains link_init f p "[]"] marker(2) by simp
  ultimately have run: "interleaving link_progs link_drains (link_init, []) (link_init, [p link_init])"
    by simp
  from link_interleavings_safe [OF link_reachable.start run, of "demo_env 3" "Set_State 100 1"]
  have "interleaving link_progs link_drains (link_init, [p link_init])
      (link_run (demo_env 3) (Set_State 100 1) link_init, [p link_init, Done])" by simp
  with run have all: "interleaving link_progs link_drains (link_init, [])
      (link_run (demo_env 3) (Set_State 100 1) link_init, [p link_init, Done])" by (rule rtranclp_trans)
  with link_interleavings_safe [OF link_reachable.start all, of "demo_env 3" Data_Queue] marker(3) show ?thesis by blast
qed

lemma set_state_decides_server:
  assumes "length (ht_elems (conn_tracing_map s)) < ht_max (conn_tracing_map s)" "skc_state (en_sk e sk) = 3"
  shows "htab_lookup (conn_tracing_map (k_set_state e sk 1 s)) sk = Some 2"
proof -
  have "snd (loc_role 3 1 known) = 2" "(1 :: u32) \<noteq> TCP_CLOSE" for known
    by (simp_all add: loc_role_def c_consts)
  then show ?thesis
    by (simp add: k_set_state_tracing [OF assms(1), unfolded set_state_role_loc_role] assms(2))
qed

lemma mark_sock_tracing:
  "conn_tracing_map (mark_sock e sk r s) =
     (if htab_lookup (conn_tracing_map s) sk = None
      then snd (htab_update (conn_tracing_map s) sk (role_num r) BPF_ANY) else conn_tracing_map s)"
  by (simp add: mark_sock_def mark_ctx_def htab_try_init_snd)

text \<open>C6: The marks are not serializable. Let a socket in \<^verbatim>\<open>TCP_SYN_RECV\<close> not be recorded, and \<^verbatim>\<open>conn_tracing_map\<close>
  have room for two entries. The return of a successful connect and the change of the state to
  \<^verbatim>\<open>TCP_ESTABLISHED\<close> can interleave so that both end and the socket is recorded as a client: the
  lookup of the mark came first. One after the other, in either order, they leave the server role that the
  state change has decided.\<close>

theorem mark_race_not_serial:
  assumes "htab_lookup (conn_tracing_map s) sk = None"
    and "Suc (length (ht_elems (conn_tracing_map s))) < ht_max (conn_tracing_map s)"
    and "skc_state (en_sk e2 sk) = 3"
  shows "(\<exists>s'. interleaving {} {} (s, [link_prog e1 (V4_Connect_Exit sk 0), link_prog e2 (Set_State sk 1)]) (s', [Done, Done]) \<and>
      htab_lookup (conn_tracing_map s') sk = Some 1) \<and>
    htab_lookup (conn_tracing_map (runs link_run [(e1, V4_Connect_Exit sk 0), (e2, Set_State sk 1)] s)) sk = Some 2 \<and>
    htab_lookup (conn_tracing_map (runs link_run [(e2, Set_State sk 1), (e1, V4_Connect_Exit sk 0)] s)) sk = Some 2"
proof -
  let ?steps = "interleaving ({} :: link_state program set) {}" and ?p2 = "link_prog e2 (Set_State sk 1)"
  define get where "get = (\<lambda>s :: link_state. htab_lookup (conn_tracing_map s) sk)"
  define put where "put = (\<lambda>s :: link_state. let (err, h) = htab_update (conn_tracing_map s) sk (role_num LINK_ROLE_CLIENT) BPF_ANY
    in (err, s\<lparr>conn_tracing_map := h\<rparr>))"
  define rest where "rest = mark_ctx_prog e1 sk LINK_ROLE_CLIENT Done"
  define missed where "missed = Step (\<lambda>s. snd (put s))
    (\<lambda>s. if fst (put s) \<noteq> 0 \<and> fst (put s) \<noteq> - EEXIST then rest else ask get (\<lambda>_. rest))"
  define s2 where "s2 = k_set_state e2 sk 1 s"
  have p1: "link_prog e1 (V4_Connect_Exit sk 0) =
      Step id (\<lambda>s. case get s of Some v \<Rightarrow> rest | None \<Rightarrow> missed)"
    unfolding link_prog.simps if_P [OF refl] mark_sock_prog_def try_init_prog_def ask_def missed_def rest_def
      get_def put_def ..
  have "interleaved ({} :: link_state program set) {} (s, [link_prog e1 (V4_Connect_Exit sk 0), ?p2]) (s, [missed, ?p2])"
    using interleaved_head [OF p1, of "{}" "{}" s "[?p2]"] assms(1) by (simp add: get_def del: link_prog.simps)
  moreover have "?steps (s, [missed, ?p2]) (s2, [missed, Done])"
    using interleaving_exec [of 1 "[missed, ?p2]" ?p2 "{}" "{}" s] by (simp add: exec_set_state s2_def)
  moreover have "?steps (s2, [missed, Done]) (exec missed s2, [Done, Done])"
    using interleaving_exec [of 0 "[missed, Done]" missed "{}" "{}" s2] by simp
  ultimately have run: "?steps (s, [link_prog e1 (V4_Connect_Exit sk 0), ?p2]) (exec missed s2, [Done, Done])"
    by (meson converse_rtranclp_into_rtranclp rtranclp_trans)
  have decided: "htab_lookup (conn_tracing_map s2) sk = Some 2"
    using set_state_decides_server [OF _ assms(3)] assms(2) by (simp add: s2_def)
  have "conn_tracing_map (exec missed s2) = snd (htab_update (conn_tracing_map s2) sk (role_num LINK_ROLE_CLIENT) BPF_ANY)"
    by (simp add: missed_def rest_def exec_mark_ctx mark_ctx_def put_def case_prod_beta Let_def)
  then have raced: "htab_lookup (conn_tracing_map (exec missed s2)) sk = Some 1"
    using htab_update_any_present [OF decided, of "role_num LINK_ROLE_CLIENT"] by (simp del: htab_simps)
  have "length (ht_elems (conn_tracing_map (mark_sock e1 sk LINK_ROLE_CLIENT s))) <
      ht_max (conn_tracing_map (mark_sock e1 sk LINK_ROLE_CLIENT s))"
    using length_htab_update [of "conn_tracing_map s" sk "role_num LINK_ROLE_CLIENT" BPF_ANY] assms(1,2)
    by (simp add: mark_sock_tracing)
  then have "htab_lookup (conn_tracing_map (runs link_run [(e1, V4_Connect_Exit sk 0), (e2, Set_State sk 1)] s)) sk = Some 2"
    using set_state_decides_server [OF _ assms(3)] by (simp add: fexit_tcp_v4_connect_def)
  moreover have "htab_lookup (conn_tracing_map (runs link_run [(e2, Set_State sk 1), (e1, V4_Connect_Exit sk 0)] s)) sk = Some 2"
    using decided by (simp add: fexit_tcp_v4_connect_def mark_sock_tracing flip: s2_def)
  ultimately show ?thesis using run raced by blast
qed

theorem mark_race_not_serial_witness:
  "htab_lookup (conn_tracing_map (runs link_run
     [(demo_env 7, V4_Connect_Exit 100 0), (demo_env 3, Set_State 100 1)] link_init)) 100 = Some 2"
proof -
  have "htab_lookup (conn_tracing_map link_init) 100 = None"
    "Suc (length (ht_elems (conn_tracing_map link_init))) < ht_max (conn_tracing_map link_init)"
    by (simp_all add: link_init_def) (simp add: htab_empty_def)
  moreover have "skc_state (en_sk (demo_env 3) 100) = 3" by (simp only: demo_sk) simp
  ultimately show ?thesis
    using mark_race_not_serial [of link_init 100 "demo_env 3" "demo_env 7"] by blast
qed

end
