(* ===== verification/Packet.thy ===== *)
theory Packet
  imports Kernel
begin

text \<open>
  Protocol headers as the programs see them: views of bytes in memory, one record per
  structure of \<^verbatim>\<open>vmlinux.h\<close>. Multi-byte fields hold what a little-endian load gives, so
  network-order fields still have to go through \<^verbatim>\<open>bpf_ntohs\<close>. \<open>x_at m a\<close> reads the
  structure at address \<open>a\<close> field by field, each read on its own; \<open>x_bytes\<close> is the wire
  form, and the round-trip lemmas say that reading undoes it.
\<close>

section \<open>Bytes in memory\<close>

definition mem_at :: "bytemem \<Rightarrow> ptr \<Rightarrow> bytes \<Rightarrow> bool" where
  "mem_at m a bs \<longleftrightarrow> (\<forall>i < length bs. m (a + of_nat i) = Some (bs ! i))"

lemma mem_at_Nil [simp]: "mem_at m a []"
  by (simp add: mem_at_def)

lemma mem_at_Cons [simp]: "mem_at m a (b # bs) \<longleftrightarrow> m a = Some b \<and> mem_at m (a + 1) bs"
  by (auto simp: mem_at_def nth_Cons algebra_simps less_Suc_eq_0_disj split: nat.splits)

lemma mem_at_append [simp]:
  "mem_at m a (xs @ ys) \<longleftrightarrow> mem_at m a xs \<and> mem_at m (a + of_nat (length xs)) ys"
  by (induction xs arbitrary: a) (simp_all add: algebra_simps)

lemma probe_read_mem_at: "mem_at m a bs \<Longrightarrow> probe_read m (length bs) a = (0, bs)"
  by (subst probe_read_ok [where f = "(!) bs"]) (simp_all add: mem_at_def map_nth)

lemma load_mem_at:
  "m a = Some b \<Longrightarrow> load8 m a = b"
  "mem_at m a (to_le 2 w16) \<Longrightarrow> load16 m a = w16"
  "mem_at m a (to_le 4 w32) \<Longrightarrow> load32 m a = w32"
  "mem_at m a (to_le 8 w64) \<Longrightarrow> load64 m a = w64"
  using probe_read_mem_at [of m a "[b]"] probe_read_mem_at [of m a "to_le 2 w16"]
    probe_read_mem_at [of m a "to_le 4 w32"] probe_read_mem_at [of m a "to_le 8 w64"]
  by (simp_all add: load8_def load16_def load32_def load64_def le_word_to_le)

definition load_bytes :: "bytemem \<Rightarrow> nat \<Rightarrow> ptr \<Rightarrow> bytes" where
  "load_bytes m n a = snd (probe_read m n a)"

lemma length_load_bytes [simp]: "length (load_bytes m n a) = n"
  by (simp add: load_bytes_def)

lemma load_bytes_mem_at: "mem_at m a bs \<Longrightarrow> n = length bs \<Longrightarrow> load_bytes m n a = bs"
  by (simp add: load_bytes_def probe_read_mem_at)

text \<open>A memory that holds some bytes and nothing else.\<close>

definition bytes_mem :: "ptr \<Rightarrow> bytes \<Rightarrow> bytemem" where
  "bytes_mem b bs a = (if b \<le> a \<and> unat a < unat b + length bs then Some (bs ! (unat a - unat b)) else None)"

lemma mem_at_bytes_mem:
  assumes "unat b + length bs < 2 ^ 64"
  shows "mem_at (bytes_mem b bs) b bs"
  unfolding mem_at_def
proof (intro allI impI)
  fix i assume i: "i < length bs"
  then have "unat (b + of_nat i) = unat b + i" using unat_add_of_nat [of b i] assms by simp
  then show "bytes_mem b bs (b + of_nat i) = Some (bs ! i)"
    using i by (simp add: bytes_mem_def word_le_nat_alt)
qed

text \<open>Two memories that agree on a range cannot be told apart by reads inside it.\<close>

definition agree :: "bytemem \<Rightarrow> bytemem \<Rightarrow> ptr \<Rightarrow> nat \<Rightarrow> bool" where
  "agree m m' a n \<longleftrightarrow> (\<forall>i < n. m (a + of_nat i) = m' (a + of_nat i))"

lemma agree_sub:
  assumes "agree m m' a n" and "i + k \<le> n"
  shows "agree m m' (a + of_nat i) k"
  unfolding agree_def
proof (intro allI impI)
  fix j assume "j < k"
  then have "i + j < n" using assms(2) by simp
  then have "m (a + of_nat (i + j)) = m' (a + of_nat (i + j))"
    using assms(1) by (simp only: agree_def)
  then show "m (a + of_nat i + of_nat j) = m' (a + of_nat i + of_nat j)"
    by (simp add: add.assoc)
qed

lemma agree_probe_read: "agree m m' a n \<Longrightarrow> probe_read m n a = probe_read m' n a"
proof -
  assume "agree m m' a n"
  then have "map (\<lambda>i. m (a + of_nat i)) [0..<n] = map (\<lambda>i. m' (a + of_nat i)) [0..<n]"
    by (simp add: agree_def)
  then show ?thesis by (simp only: probe_read_def)
qed

lemma agree_loads:
  "agree m m' a n \<Longrightarrow> i + 1 \<le> n \<Longrightarrow> load8 m (a + of_nat i) = load8 m' (a + of_nat i)"
  "agree m m' a n \<Longrightarrow> i + 2 \<le> n \<Longrightarrow> load16 m (a + of_nat i) = load16 m' (a + of_nat i)"
  "agree m m' a n \<Longrightarrow> i + 4 \<le> n \<Longrightarrow> load32 m (a + of_nat i) = load32 m' (a + of_nat i)"
  "agree m m' a n \<Longrightarrow> i + k \<le> n \<Longrightarrow> load_bytes m k (a + of_nat i) = load_bytes m' k (a + of_nat i)"
  by (simp_all add: load8_def load16_def load32_def load_bytes_def agree_sub
      agree_probe_read [of m m' "a + of_nat i"])

section \<open>Structures\<close>

record ethhdr =
  eth_h_dest :: bytes
  eth_h_source :: bytes
  eth_h_proto :: u16

record vlan_hdr =
  vlan_tci :: u16
  vlan_encap_proto :: u16

text \<open>The byte of the two bit-fields is kept whole: \<open>ihl\<close> is its low half.\<close>

record iphdr =
  ip_vihl :: u8
  ip_tos :: u8
  ip_tot_len :: u16
  ip_id :: u16
  ip_frag_off :: u16
  ip_ttl :: u8
  ip_protocol :: u8
  ip_check :: u16
  ip_saddr :: u32
  ip_daddr :: u32

record ipv6hdr =
  ip6_vprio :: u8
  ip6_flow_lbl :: bytes
  ip6_payload_len :: u16
  ip6_nexthdr :: u8
  ip6_hop_limit :: u8
  ip6_saddr :: in6_addr
  ip6_daddr :: in6_addr

record tcphdr =
  tcp_source :: u16
  tcp_dest :: u16
  tcp_seq :: u32
  tcp_ack_seq :: u32
  tcp_flags :: u16
  tcp_window :: u16
  tcp_check :: u16
  tcp_urg_ptr :: u16

record udphdr =
  udp_source :: u16
  udp_dest :: u16
  udp_len :: u16
  udp_check :: u16

record icmphdr =
  icmp_type :: u8
  icmp_code :: u8
  icmp_checksum :: u16
  icmp_id :: u16
  icmp_sequence :: u16

definition ip_ihl :: "iphdr \<Rightarrow> nat" where
  "ip_ihl h = unat (ip_vihl h AND 15)"

definition ETH_HLEN :: nat where "ETH_HLEN = 14"
definition VLAN_HLEN :: nat where "VLAN_HLEN = 4"
definition IP_HLEN :: nat where "IP_HLEN = 20"
definition IP6_HLEN :: nat where "IP6_HLEN = 40"
definition TCP_HLEN :: nat where "TCP_HLEN = 20"
definition UDP_HLEN :: nat where "UDP_HLEN = 8"
definition ICMP_HLEN :: nat where "ICMP_HLEN = 8"
definition VXLAN_HLEN :: nat where "VXLAN_HLEN = 8"

lemmas hlen_defs = ETH_HLEN_def VLAN_HLEN_def IP_HLEN_def IP6_HLEN_def TCP_HLEN_def UDP_HLEN_def
  ICMP_HLEN_def VXLAN_HLEN_def

section \<open>Readers\<close>

definition ethhdr_at :: "bytemem \<Rightarrow> ptr \<Rightarrow> ethhdr" where
  "ethhdr_at m a =
     \<lparr>eth_h_dest = load_bytes m 6 a, eth_h_source = load_bytes m 6 (a + of_nat 6),
      eth_h_proto = load16 m (a + of_nat 12)\<rparr>"

definition vlan_hdr_at :: "bytemem \<Rightarrow> ptr \<Rightarrow> vlan_hdr" where
  "vlan_hdr_at m a = \<lparr>vlan_tci = load16 m a, vlan_encap_proto = load16 m (a + of_nat 2)\<rparr>"

definition iphdr_at :: "bytemem \<Rightarrow> ptr \<Rightarrow> iphdr" where
  "iphdr_at m a =
     \<lparr>ip_vihl = load8 m a, ip_tos = load8 m (a + of_nat 1), ip_tot_len = load16 m (a + of_nat 2),
      ip_id = load16 m (a + of_nat 4), ip_frag_off = load16 m (a + of_nat 6),
      ip_ttl = load8 m (a + of_nat 8), ip_protocol = load8 m (a + of_nat 9),
      ip_check = load16 m (a + of_nat 10), ip_saddr = load32 m (a + of_nat 12),
      ip_daddr = load32 m (a + of_nat 16)\<rparr>"

definition in6_at :: "bytemem \<Rightarrow> ptr \<Rightarrow> in6_addr" where
  "in6_at m a = (load32 m a, load32 m (a + of_nat 4), load32 m (a + of_nat 8), load32 m (a + of_nat 12))"

definition ipv6hdr_at :: "bytemem \<Rightarrow> ptr \<Rightarrow> ipv6hdr" where
  "ipv6hdr_at m a =
     \<lparr>ip6_vprio = load8 m a, ip6_flow_lbl = load_bytes m 3 (a + of_nat 1),
      ip6_payload_len = load16 m (a + of_nat 4), ip6_nexthdr = load8 m (a + of_nat 6),
      ip6_hop_limit = load8 m (a + of_nat 7), ip6_saddr = in6_at m (a + of_nat 8),
      ip6_daddr = in6_at m (a + of_nat 24)\<rparr>"

definition tcphdr_at :: "bytemem \<Rightarrow> ptr \<Rightarrow> tcphdr" where
  "tcphdr_at m a =
     \<lparr>tcp_source = load16 m a, tcp_dest = load16 m (a + of_nat 2), tcp_seq = load32 m (a + of_nat 4),
      tcp_ack_seq = load32 m (a + of_nat 8), tcp_flags = load16 m (a + of_nat 12),
      tcp_window = load16 m (a + of_nat 14), tcp_check = load16 m (a + of_nat 16),
      tcp_urg_ptr = load16 m (a + of_nat 18)\<rparr>"

definition udphdr_at :: "bytemem \<Rightarrow> ptr \<Rightarrow> udphdr" where
  "udphdr_at m a =
     \<lparr>udp_source = load16 m a, udp_dest = load16 m (a + of_nat 2), udp_len = load16 m (a + of_nat 4),
      udp_check = load16 m (a + of_nat 6)\<rparr>"

definition icmphdr_at :: "bytemem \<Rightarrow> ptr \<Rightarrow> icmphdr" where
  "icmphdr_at m a =
     \<lparr>icmp_type = load8 m a, icmp_code = load8 m (a + of_nat 1), icmp_checksum = load16 m (a + of_nat 2),
      icmp_id = load16 m (a + of_nat 4), icmp_sequence = load16 m (a + of_nat 6)\<rparr>"

section \<open>Wire forms\<close>

definition ethhdr_bytes :: "ethhdr \<Rightarrow> bytes" where
  "ethhdr_bytes h = eth_h_dest h @ eth_h_source h @ to_le 2 (eth_h_proto h)"

definition iphdr_bytes :: "iphdr \<Rightarrow> bytes" where
  "iphdr_bytes h =
     [ip_vihl h, ip_tos h] @ to_le 2 (ip_tot_len h) @ to_le 2 (ip_id h) @ to_le 2 (ip_frag_off h) @
     [ip_ttl h, ip_protocol h] @ to_le 2 (ip_check h) @ to_le 4 (ip_saddr h) @ to_le 4 (ip_daddr h)"

fun in6_bytes :: "in6_addr \<Rightarrow> bytes" where
  "in6_bytes (a, b, c, d) = to_le 4 a @ to_le 4 b @ to_le 4 c @ to_le 4 d"

definition ipv6hdr_bytes :: "ipv6hdr \<Rightarrow> bytes" where
  "ipv6hdr_bytes h =
     [ip6_vprio h] @ ip6_flow_lbl h @ to_le 2 (ip6_payload_len h) @ [ip6_nexthdr h, ip6_hop_limit h] @
     in6_bytes (ip6_saddr h) @ in6_bytes (ip6_daddr h)"

definition tcphdr_bytes :: "tcphdr \<Rightarrow> bytes" where
  "tcphdr_bytes h =
     to_le 2 (tcp_source h) @ to_le 2 (tcp_dest h) @ to_le 4 (tcp_seq h) @ to_le 4 (tcp_ack_seq h) @
     to_le 2 (tcp_flags h) @ to_le 2 (tcp_window h) @ to_le 2 (tcp_check h) @ to_le 2 (tcp_urg_ptr h)"

definition udphdr_bytes :: "udphdr \<Rightarrow> bytes" where
  "udphdr_bytes h =
     to_le 2 (udp_source h) @ to_le 2 (udp_dest h) @ to_le 2 (udp_len h) @ to_le 2 (udp_check h)"

definition icmphdr_bytes :: "icmphdr \<Rightarrow> bytes" where
  "icmphdr_bytes h =
     [icmp_type h, icmp_code h] @ to_le 2 (icmp_checksum h) @ to_le 2 (icmp_id h) @ to_le 2 (icmp_sequence h)"

lemma length_in6_bytes [simp]: "length (in6_bytes x) = 16"
  by (cases x) simp

lemma length_wire [simp]:
  "length (iphdr_bytes ih) = 20" "length (tcphdr_bytes th) = 20" "length (udphdr_bytes uh) = 8"
  "length (icmphdr_bytes ch) = 8"
  "length (ip6_flow_lbl i6h) = 3 \<Longrightarrow> length (ipv6hdr_bytes i6h) = 40"
  by (simp_all add: iphdr_bytes_def tcphdr_bytes_def udphdr_bytes_def icmphdr_bytes_def ipv6hdr_bytes_def)

lemma iphdr_round_trip: "mem_at m a (iphdr_bytes h) \<Longrightarrow> iphdr_at m a = h"
  by (cases h) (simp add: iphdr_at_def iphdr_bytes_def load_mem_at algebra_simps)

lemma in6_round_trip: "mem_at m a (in6_bytes x) \<Longrightarrow> in6_at m a = x"
  by (cases x) (simp add: in6_at_def load_mem_at algebra_simps)

lemma ipv6hdr_round_trip:
  "mem_at m a (ipv6hdr_bytes h) \<Longrightarrow> length (ip6_flow_lbl h) = 3 \<Longrightarrow> ipv6hdr_at m a = h"
  by (cases h)
    (simp add: ipv6hdr_at_def ipv6hdr_bytes_def load_mem_at load_bytes_mem_at in6_round_trip algebra_simps)

lemma tcphdr_round_trip: "mem_at m a (tcphdr_bytes h) \<Longrightarrow> tcphdr_at m a = h"
  by (cases h) (simp add: tcphdr_at_def tcphdr_bytes_def load_mem_at algebra_simps)

lemma udphdr_round_trip: "mem_at m a (udphdr_bytes h) \<Longrightarrow> udphdr_at m a = h"
  by (cases h) (simp add: udphdr_at_def udphdr_bytes_def load_mem_at algebra_simps)

lemma icmphdr_round_trip: "mem_at m a (icmphdr_bytes h) \<Longrightarrow> icmphdr_at m a = h"
  by (cases h) (simp add: icmphdr_at_def icmphdr_bytes_def load_mem_at algebra_simps)

lemma ethhdr_round_trip:
  "mem_at m a (ethhdr_bytes h) \<Longrightarrow> length (eth_h_dest h) = 6 \<Longrightarrow> length (eth_h_source h) = 6 \<Longrightarrow>
   ethhdr_at m a = h"
  by (cases h) (simp add: ethhdr_at_def ethhdr_bytes_def load_mem_at load_bytes_mem_at algebra_simps)

section \<open>Reads stay inside\<close>

lemma agree_headers:
  "agree m m' a 14 \<Longrightarrow> ethhdr_at m a = ethhdr_at m' a"
  "agree m m' a 4 \<Longrightarrow> vlan_hdr_at m a = vlan_hdr_at m' a"
  "agree m m' a 20 \<Longrightarrow> iphdr_at m a = iphdr_at m' a"
  "agree m m' a 20 \<Longrightarrow> tcphdr_at m a = tcphdr_at m' a"
  "agree m m' a 8 \<Longrightarrow> udphdr_at m a = udphdr_at m' a"
  "agree m m' a 8 \<Longrightarrow> icmphdr_at m a = icmphdr_at m' a"
  using agree_loads [of m m' a _ 0] agree_loads [of m m' a _ 1]
  by (simp_all add: ethhdr_at_def vlan_hdr_at_def iphdr_at_def tcphdr_at_def udphdr_at_def icmphdr_at_def
      agree_loads del: of_nat_numeral of_nat_1)

lemma agree_in6: "agree m m' a 16 \<Longrightarrow> in6_at m a = in6_at m' a"
  using agree_loads [of m m' a 16 0] by (simp add: in6_at_def agree_loads del: of_nat_numeral)

lemma agree_ipv6hdr: "agree m m' a 40 \<Longrightarrow> ipv6hdr_at m a = ipv6hdr_at m' a"
  using agree_loads [of m m' a 40 0] agree_loads [of m m' a 40 1] agree_in6 [OF agree_sub [of m m' a 40 8 16]]
    agree_in6 [OF agree_sub [of m m' a 40 24 16]]
  by (simp add: ipv6hdr_at_def agree_loads del: of_nat_numeral of_nat_1)

section \<open>Wire formats\<close>

text \<open>What the parsers rely on for every header: a fixed length, a reader that undoes the wire form, and
  that reads nothing but those bytes.\<close>

locale wire_format =
  fixes reader :: "bytemem \<Rightarrow> ptr \<Rightarrow> 'h"
    and wire :: "'h \<Rightarrow> bytes"
    and len :: nat
    and ok :: "'h \<Rightarrow> bool"
  assumes wire_length: "ok h \<Longrightarrow> length (wire h) = len"
    and read_wire: "ok h \<Longrightarrow> mem_at m a (wire h) \<Longrightarrow> reader m a = h"
    and read_local: "agree m m' a len \<Longrightarrow> reader m a = reader m' a"
begin

lemma read_inside:
  "ok h \<Longrightarrow> mem_at m a (front @ wire h @ rest) \<Longrightarrow> reader m (a + of_nat (length front)) = h"
  by (rule read_wire) simp_all

text \<open>Different headers have different wire forms.\<close>

lemma wire_inject:
  assumes "ok h" "ok h'" "len < 2 ^ 64" "wire h = wire h'"
  shows "h = h'"
proof -
  define bs where "bs = wire h"
  define m where "m = (\<lambda>x :: ptr. if unat x < len then Some (bs ! unat x) else None)"
  have "mem_at m 0 bs"
    unfolding mem_at_def bs_def wire_length [OF assms(1)]
  proof (intro allI impI)
    fix i assume "i < len"
    moreover from this have "unat (of_nat i :: ptr) = i" using assms(3) by (simp add: unat_of_nat take_bit_nat_eq_self)
    ultimately show "m (0 + of_nat i) = Some (wire h ! i)" by (simp add: m_def bs_def)
  qed
  then have "mem_at m 0 (wire h)" "mem_at m 0 (wire h')" using assms(4) by (simp_all add: bs_def)
  with read_wire [OF assms(1)] read_wire [OF assms(2)] show ?thesis by metis
qed

text \<open>A store outside the header is not seen.\<close>

lemma read_store_outside:
  "\<forall>i < len. a + of_nat i \<noteq> x \<Longrightarrow> reader (m(x := v)) a = reader m a"
  by (rule read_local) (simp add: agree_def)

end

interpretation eth: wire_format ethhdr_at ethhdr_bytes 14 "\<lambda>h. length (eth_h_dest h) = 6 \<and> length (eth_h_source h) = 6"
  by unfold_locales (auto simp: ethhdr_bytes_def intro: ethhdr_round_trip agree_headers)

interpretation ip: wire_format iphdr_at iphdr_bytes 20 "\<lambda>_. True"
  by unfold_locales (auto intro: iphdr_round_trip agree_headers)

interpretation ip6: wire_format ipv6hdr_at ipv6hdr_bytes 40 "\<lambda>h. length (ip6_flow_lbl h) = 3"
  by unfold_locales (auto intro: ipv6hdr_round_trip agree_ipv6hdr)

interpretation tcp: wire_format tcphdr_at tcphdr_bytes 20 "\<lambda>_. True"
  by unfold_locales (auto intro: tcphdr_round_trip agree_headers)

interpretation udp: wire_format udphdr_at udphdr_bytes 8 "\<lambda>_. True"
  by unfold_locales (auto intro: udphdr_round_trip agree_headers)

interpretation icmp: wire_format icmphdr_at icmphdr_bytes 8 "\<lambda>_. True"
  by unfold_locales (auto intro: icmphdr_round_trip agree_headers)

end
