(* ===== verification/Skb_Helpers.thy ===== *)
theory Skb_Helpers
  imports Common Packet
begin

text \<open>
  \<^verbatim>\<open>ebpf/headers/skb_helpers.h\<close>: the event of the iptables tracer and the routines that
  fill it from a socket buffer. They work on raw header offsets and read packet bytes with
  \<^verbatim>\<open>bpf_probe_read\<close>. A union is kept as the bytes it holds (addresses) or as the variant
  that was written last (the three trace structures).
\<close>

section \<open>Structures\<close>

definition IFNAMSIZ :: nat where "IFNAMSIZ = 16"
definition ADDRSIZE :: nat where "ADDRSIZE = 16"
definition MAC_HEADER_SIZE :: u16 where "MAC_HEADER_SIZE = 14"
definition XT_TABLE_MAXNAMELEN :: nat where "XT_TABLE_MAXNAMELEN = 32"

text \<open>\<^verbatim>\<open>union addr\<close>: 16 bytes, of which \<^verbatim>\<open>v4addr\<close> are the first four.\<close>

type_synonym addr = bytes

definition set_v4addr :: "u32 \<Rightarrow> addr \<Rightarrow> addr" where
  "set_v4addr v a = overwrite a (to_le 4 v)"

record l2_info_t =
  l2_dest_mac :: bytes
  l2_l3_proto :: u16

record l3_info_t =
  l3_saddr :: addr
  l3_daddr :: addr
  l3_tot_len :: u16
  l3_ip_version :: u8
  l3_l4_proto :: u8

record l4_info_t =
  l4_sport :: u16
  l4_dport :: u16
  l4_tcpflags :: u16

record icmp_info_t =
  ii_icmpid :: u16
  ii_icmpseq :: u16
  ii_icmptype :: u8

record iptables_info_t =
  ipt_tablename :: bytes
  ipt_hook :: u32
  ipt_verdict :: u32
  ipt_delay :: u64
  ipt_pf :: u8

record iptables_trace_t =
  itr_in :: bytes
  itr_out :: bytes
  itr_tablename :: bytes
  itr_chainname :: bytes
  itr_rulenum :: u32
  itr_hooknum :: u32
  itr_pf :: u8

record nft_trace_t =
  ntr_tablename :: bytes
  ntr_chainname :: bytes
  ntr_delay :: u64
  ntr_verdict :: u32

record pkt_info_t =
  pk_ifname :: bytes
  pk_len :: u32
  pk_cpu :: u32
  pk_pid :: u32
  pk_netns :: u32
  pk_pkt_type :: u8

datatype trace_union =
  Union_Zero
  | Ipt_Info iptables_info_t
  | Trace_Info iptables_trace_t
  | Nft_Info nft_trace_t

record event_t =
  ev_skb :: u64
  ev_start_ns :: u64
  ev_kernel_stack_id :: u32
  ev_flags :: u8
  ev_pkt_info :: pkt_info_t
  ev_l2_info :: l2_info_t
  ev_l3_info :: l3_info_t
  ev_l4_info :: l4_info_t
  ev_icmp_info :: icmp_info_t
  ev_union :: trace_union

definition zero_event :: event_t where
  "zero_event =
     \<lparr>ev_skb = 0, ev_start_ns = 0, ev_kernel_stack_id = 0, ev_flags = 0,
      ev_pkt_info = \<lparr>pk_ifname = replicate 16 0, pk_len = 0, pk_cpu = 0, pk_pid = 0, pk_netns = 0,
        pk_pkt_type = 0\<rparr>,
      ev_l2_info = \<lparr>l2_dest_mac = replicate 6 0, l2_l3_proto = 0\<rparr>,
      ev_l3_info = \<lparr>l3_saddr = replicate 16 0, l3_daddr = replicate 16 0, l3_tot_len = 0,
        l3_ip_version = 0, l3_l4_proto = 0\<rparr>,
      ev_l4_info = \<lparr>l4_sport = 0, l4_dport = 0, l4_tcpflags = 0\<rparr>,
      ev_icmp_info = \<lparr>ii_icmpid = 0, ii_icmpseq = 0, ii_icmptype = 0\<rparr>,
      ev_union = Union_Zero\<rparr>"

definition event_size :: nat where
  "event_size = 280"

section \<open>Header positions\<close>

definition get_netns_skb :: "kernel \<Rightarrow> sk_buff \<Rightarrow> u32" where
  "get_netns_skb k skb =
     (let inum = ns_inum (net_at k (nd_net (dev_at k (skb_dev skb))))
      in if inum = 0 then
           (if skb_sk skb \<noteq> NULL then ns_inum (net_at k (skc_net (sk_at k (skb_sk skb)))) else inum)
         else inum)"

text \<open>\<^verbatim>\<open>pkt_type\<close> is the low three bits of the byte at \<^verbatim>\<open>__pkt_type_offset\<close>.\<close>

definition get_pkt_type :: "sk_buff \<Rightarrow> u8" where
  "get_pkt_type skb = skb_pkt_type_byte skb AND 7"

definition get_ip_version :: "bytemem \<Rightarrow> ptr \<Rightarrow> u8" where
  "get_ip_version m hdr = drop_bit 4 (load8 m hdr) AND 0x0F"

definition get_ipv4_header_len :: "bytemem \<Rightarrow> ptr \<Rightarrow> u8" where
  "get_ipv4_header_len m hdr = (load8 m hdr AND 0x0F) * 4"

definition get_l2_header :: "sk_buff \<Rightarrow> ptr" where
  "get_l2_header skb = skb_head skb + ucast (skb_mac_header skb)"

definition get_l3_header :: "sk_buff \<Rightarrow> ptr" where
  "get_l3_header skb =
     (let nh = (if skb_network_header skb = 0 then skb_mac_header skb + MAC_HEADER_SIZE
                else skb_network_header skb)
      in skb_head skb + ucast nh)"

definition get_l4_header :: "bytemem \<Rightarrow> sk_buff \<Rightarrow> ptr" where
  "get_l4_header m skb =
     (let l3 = get_l3_header skb;
          transport_size = (if get_ip_version m l3 = 6 then of_nat IP6_HLEN
                            else ucast (get_ipv4_header_len m l3)) :: u16
      in l3 + ucast transport_size)"

section \<open>Fill routines\<close>

definition set_event_info :: "ptr \<Rightarrow> u64 \<Rightarrow> event_t \<Rightarrow> event_t" where
  "set_event_info skb now ev = ev\<lparr>ev_skb := skb, ev_start_ns := now\<rparr>"

text \<open>\<^verbatim>\<open>bpf_get_stackid\<close> is a parameter: the identifier it returns.\<close>

definition set_callstack :: "u32 \<Rightarrow> event_t \<Rightarrow> event_t" where
  "set_callstack stackid ev = ev\<lparr>ev_kernel_stack_id := stackid\<rparr>"

definition read_dev_name :: "kernel \<Rightarrow> bytes \<Rightarrow> ptr \<Rightarrow> bytes" where
  "read_dev_name k dst dev =
     (let dst = dst[0 := 0]
      in if dev \<noteq> NULL then copy_str dst (nd_name (dev_at k dev)) else dst)"

definition set_pkt_info :: "run_ctx \<Rightarrow> kernel \<Rightarrow> sk_buff \<Rightarrow> pkt_info_t \<Rightarrow> pkt_info_t" where
  "set_pkt_info c k skb p =
     p\<lparr>pk_len := skb_len skb, pk_cpu := cur_cpu c,
       pk_pid := ucast (bpf_get_current_pid_tgid c AND 0xFFFF),
       pk_netns := get_netns_skb k skb, pk_pkt_type := get_pkt_type skb,
       pk_ifname := read_dev_name k (pk_ifname p) (skb_dev skb)\<rparr>"

definition set_ether_info :: "bytemem \<Rightarrow> sk_buff \<Rightarrow> l2_info_t \<Rightarrow> l2_info_t" where
  "set_ether_info m skb l2 = l2\<lparr>l2_dest_mac := load_bytes m 6 (get_l2_header skb)\<rparr>"

definition set_ipv4_info :: "bytemem \<Rightarrow> sk_buff \<Rightarrow> l3_info_t \<Rightarrow> l3_info_t" where
  "set_ipv4_info m skb l3 =
     (let iph = iphdr_at m (get_l3_header skb)
      in l3\<lparr>l3_saddr := set_v4addr (ip_saddr iph) (l3_saddr l3),
            l3_daddr := set_v4addr (ip_daddr iph) (l3_daddr l3),
            l3_tot_len := ntohs (ip_tot_len iph), l3_l4_proto := ip_protocol iph,
            l3_ip_version := get_ip_version m (get_l3_header skb)\<rparr>)"

definition set_ipv6_info :: "bytemem \<Rightarrow> sk_buff \<Rightarrow> l3_info_t \<Rightarrow> l3_info_t" where
  "set_ipv6_info m skb l3 =
     (let p = get_l3_header skb; iph = ipv6hdr_at m p
      in l3\<lparr>l3_saddr := load_bytes m ADDRSIZE (p + 8), l3_daddr := load_bytes m ADDRSIZE (p + 24),
            l3_tot_len := ip6_payload_len iph, l3_l4_proto := ip6_nexthdr iph,
            l3_ip_version := get_ip_version m p\<rparr>)"

definition set_tcp_info :: "bytemem \<Rightarrow> sk_buff \<Rightarrow> l4_info_t \<Rightarrow> l4_info_t" where
  "set_tcp_info m skb l4 =
     (let tcph = get_l4_header m skb
      in l4\<lparr>l4_sport := ntohs (tcp_source (tcphdr_at m tcph)),
            l4_dport := ntohs (tcp_dest (tcphdr_at m tcph)),
            l4_tcpflags := load16 m (tcph + 12)\<rparr>)"

definition set_udp_info :: "bytemem \<Rightarrow> sk_buff \<Rightarrow> l4_info_t \<Rightarrow> l4_info_t" where
  "set_udp_info m skb l4 =
     (let uh = get_l4_header m skb
      in l4\<lparr>l4_sport := ntohs (udp_source (udphdr_at m uh)), l4_dport := ntohs (udp_dest (udphdr_at m uh))\<rparr>)"

text \<open>The ICMP header is read whole: if a byte of it faults, all of it is zero.\<close>

definition set_icmp_info :: "bytemem \<Rightarrow> sk_buff \<Rightarrow> icmp_info_t \<Rightarrow> icmp_info_t" where
  "set_icmp_info m skb ic =
     (let ih = load_bytes m ICMP_HLEN (get_l4_header m skb)
      in ic\<lparr>ii_icmptype := ih ! 0, ii_icmpid := ntohs (le_word (take 2 (drop 4 ih))),
            ii_icmpseq := ntohs (le_word (take 2 (drop 6 ih)))\<rparr>)"

definition set_iptables_info ::
  "kernel \<Rightarrow> ptr \<Rightarrow> ptr \<Rightarrow> u32 \<Rightarrow> u64 \<Rightarrow> iptables_info_t" where
  "set_iptables_info k table state verdict delay =
     \<lparr>ipt_tablename = take XT_TABLE_MAXNAMELEN (xt_name (xt_table_at k table)),
      ipt_hook = ucast (hs_hook (hook_at k state)), ipt_verdict = verdict, ipt_delay = delay,
      ipt_pf = hs_pf (hook_at k state)\<rparr>"

section \<open>Facts\<close>

lemma get_l3_header_set:
  "skb_network_header skb \<noteq> 0 \<Longrightarrow> get_l3_header skb = skb_head skb + ucast (skb_network_header skb)"
  by (simp add: get_l3_header_def)

lemma take4_set_v4addr: "take 4 (set_v4addr v a) = to_le 4 v"
  by (simp add: set_v4addr_def overwrite_def)

lemma length_set_v4addr [simp]: "length a = 16 \<Longrightarrow> length (set_v4addr v a) = 16"
  by (simp add: set_v4addr_def)

text \<open>The two header-length routines agree with the header structure.\<close>

lemma get_ip_version_vihl: "get_ip_version m a = drop_bit 4 (ip_vihl (iphdr_at m a)) AND 15"
  by (simp add: get_ip_version_def iphdr_at_def)

lemma get_ipv4_header_len_ihl: "unat (get_ipv4_header_len m a) = ip_ihl (iphdr_at m a) * 4"
proof -
  have "load8 m a AND 15 \<le> 15" by (rule word_and_le1)
  then have "unat (load8 m a AND 15) \<le> 15" by (simp add: word_le_nat_alt)
  then show ?thesis
    by (simp add: get_ipv4_header_len_def ip_ihl_def iphdr_at_def unat_mult_lem [THEN iffD1])
qed

end
