(* ===== verification/Trace_Args.thy ===== *)
theory Trace_Args
  imports Kernel
begin

text \<open>
  \<^verbatim>\<open>bpf/bpf_tracing.h\<close> and \<^verbatim>\<open>bpf/bpf_kprobe_args.h\<close>: how a program finds the
  arguments of the function it traces. The header is a table of registers per
  architecture, accessor macros over it, and recursive argument macros; the macros are
  functions here, the saved registers a map from register names to values.
\<close>

section \<open>Selecting the architecture\<close>

datatype target =
  T_x86 | T_s390 | T_arm | T_arm64 | T_mips | T_powerpc | T_sparc | T_riscv | T_arc | T_loongarch

text \<open>\<open>requested\<close> is the \<^verbatim>\<open>__TARGET_ARCH_x\<close> macro that is defined, if one is; \<open>compiler\<close> what the
  compiler's own macros say (\<^verbatim>\<open>riscv\<close> only counts when it is the 64-bit one).\<close>

definition bpf_target :: "target option \<Rightarrow> target option \<Rightarrow> target option" where
  "bpf_target requested compiler =
     (case requested of Some t \<Rightarrow> Some t | None \<Rightarrow> compiler)"

section \<open>Register tables\<close>

record arch_regs =
  ar_parm :: "string list"
  ar_syscall :: "string list"
  ar_ret :: string
  ar_fp :: "string option"
  ar_rc :: string
  ar_sp :: string
  ar_ip :: string

definition regs_x86 :: arch_regs where
  "regs_x86 = \<lparr>ar_parm = [''di'', ''si'', ''dx'', ''cx'', ''r8'', ''r9''],
     ar_syscall = [''di'', ''si'', ''dx'', ''r10'', ''r8'', ''r9''],
     ar_ret = ''sp'', ar_fp = Some ''bp'', ar_rc = ''ax'', ar_sp = ''sp'', ar_ip = ''ip''\<rparr>"

definition regs_i386_user :: arch_regs where
  "regs_i386_user = \<lparr>ar_parm = [''eax'', ''edx'', ''ecx''],
     ar_syscall = [''ebx'', ''ecx'', ''edx'', ''esi'', ''edi'', ''ebp''],
     ar_ret = ''esp'', ar_fp = Some ''ebp'', ar_rc = ''eax'', ar_sp = ''esp'', ar_ip = ''eip''\<rparr>"

definition regs_x86_user :: arch_regs where
  "regs_x86_user = \<lparr>ar_parm = [''rdi'', ''rsi'', ''rdx'', ''rcx'', ''r8'', ''r9''],
     ar_syscall = [''rdi'', ''rsi'', ''rdx'', ''r10'', ''r8'', ''r9''],
     ar_ret = ''rsp'', ar_fp = Some ''rbp'', ar_rc = ''rax'', ar_sp = ''rsp'', ar_ip = ''rip''\<rparr>"

definition regs_s390 :: arch_regs where
  "regs_s390 = \<lparr>ar_parm = [''gprs[2]'', ''gprs[3]'', ''gprs[4]'', ''gprs[5]'', ''gprs[6]''],
     ar_syscall = [''orig_gpr2'', ''gprs[3]'', ''gprs[4]'', ''gprs[5]'', ''gprs[6]'', ''gprs[7]''],
     ar_ret = ''gprs[14]'', ar_fp = Some ''gprs[11]'', ar_rc = ''gprs[2]'', ar_sp = ''gprs[15]'',
     ar_ip = ''psw.addr''\<rparr>"

definition regs_arm :: arch_regs where
  "regs_arm = \<lparr>ar_parm = [''uregs[0]'', ''uregs[1]'', ''uregs[2]'', ''uregs[3]''],
     ar_syscall = [''uregs[0]'', ''uregs[1]'', ''uregs[2]'', ''uregs[3]'', ''uregs[4]'', ''uregs[5]'',
       ''uregs[6]''],
     ar_ret = ''uregs[14]'', ar_fp = Some ''uregs[11]'', ar_rc = ''uregs[0]'', ar_sp = ''uregs[13]'',
     ar_ip = ''uregs[12]''\<rparr>"

definition regs_arm64 :: arch_regs where
  "regs_arm64 = \<lparr>ar_parm = [''regs[0]'', ''regs[1]'', ''regs[2]'', ''regs[3]'', ''regs[4]'', ''regs[5]'',
       ''regs[6]'', ''regs[7]''],
     ar_syscall = [''orig_x0'', ''regs[1]'', ''regs[2]'', ''regs[3]'', ''regs[4]'', ''regs[5]''],
     ar_ret = ''regs[30]'', ar_fp = Some ''regs[29]'', ar_rc = ''regs[0]'', ar_sp = ''sp'', ar_ip = ''pc''\<rparr>"

definition regs_mips :: arch_regs where
  "regs_mips = \<lparr>ar_parm = [''regs[4]'', ''regs[5]'', ''regs[6]'', ''regs[7]'', ''regs[8]'', ''regs[9]'',
       ''regs[10]'', ''regs[11]''],
     ar_syscall = [''regs[4]'', ''regs[5]'', ''regs[6]'', ''regs[7]'', ''regs[8]'', ''regs[9]''],
     ar_ret = ''regs[31]'', ar_fp = Some ''regs[30]'', ar_rc = ''regs[2]'', ar_sp = ''regs[29]'',
     ar_ip = ''cp0_epc''\<rparr>"

text \<open>The seventh system call argument exists on 32-bit powerpc only (\<^verbatim>\<open>__arch64__\<close> undefined).\<close>

definition regs_powerpc :: "bool \<Rightarrow> arch_regs" where
  "regs_powerpc arch64 = \<lparr>ar_parm = [''gpr[3]'', ''gpr[4]'', ''gpr[5]'', ''gpr[6]'', ''gpr[7]'', ''gpr[8]'',
       ''gpr[9]'', ''gpr[10]''],
     ar_syscall = [''orig_gpr3'', ''gpr[4]'', ''gpr[5]'', ''gpr[6]'', ''gpr[7]'', ''gpr[8]''] @
       (if arch64 then [] else [''gpr[9]'']),
     ar_ret = ''regs[31]'', ar_fp = None, ar_rc = ''gpr[3]'', ar_sp = ''sp'', ar_ip = ''nip''\<rparr>"

definition regs_sparc :: "bool \<Rightarrow> arch_regs" where
  "regs_sparc arch64 = \<lparr>ar_parm = [''u_regs[UREG_I0]'', ''u_regs[UREG_I1]'', ''u_regs[UREG_I2]'',
       ''u_regs[UREG_I3]'', ''u_regs[UREG_I4]'', ''u_regs[UREG_I5]''],
     ar_syscall = [''u_regs[UREG_I0]'', ''u_regs[UREG_I1]'', ''u_regs[UREG_I2]'', ''u_regs[UREG_I3]'',
       ''u_regs[UREG_I4]'', ''u_regs[UREG_I5]''],
     ar_ret = ''u_regs[UREG_I7]'', ar_fp = None, ar_rc = ''u_regs[UREG_I0]'', ar_sp = ''u_regs[UREG_FP]'',
     ar_ip = (if arch64 then ''tpc'' else ''pc'')\<rparr>"

definition regs_riscv :: arch_regs where
  "regs_riscv = \<lparr>ar_parm = [''a0'', ''a1'', ''a2'', ''a3'', ''a4'', ''a5'', ''a6'', ''a7''],
     ar_syscall = [''orig_a0'', ''a1'', ''a2'', ''a3'', ''a4'', ''a5''],
     ar_ret = ''ra'', ar_fp = Some ''s0'', ar_rc = ''a0'', ar_sp = ''sp'', ar_ip = ''pc''\<rparr>"

definition regs_arc :: arch_regs where
  "regs_arc = \<lparr>ar_parm = [''scratch.r0'', ''scratch.r1'', ''scratch.r2'', ''scratch.r3'', ''scratch.r4'',
       ''scratch.r5'', ''scratch.r6'', ''scratch.r7''],
     ar_syscall = [''scratch.r0'', ''scratch.r1'', ''scratch.r2'', ''scratch.r3'', ''scratch.r4'',
       ''scratch.r5''],
     ar_ret = ''scratch.blink'', ar_fp = Some ''scratch.fp'', ar_rc = ''scratch.r0'', ar_sp = ''scratch.sp'',
     ar_ip = ''scratch.ret''\<rparr>"

definition regs_loongarch :: arch_regs where
  "regs_loongarch = \<lparr>ar_parm = [''regs[4]'', ''regs[5]'', ''regs[6]'', ''regs[7]'', ''regs[8]'', ''regs[9]'',
       ''regs[10]'', ''regs[11]''],
     ar_syscall = [''regs[4]'', ''regs[5]'', ''regs[6]'', ''regs[7]'', ''regs[8]'', ''regs[9]''],
     ar_ret = ''regs[1]'', ar_fp = Some ''regs[22]'', ar_rc = ''regs[4]'', ar_sp = ''regs[3]'',
     ar_ip = ''csr_era''\<rparr>"

text \<open>The programs are compiled against \<^verbatim>\<open>vmlinux.h\<close>, which selects the first of the x86 tables.\<close>

fun arch_table :: "bool \<Rightarrow> target \<Rightarrow> arch_regs" where
  "arch_table arch64 T_x86 = regs_x86"
| "arch_table arch64 T_s390 = regs_s390"
| "arch_table arch64 T_arm = regs_arm"
| "arch_table arch64 T_arm64 = regs_arm64"
| "arch_table arch64 T_mips = regs_mips"
| "arch_table arch64 T_powerpc = regs_powerpc arch64"
| "arch_table arch64 T_sparc = regs_sparc arch64"
| "arch_table arch64 T_riscv = regs_riscv"
| "arch_table arch64 T_arc = regs_arc"
| "arch_table arch64 T_loongarch = regs_loongarch"

section \<open>Accessors\<close>

type_synonym saved_regs = "string \<Rightarrow> u64"

text \<open>
  \<^verbatim>\<open>PT_REGS_PARMn(x)\<close>, counted from 1, and the other accessors of a target, which read a
  register of the context. A parameter the architecture has no register for is
  \<^verbatim>\<open>__unsupported__\<close>, an undeclared name that does not compile: \<open>None\<close>.
\<close>

definition PT_REGS_PARM :: "arch_regs \<Rightarrow> nat \<Rightarrow> saved_regs \<Rightarrow> u64 option" where
  "PT_REGS_PARM a n r =
     (if 1 \<le> n \<and> n \<le> length (ar_parm a) then Some (r (ar_parm a ! (n - 1))) else None)"

definition PT_REGS_RET :: "arch_regs \<Rightarrow> saved_regs \<Rightarrow> u64" where
  "PT_REGS_RET a r = r (ar_ret a)"

definition PT_REGS_FP :: "arch_regs \<Rightarrow> saved_regs \<Rightarrow> u64 option" where
  "PT_REGS_FP a r = map_option r (ar_fp a)"

definition PT_REGS_RC :: "arch_regs \<Rightarrow> saved_regs \<Rightarrow> u64" where
  "PT_REGS_RC a r = r (ar_rc a)"

definition PT_REGS_SP :: "arch_regs \<Rightarrow> saved_regs \<Rightarrow> u64" where
  "PT_REGS_SP a r = r (ar_sp a)"

definition PT_REGS_IP :: "arch_regs \<Rightarrow> saved_regs \<Rightarrow> u64" where
  "PT_REGS_IP a r = r (ar_ip a)"

text \<open>The \<^verbatim>\<open>_CORE\<close> forms read the same registers through a probe of kernel memory: registers that
  cannot be read (\<open>None\<close>) give zero.\<close>

definition core_read_reg :: "saved_regs option \<Rightarrow> saved_regs" where
  "core_read_reg regs name = (case regs of Some r \<Rightarrow> r name | None \<Rightarrow> 0)"

definition PT_REGS_PARM_CORE :: "arch_regs \<Rightarrow> nat \<Rightarrow> saved_regs option \<Rightarrow> u64 option" where
  "PT_REGS_PARM_CORE a n regs = PT_REGS_PARM a n (core_read_reg regs)"

datatype other_reg = R_RET | R_FP | R_RC | R_SP | R_IP

definition PT_REGS_OTHER_CORE :: "arch_regs \<Rightarrow> other_reg \<Rightarrow> saved_regs option \<Rightarrow> u64 option" where
  "PT_REGS_OTHER_CORE a which regs =
     (case which of
        R_RET \<Rightarrow> Some (core_read_reg regs (ar_ret a))
      | R_FP \<Rightarrow> map_option (core_read_reg regs) (ar_fp a)
      | R_RC \<Rightarrow> Some (core_read_reg regs (ar_rc a))
      | R_SP \<Rightarrow> Some (core_read_reg regs (ar_sp a))
      | R_IP \<Rightarrow> Some (core_read_reg regs (ar_ip a)))"

text \<open>System call arguments, and where their registers are: most architectures wrap their system
  calls, so that the first argument points to the registers.\<close>

definition PT_REGS_PARM_SYSCALL :: "arch_regs \<Rightarrow> nat \<Rightarrow> saved_regs \<Rightarrow> u64 option" where
  "PT_REGS_PARM_SYSCALL a n r =
     (if 1 \<le> n \<and> n \<le> length (ar_syscall a) then Some (r (ar_syscall a ! (n - 1))) else None)"

definition PT_REGS_PARM_CORE_SYSCALL :: "arch_regs \<Rightarrow> nat \<Rightarrow> saved_regs option \<Rightarrow> u64 option" where
  "PT_REGS_PARM_CORE_SYSCALL a n regs = PT_REGS_PARM_SYSCALL a n (core_read_reg regs)"

definition PT_REGS_SYSCALL_REGS :: "target \<Rightarrow> arch_regs \<Rightarrow> ptr \<Rightarrow> saved_regs \<Rightarrow> ptr option" where
  "PT_REGS_SYSCALL_REGS t a ctx r =
     (if t \<in> {T_powerpc, T_arc, T_loongarch} then Some ctx else PT_REGS_PARM a 1 r)"

text \<open>Without a target the accessors exist, but each is a compiler diagnostic and 0.\<close>

definition NO_TARGET_PARM :: "nat \<Rightarrow> u64 option" where
  "NO_TARGET_PARM n = (if 1 \<le> n \<and> n \<le> 8 then Some 0 else None)"

definition NO_TARGET_OTHER :: "other_reg \<Rightarrow> u64" where
  "NO_TARGET_OTHER which = (case which of R_RET \<Rightarrow> 0 | R_FP \<Rightarrow> 0 | R_RC \<Rightarrow> 0 | R_SP \<Rightarrow> 0 | R_IP \<Rightarrow> 0)"

definition NO_TARGET_PARM_CORE :: "nat \<Rightarrow> u64 option" where
  "NO_TARGET_PARM_CORE n = (if 1 \<le> n \<and> n \<le> 8 then Some 0 else None)"

definition NO_TARGET_OTHER_CORE :: "other_reg \<Rightarrow> u64" where
  "NO_TARGET_OTHER_CORE which = (case which of R_RET \<Rightarrow> 0 | R_FP \<Rightarrow> 0 | R_RC \<Rightarrow> 0 | R_SP \<Rightarrow> 0 | R_IP \<Rightarrow> 0)"

definition NO_TARGET_PARM_SYSCALL :: "nat \<Rightarrow> u64 option" where
  "NO_TARGET_PARM_SYSCALL n = (if 1 \<le> n \<and> n \<le> 7 then Some 0 else None)"

definition NO_TARGET_PARM_CORE_SYSCALL :: "nat \<Rightarrow> u64 option" where
  "NO_TARGET_PARM_CORE_SYSCALL n = (if 1 \<le> n \<and> n \<le> 7 then Some 0 else None)"

text \<open>\<^verbatim>\<open>BPF_KPROBE_READ_RET_IP\<close>: the return address at the entry of a function, from the link
  register, from the return register, or from the word on top of the stack. At the return
  (\<^verbatim>\<open>BPF_KRETPROBE_READ_RET_IP\<close>) the last case reads the word above the saved frame pointer.\<close>

definition BPF_KPROBE_READ_RET_IP :: "bool \<Rightarrow> target \<Rightarrow> bytemem \<Rightarrow> saved_regs \<Rightarrow> u64" where
  "BPF_KPROBE_READ_RET_IP arch64 t m r =
     (if t = T_powerpc then r ''link''
      else if t = T_sparc \<or> t = T_arm64 then PT_REGS_RET (arch_table arch64 t) r
      else load64 m (PT_REGS_RET (arch_table arch64 t) r))"

definition BPF_KRETPROBE_READ_RET_IP :: "bool \<Rightarrow> target \<Rightarrow> bytemem \<Rightarrow> saved_regs \<Rightarrow> u64 option" where
  "BPF_KRETPROBE_READ_RET_IP arch64 t m r =
     (if t = T_powerpc then Some (r ''link'')
      else if t = T_sparc \<or> t = T_arm64 then Some (PT_REGS_RET (arch_table arch64 t) r)
      else map_option (\<lambda>fp. load64 m (fp + 8)) (PT_REGS_FP (arch_table arch64 t) r))"

section \<open>Counting arguments\<close>

text \<open>\<^verbatim>\<open>___bpf_nth\<close> picks the argument after the first thirteen; \<^verbatim>\<open>___bpf_narg\<close> puts the numbers from
  12 down behind the arguments, so that the one picked is their count. \<^verbatim>\<open>___bpf_narg2\<close> counts
  pairs of a type and a name the same way. Too few arguments for the pick do not expand.\<close>

definition bpf_nth :: "'a list \<Rightarrow> 'a option" where
  "bpf_nth xs = (if 13 < length xs then Some (xs ! 13) else None)"

definition bpf_narg :: "nat list \<Rightarrow> nat option" where
  "bpf_narg args = bpf_nth (0 # args @ [12, 11, 10, 9, 8, 7, 6, 5, 4, 3, 2, 1, 0])"

definition bpf_nth2 :: "'a list \<Rightarrow> 'a option" where
  "bpf_nth2 xs = (if 25 < length xs then Some (xs ! 25) else None)"

definition bpf_narg2 :: "nat list \<Rightarrow> nat option" where
  "bpf_narg2 args = bpf_nth2 (0 # args @ [12, 12, 11, 11, 10, 10, 9, 9, 8, 8, 7, 7, 6, 6, 5, 5, 4, 4, 3, 3, 2, 2, 1, 1, 0])"

section \<open>Argument lists\<close>

text \<open>\<^verbatim>\<open>___bpf_ctx_castn\<close>: the first \<open>n\<close> words of the context, at most 12.\<close>

fun bpf_ctx_cast :: "nat \<Rightarrow> (nat \<Rightarrow> u64) \<Rightarrow> u64 list" where
  "bpf_ctx_cast 0 ctx = []"
| "bpf_ctx_cast (Suc n) ctx = bpf_ctx_cast n ctx @ [ctx n]"

text \<open>\<^verbatim>\<open>___bpf_kprobe_argsn\<close> and the two system call forms, \<open>parm\<close> being the accessor.\<close>

fun bpf_kprobe_args :: "nat \<Rightarrow> (nat \<Rightarrow> u64 option) \<Rightarrow> u64 option list" where
  "bpf_kprobe_args 0 parm = []"
| "bpf_kprobe_args (Suc n) parm = bpf_kprobe_args n parm @ [parm (Suc n)]"

text \<open>\<^verbatim>\<open>___bpf_treg_cnt\<close>: the context words an argument of the given size takes; other sizes do
  not compile.\<close>

fun bpf_treg_cnt :: "nat \<Rightarrow> nat option" where
  "bpf_treg_cnt sz = (if sz \<in> {1, 2, 4, 8} then Some 1 else if sz = 16 then Some 2 else None)"

declare bpf_treg_cnt.simps [simp del]

text \<open>\<^verbatim>\<open>___bpf_reg_cntn\<close> adds up the words of a list of arguments, given by their sizes.\<close>

fun bpf_reg_cnt :: "nat list \<Rightarrow> nat" where
  "bpf_reg_cnt [] = 0"
| "bpf_reg_cnt (t # args) = bpf_reg_cnt args + the (bpf_treg_cnt t)"

text \<open>\<^verbatim>\<open>___bpf_union_arg(t, x, n)\<close>: the bytes of the argument, from word \<open>n\<close> of the context and,
  for 16-byte arguments, the next one.\<close>

definition bpf_union_arg :: "nat \<Rightarrow> (nat \<Rightarrow> u64) \<Rightarrow> nat \<Rightarrow> bytes" where
  "bpf_union_arg t ctx n =
     (if t = 16 then to_le 8 (ctx n) @ to_le 8 (ctx (n + 1)) else to_le t (ctx n))"

text \<open>\<^verbatim>\<open>___bpf_ctx_argn(n, ...)\<close>, where \<open>n\<close> is the word count of all the arguments: each argument
  starts at \<open>n\<close> minus the words of itself and of those after it.\<close>

fun bpf_ctx_arg :: "nat \<Rightarrow> nat list \<Rightarrow> (nat \<Rightarrow> u64) \<Rightarrow> bytes list" where
  "bpf_ctx_arg n [] ctx = []"
| "bpf_ctx_arg n (t # args) ctx =
     bpf_union_arg t ctx (n - bpf_reg_cnt (t # args)) # bpf_ctx_arg n args ctx"

definition BPF_PROG2_args :: "nat list \<Rightarrow> (nat \<Rightarrow> u64) \<Rightarrow> bytes list" where
  "BPF_PROG2_args sizes ctx = bpf_ctx_arg (bpf_reg_cnt sizes) sizes ctx"

text \<open>\<^verbatim>\<open>___bpf_syscall_argsn\<close> and \<^verbatim>\<open>___bpf_syswrap_argsn\<close>: the system call arguments of registers in
  the context, and of registers that have to be probed.\<close>

definition bpf_syscall_args :: "arch_regs \<Rightarrow> nat \<Rightarrow> saved_regs \<Rightarrow> u64 option list" where
  "bpf_syscall_args a n regs = bpf_kprobe_args n (\<lambda>i. PT_REGS_PARM_SYSCALL a i regs)"

definition bpf_syswrap_args :: "arch_regs \<Rightarrow> nat \<Rightarrow> saved_regs option \<Rightarrow> u64 option list" where
  "bpf_syswrap_args a n regs = bpf_kprobe_args n (\<lambda>i. PT_REGS_PARM_CORE_SYSCALL a i regs)"

text \<open>\<^verbatim>\<open>BPF_KSYSCALL\<close>: where the kernel wraps its system calls, the first argument points to the
  registers of the call; otherwise the context has them itself. \<open>regs_at\<close> are the registers
  saved at an address, if it can be read. \<^verbatim>\<open>BPF_KRETPROBE\<close> passes the return value.\<close>

definition BPF_KSYSCALL_args ::
  "bool \<Rightarrow> arch_regs \<Rightarrow> nat \<Rightarrow> (ptr \<Rightarrow> saved_regs option) \<Rightarrow> saved_regs \<Rightarrow> u64 option list" where
  "BPF_KSYSCALL_args has_wrapper a n regs_at ctx =
     (if has_wrapper
      then bpf_syswrap_args a n (case PT_REGS_PARM a 1 ctx of Some p \<Rightarrow> regs_at p | None \<Rightarrow> None)
      else bpf_syscall_args a n ctx)"

fun bpf_kretprobe_args :: "nat \<Rightarrow> arch_regs \<Rightarrow> saved_regs \<Rightarrow> u64 list" where
  "bpf_kretprobe_args 0 a ctx = []"
| "bpf_kretprobe_args (Suc n) a ctx = [PT_REGS_RC a ctx]"

section \<open>Arguments beyond the registers\<close>

definition NR_REG_ARGUMENTS :: nat where "NR_REG_ARGUMENTS = 6"
definition NR_ARM64_MAX_REG_ARGUMENTS :: nat where "NR_ARM64_MAX_REG_ARGUMENTS = 31"

definition regs_get_kernel_stack_nth_addr :: "bytemem \<Rightarrow> saved_regs \<Rightarrow> nat \<Rightarrow> u64" where
  "regs_get_kernel_stack_nth_addr m regs n =
     (let (rc, bs) = probe_read m 8 (regs ''sp'' + of_nat (8 * n))
      in if rc \<noteq> 0 then 0 else le_word bs)"

text \<open>\<open>arm64_regs n\<close> names element \<open>n\<close> of the register array, the way the table does.\<close>

definition arm64_reg_name :: "nat \<Rightarrow> string" where
  "arm64_reg_name n =
     ''regs['' @ (if n < 10 then [char_of (48 + n)] else [char_of (48 + n div 10), char_of (48 + n mod 10)]) @ '']''"

definition regs_get_nth_argument :: "target \<Rightarrow> bytemem \<Rightarrow> saved_regs \<Rightarrow> nat \<Rightarrow> u64 option" where
  "regs_get_nth_argument t m regs n =
     (if n < 6 then PT_REGS_PARM_CORE (arch_table True t) (n + 1) (Some regs)
      else if t = T_arm64 then
        (if n < NR_ARM64_MAX_REG_ARGUMENTS then Some (regs (arm64_reg_name n)) else Some 0)
      else if t = T_x86 then
        Some (regs_get_kernel_stack_nth_addr m regs (n - (NR_REG_ARGUMENTS - 1)))
      else Some 0)"

section \<open>Facts\<close>

lemma bpf_ctx_cast_map: "bpf_ctx_cast n ctx = map ctx [0..<n]"
  by (induction n) simp_all

lemma bpf_kprobe_args_map: "bpf_kprobe_args n parm = map parm [1..<Suc n]"
  by (induction n) simp_all

text \<open>
  The caller's side, written down without the macros. The System V convention passes six arguments
  in registers, in a fixed order; at the entry of the function the stack pointer is on the return
  address and the other arguments are above it. The kernel's trampoline puts the arguments of a
  traced function, given by their bytes, into the context one after the other, each from the start
  of a word on; \<open>ctx_byte\<close> is the context as an array of bytes.
\<close>

definition sysv_arg_regs :: "string list" where
  "sysv_arg_regs = [''di'', ''si'', ''dx'', ''cx'', ''r8'', ''r9'']"

definition sysv_entry :: "bytemem \<Rightarrow> saved_regs \<Rightarrow> u64 list \<Rightarrow> bool" where
  "sysv_entry m regs args \<longleftrightarrow>
     (\<forall>i < length args. i < 6 \<longrightarrow> regs (sysv_arg_regs ! i) = args ! i) \<and>
     (\<forall>i < length args. 6 \<le> i \<longrightarrow>
        probe_read m 8 (regs ''sp'' + of_nat (8 * (i - 5))) = (0, to_le 8 (args ! i)))"

definition ctx_byte :: "(nat \<Rightarrow> u64) \<Rightarrow> nat \<Rightarrow> u8" where
  "ctx_byte ctx k = ucast (drop_bit (8 * (k mod 8)) (ctx (k div 8)))"

fun placed_from :: "nat \<Rightarrow> bytes list \<Rightarrow> (nat \<Rightarrow> u64) \<Rightarrow> bool" where
  "placed_from off [] ctx \<longleftrightarrow> True"
| "placed_from off (bs # args) ctx \<longleftrightarrow>
     (\<forall>i < length bs. ctx_byte ctx (off + i) = bs ! i) \<and>
     placed_from (off + (length bs + 7) div 8 * 8) args ctx"

lemma to_le_ctx_bytes:
  assumes "n \<le> 8" "\<And>i. i < n \<Longrightarrow> ctx_byte ctx (8 * k + i) = bs ! i" "length bs = n"
  shows "to_le n (ctx k) = bs"
  by (rule nth_equalityI) (use assms in \<open>auto simp: to_le_def ctx_byte_def\<close>)

lemma bpf_union_arg_placed:
  assumes "length bs \<in> {1, 2, 4, 8, 16}" "\<And>i. i < length bs \<Longrightarrow> ctx_byte ctx (8 * k + i) = bs ! i"
  shows "bpf_union_arg (length bs) ctx k = bs"
proof (cases "length bs = 16")
  case True
  then have "to_le 8 (ctx k) = take 8 bs"
    using assms(2) by (intro to_le_ctx_bytes) auto
  moreover have "to_le 8 (ctx (Suc k)) = drop 8 bs"
    using True assms(2) [of "8 + _"] by (intro to_le_ctx_bytes) (auto simp: algebra_simps)
  ultimately show ?thesis using True by (simp add: bpf_union_arg_def)
next
  case False
  then show ?thesis
    using assms by (auto simp: bpf_union_arg_def intro!: to_le_ctx_bytes)
qed

lemma bpf_treg_cnt_words:
  "sz \<in> {1, 2, 4, 8, 16} \<Longrightarrow> bpf_treg_cnt sz = Some ((sz + 7) div 8)"
  by (auto simp: bpf_treg_cnt.simps)

lemma bpf_ctx_arg_placed:
  assumes "\<forall>bs \<in> set args. length bs \<in> {1, 2, 4, 8, 16}" "placed_from (8 * k) args ctx"
    and "n = k + bpf_reg_cnt (map length args)"
  shows "bpf_ctx_arg n (map length args) ctx = args"
  using assms
proof (induction args arbitrary: k)
  case (Cons bs args)
  let ?w = "(length bs + 7) div 8"
  have sz: "length bs \<in> {1, 2, 4, 8, 16}" using Cons.prems(1) by simp
  have "placed_from (8 * (k + ?w)) args ctx" using Cons.prems(2) by (simp add: algebra_simps)
  moreover have "n = (k + ?w) + bpf_reg_cnt (map length args)"
    using Cons.prems(3) bpf_treg_cnt_words [OF sz] by simp
  ultimately have "bpf_ctx_arg n (map length args) ctx = args"
    using Cons.IH Cons.prems(1) by simp
  moreover have "bpf_union_arg (length bs) ctx k = bs"
    using Cons.prems(2) by (intro bpf_union_arg_placed [OF sz]) simp
  ultimately show ?case using Cons.prems(3) by simp
qed simp

lemma placed_scalar:
  assumes "\<forall>bs \<in> set args. length bs \<in> {1, 2, 4, 8}" "placed_from (8 * k) args ctx" "i < length args"
  shows "to_le (length (args ! i)) (ctx (k + i)) = args ! i"
  using assms
proof (induction args arbitrary: k i)
  case (Cons bs args)
  then have "(length bs + 7) div 8 = 1" by auto
  then have rest: "placed_from (8 * Suc k) args ctx" using Cons.prems(2) by (simp add: algebra_simps)
  show ?case
  proof (cases i)
    case 0
    then show ?thesis using Cons.prems(1,2) by (auto intro!: to_le_ctx_bytes)
  next
    case (Suc j)
    then show ?thesis using Cons.IH [OF _ rest, of j] Cons.prems(1,3) by simp
  qed
qed simp

lemma PT_REGS_PARM_sysv:
  assumes "sysv_entry m regs args" "n < length args" "n < 6"
  shows "PT_REGS_PARM regs_x86 (Suc n) regs = Some (args ! n)"
proof -
  have "ar_parm regs_x86 = sysv_arg_regs" by (simp add: regs_x86_def sysv_arg_regs_def)
  moreover have "length sysv_arg_regs = 6" by (simp add: sysv_arg_regs_def)
  ultimately show ?thesis using assms by (simp add: PT_REGS_PARM_def sysv_entry_def)
qed

text \<open>C16: The argument macros deliver the arguments the caller passed. Let the trampoline have put
  arguments of 1, 2, 4, 8 or 16 bytes into the context, each from the start of a word on: then
  \<^verbatim>\<open>BPF_PROG2\<close>, which counts words from the end of the list, gives exactly the bytes of every
  argument, and if none has 16 bytes the words \<^verbatim>\<open>BPF_PROG\<close> passes, each cut to the size of its
  argument, are the arguments too. At the entry of a function called by the System V convention of
  x86-64, \<^verbatim>\<open>BPF_KPROBE\<close> with \<open>n\<close> parameters, at most six and at most the number passed, gets the
  first \<open>n\<close> arguments.\<close>

theorem argument_macros_layout:
  assumes "\<forall>bs \<in> set args. length bs \<in> {1, 2, 4, 8, 16}" "placed_from 0 args ctx"
    and "sysv_entry m regs vals" "n \<le> 6" "n \<le> length vals"
  shows "BPF_PROG2_args (map length args) ctx = args \<and>
    ((\<forall>bs \<in> set args. length bs \<noteq> 16) \<longrightarrow>
       map2 (\<lambda>bs w. to_le (length bs) w) args (bpf_ctx_cast (length args) ctx) = args) \<and>
    bpf_kprobe_args n (\<lambda>i. PT_REGS_PARM (arch_table True T_x86) i regs) = map Some (take n vals)"
proof -
  have "BPF_PROG2_args (map length args) ctx = args"
    using bpf_ctx_arg_placed [of args 0] assms(1,2) by (simp add: BPF_PROG2_args_def)
  moreover have "map2 (\<lambda>bs w. to_le (length bs) w) args (bpf_ctx_cast (length args) ctx) = args"
    if "\<forall>bs \<in> set args. length bs \<noteq> 16"
    by (rule nth_equalityI)
      (use assms(1,2) that placed_scalar [of args 0 ctx] in \<open>auto simp: bpf_ctx_cast_map\<close>)
  moreover have "bpf_kprobe_args n (\<lambda>i. PT_REGS_PARM (arch_table True T_x86) i regs) = map Some (take n vals)"
    by (rule nth_equalityI)
      (use assms(4,5) PT_REGS_PARM_sysv [OF assms(3)] in \<open>auto simp: bpf_kprobe_args_map simp del: upt_Suc\<close>)
  ultimately show ?thesis by blast
qed

text \<open>Two words for the first argument, one for the second; two register arguments.\<close>

theorem argument_macros_layout_witness:
  "BPF_PROG2_args [16, 4] (\<lambda>i. if i = 2 then 7 else 0) = [replicate 16 0, [7, 0, 0, 0]] \<and>
   bpf_kprobe_args 2 (\<lambda>i. PT_REGS_PARM (arch_table True T_x86) i (\<lambda>r. if r = ''si'' then 9 else 0)) =
     [Some 0, Some 9]"
proof -
  have "sysv_entry (\<lambda>_. None) (\<lambda>r. if r = ''si'' then 9 else 0) [0, 9]"
    by (auto simp: sysv_entry_def sysv_arg_regs_def less_Suc_eq)
  moreover have "placed_from 0 [replicate 16 0, [7, 0, 0, 0]] (\<lambda>i. if i = 2 then 7 else 0)"
    by code_simp
  moreover have "map length [replicate 16 0, [7, 0, 0, 0 :: u8]] = [16, 4]"
    "map Some [0, 9 :: u64] = [Some 0, Some 9]" by simp_all
  ultimately show ?thesis
    using argument_macros_layout [of "[replicate 16 0, [7, 0, 0, 0]]" "\<lambda>i. if i = 2 then 7 else 0"
        "\<lambda>_. None" "\<lambda>r. if r = ''si'' then 9 else 0" "[0, 9]" 2]
    by (simp del: list.map placed_from.simps)
qed

lemma bpf_narg_length:
  assumes "length args \<le> 12"
  shows "bpf_narg args = Some (length args)"
proof -
  have down: "[12, 11, 10, 9, 8, 7, 6, 5, 4, 3, 2, 1, 0] = map (\<lambda>i. 12 - i) [0..<13]"
    by (simp add: upt_rec)
  have "(0 # args @ map (\<lambda>i. 12 - i) [0..<13]) ! 13 = length args"
    using assms by (simp add: nth_append)
  then show ?thesis using assms by (simp add: bpf_narg_def bpf_nth_def flip: down)
qed

lemma bpf_narg2_length:
  assumes "length args \<le> 24" "even (length args)"
  shows "bpf_narg2 args = Some (length args div 2)"
proof -
  have down: "[12, 12, 11, 11, 10, 10, 9, 9, 8, 8, 7, 7, 6, 6, 5, 5, 4, 4, 3, 3, 2, 2, 1, 1, 0] =
      map (\<lambda>i. (25 - i) div 2) [0..<25]"
    by (simp add: upt_rec)
  have "(0 # args @ map (\<lambda>i. (25 - i) div 2) [0..<25]) ! 25 = (25 - (24 - length args)) div 2"
  proof -
    have "[0..<25] ! (24 - length args) = 24 - length args" by (subst nth_upt) simp_all
    then show ?thesis using assms(1) by (simp add: nth_append nth_map del: nth_upt)
  qed
  also have "\<dots> = length args div 2"
  proof -
    obtain k where "length args = 2 * k" using assms(2) by (elim evenE)
    moreover have "25 - (24 - 2 * k) = Suc (2 * k)" using assms(1) calculation by linarith
    ultimately show ?thesis by simp
  qed
  finally show ?thesis using assms(1) by (simp add: bpf_narg2_def bpf_nth2_def flip: down)
qed

text \<open>The argument counters of the macros count: up to twelve arguments, and up to twelve pairs of a
  type and a name.\<close>

theorem argument_counters_count:
  assumes "length args \<le> 12" "length pairs \<le> 24" "even (length pairs)"
  shows "bpf_narg args = Some (length args) \<and> bpf_narg2 pairs = Some (length pairs div 2)"
  using bpf_narg_length bpf_narg2_length assms by blast

theorem argument_counters_count_witness:
  "bpf_narg [1, 1, 1] = Some 3 \<and> bpf_narg2 [0, 1, 0, 1] = Some 2"
  using argument_counters_count [of "[1, 1, 1]" "[0, 1, 0, 1]"] by simp

text \<open>Each register table names three to eight parameter registers, all different, and six or seven
  different system call registers; the program counter is none of the parameter registers.\<close>

theorem register_tables_distinct:
  "let a = arch_table arch64 t
   in distinct (ar_parm a) \<and> length (ar_parm a) \<in> {3..8} \<and>
      distinct (ar_syscall a) \<and> length (ar_syscall a) \<in> {6, 7} \<and> ar_ip a \<notin> set (ar_parm a)"
  by (cases t; cases arch64)
    (simp_all add: regs_x86_def regs_s390_def regs_arm_def regs_arm64_def regs_mips_def regs_powerpc_def
      regs_sparc_def regs_riscv_def regs_arc_def regs_loongarch_def)

text \<open>C36: On x86-64, at the entry of a function called by the System V convention (the first six arguments
  in \<open>di\<close>, \<open>si\<close>, \<open>dx\<close>, \<open>cx\<close>, \<open>r8\<close>, \<open>r9\<close>, the others above the return address on the stack, which
  can be read), asking for argument \<open>n\<close>, counted from 0, gives argument \<open>n\<close>, from its register or
  from the stack.\<close>

theorem regs_get_nth_argument_sysv:
  assumes "sysv_entry m regs args" and "n < length args"
  shows "regs_get_nth_argument T_x86 m regs n = Some (args ! n)"
proof (cases "n < 6")
  case True
  have "core_read_reg (Some regs) = regs" by (simp add: fun_eq_iff core_read_reg_def)
  with True show ?thesis
    using PT_REGS_PARM_sysv [OF assms True] by (simp add: regs_get_nth_argument_def PT_REGS_PARM_CORE_def)
next
  case False
  then have "probe_read m 8 (regs ''sp'' + of_nat (8 * (n - 5))) = (0, to_le 8 (args ! n))"
    using assms by (simp add: sysv_entry_def)
  with False show ?thesis
    by (simp add: regs_get_nth_argument_def regs_get_kernel_stack_nth_addr_def NR_REG_ARGUMENTS_def
        le_word_to_le del: of_nat_mult)
qed

text \<open>Seven arguments, in six different registers and on the stack: the third and the seventh.\<close>

theorem regs_get_nth_argument_sysv_witness:
  "let regs = (\<lambda>r. if r = ''sp'' then 4096 else if r = ''dx'' then 30 else if r = ''cx'' then 40 else 0)
   in regs_get_nth_argument T_x86 (\<lambda>_. Some 0) regs 2 = Some 30 \<and>
      regs_get_nth_argument T_x86 (\<lambda>_. Some 0) regs 6 = Some 0"
proof -
  let ?regs = "\<lambda>r. if r = ''sp'' then 4096 else if r = ''dx'' then 30 else if r = ''cx'' then 40 else 0 :: u64"
  have "probe_read (\<lambda>_. Some 0) 8 a = (0, to_le 8 (0 :: u64))" for a
    by (subst probe_read_ok [where f = "\<lambda>_. 0"]) (simp_all add: to_le_def map_replicate_const)
  then have "sysv_entry (\<lambda>_. Some 0) ?regs [0, 0, 30, 40, 0, 0, 0]"
    by (auto simp: sysv_entry_def sysv_arg_regs_def less_Suc_eq numeral_eq_Suc)
  from regs_get_nth_argument_sysv [OF this, of 2] regs_get_nth_argument_sysv [OF this, of 6]
  show ?thesis by simp
qed

text \<open>On arm64 the arguments from the ninth on, which the calling convention passes on the stack, are
  read from the register array: the result does not depend on memory.\<close>

theorem regs_get_nth_argument_arm64_registers:
  "regs_get_nth_argument T_arm64 m regs n = regs_get_nth_argument T_arm64 m' regs n \<and>
   regs_get_nth_argument T_arm64 m regs 8 = Some (regs ''regs[8]'')"
  by (simp add: regs_get_nth_argument_def NR_ARM64_MAX_REG_ARGUMENTS_def arm64_reg_name_def)
    (simp add: char_of_def bit_iff_odd)

end
