(* ===== verification/Nft_Trace.thy ===== *)
theory Nft_Trace
  imports Common Packet
begin

text \<open>
  \<^verbatim>\<open>ebpf/nftrace-trace.c\<close>: the nftables tracer. One probe fills an event from the
  packet, the rule and the verdict; the packet headers are read from the linear
  buffer of the socket buffer. The lookup in \<^verbatim>\<open>conn_ctx_map\<close>, whose result only chooses
  a debug message, is left out, and so is the debug output itself.
\<close>

section \<open>Constants and state\<close>

definition KERNEL_VERSION :: "nat \<Rightarrow> nat \<Rightarrow> nat \<Rightarrow> nat" where
  "KERNEL_VERSION a b c = a * 65536 + b * 256 + (if c > 255 then 255 else c)"

definition COMPILE_LINUX_VERSION_CODE :: nat where
  "COMPILE_LINUX_VERSION_CODE = KERNEL_VERSION 6 8 0"

definition ETH_P_IP :: u16 where [c_consts]: "ETH_P_IP = 0x0800"
definition ETH_P_IPV6 :: u16 where [c_consts]: "ETH_P_IPV6 = 0x86DD"
definition NFPROTO_IPV4 :: u8 where [c_consts]: "NFPROTO_IPV4 = 2"
definition NFPROTO_IPV6 :: u8 where [c_consts]: "NFPROTO_IPV6 = 10"

record trace_info =
  tr_skb_hash :: u32
  tr_sk_info :: trace_sk_info
  tr_dev_info :: trace_dev_info
  tr_nft_info :: trace_nft_info
  tr_conn_info :: trace_conn_info
  tr_process_info :: trace_process_info

definition zero_trace_info :: trace_info where
  "zero_trace_info =
     \<lparr>tr_skb_hash = 0,
      tr_sk_info = \<lparr>si_sock_id = 0, si_rx_dst_ifindex = 0, si_backlog_len = 0, si_rcv_buff = 0,
        si_snd_buff = 0, si_priority = 0, si_mark = 0, si_type = 0\<rparr>,
      tr_dev_info = \<lparr>di_iif_name = replicate 16 0, di_oif_name = replicate 16 0, di_iif = 0,
        di_oif = 0, di_iif_type = 0, di_oif_type = 0\<rparr>,
      tr_nft_info = \<lparr>ni_type = 0, ni_verdict = 0, ni_table_name = replicate 64 0, ni_table_handle = 0,
        ni_chain_name = replicate 64 0, ni_chain_handle = 0, ni_rule_handle = 0,
        ni_jump_target = replicate 64 0, ni_nf_proto = 0, ni_policy = 0, ni_len = 0, ni_mark = 0,
        ni_base_chain_family = 0\<rparr>,
      tr_conn_info = zero_trace_conn_info,
      tr_process_info = \<lparr>pi_name = replicate 64 0, pi_pid = 0, pi_tgid = 0\<rparr>\<rparr>"

definition trace_info_size :: nat where
  "trace_info_size = 512"

definition nft_events_init :: "trace_info ringbuf" where
  "nft_events_init = \<lparr>rb_avail = 4096, rb_pending = 0, rb_out = []\<rparr>"

abbreviation map_conn :: "(trace_conn_info \<Rightarrow> trace_conn_info) \<Rightarrow> trace_info \<Rightarrow> trace_info" where
  "map_conn f t \<equiv> t\<lparr>tr_conn_info := f (tr_conn_info t)\<rparr>"

abbreviation map_nft :: "(trace_nft_info \<Rightarrow> trace_nft_info) \<Rightarrow> trace_info \<Rightarrow> trace_info" where
  "map_nft f t \<equiv> t\<lparr>tr_nft_info := f (tr_nft_info t)\<rparr>"

section \<open>Header pointers\<close>

definition skb_mac_header_was_set :: "sk_buff \<Rightarrow> bool" where
  "skb_mac_header_was_set skb \<longleftrightarrow> skb_mac_header skb \<noteq> 0xFFFF"

definition skb_mac_header_ptr :: "sk_buff \<Rightarrow> ptr" where
  "skb_mac_header_ptr skb = skb_head skb + ucast (skb_mac_header skb)"

definition skb_network_header_ptr :: "sk_buff \<Rightarrow> ptr" where
  "skb_network_header_ptr skb = skb_head skb + ucast (skb_network_header skb)"

definition skb_end_ptr :: "sk_buff \<Rightarrow> ptr" where
  "skb_end_ptr skb = skb_head skb + ucast (skb_end skb)"

section \<open>Network and transport headers\<close>

text \<open>The last bytes of the switch: \<^verbatim>\<open>code\<close> and \<^verbatim>\<open>type\<close> are single bytes that go through the
  16-bit \<^verbatim>\<open>bpf_ntohs\<close> and back into a byte.\<close>

definition byte_ntohs :: "u8 \<Rightarrow> u8" where
  "byte_ntohs b = ucast (ntohs (ucast b))"

definition handle_nft_ipv4 :: "bytemem \<Rightarrow> sk_buff \<Rightarrow> trace_info \<times> int \<Rightarrow> trace_info \<times> int" where
  "handle_nft_ipv4 m skb te =
     (let (trace, err) = te;
          end = skb_end_ptr skb;
          iph = skb_network_header_ptr skb
      in if iph + of_nat IP_HLEN > end then (trace, CLEAN_ERR_FAILED)
         else
           (let ip = iphdr_at m iph;
                trace = map_conn (\<lambda>c. c\<lparr>ci_protocol := ip_protocol ip, ci_src_ip := ntohl (ip_saddr ip),
                          ci_dest_ip := ntohl (ip_daddr ip)\<rparr>) trace;
                trace = map_nft (\<lambda>n. n\<lparr>ni_len := ntohs (ip_tot_len ip)\<rparr>) trace;
                l4 = iph + of_nat (ip_ihl ip * 4);
                proto = ucast (ip_protocol ip)
            in if proto = IPPROTO_TCP then
                 if l4 + of_nat TCP_HLEN > end then (trace, CLEAN_ERR_FAILED)
                 else (map_conn (\<lambda>c. c\<lparr>ci_src_port := ntohs (tcp_source (tcphdr_at m l4)),
                         ci_dest_port := ntohs (tcp_dest (tcphdr_at m l4))\<rparr>) trace, err)
               else if proto = IPPROTO_UDP then
                 if l4 + of_nat UDP_HLEN > end then (trace, CLEAN_ERR_FAILED)
                 else (map_conn (\<lambda>c. c\<lparr>ci_src_port := ntohs (udp_source (udphdr_at m l4)),
                         ci_dest_port := ntohs (udp_dest (udphdr_at m l4))\<rparr>) trace, err)
               else if proto = IPPROTO_ICMP then
                 (let ich = iph + of_nat IP_HLEN
                  in if ich + of_nat ICMP_HLEN > end then (trace, CLEAN_ERR_FAILED)
                     else (map_conn (\<lambda>c. c\<lparr>ci_icmp_info :=
                         \<lparr>ic_type = byte_ntohs (icmp_type (icmphdr_at m ich)),
                          ic_code = byte_ntohs (icmp_code (icmphdr_at m ich))\<rparr>\<rparr>) trace, err))
               else (trace, CLEAN_ERR_FAILED)))"

definition handle_nft_ipv6 :: "bytemem \<Rightarrow> sk_buff \<Rightarrow> trace_info \<times> int \<Rightarrow> trace_info \<times> int" where
  "handle_nft_ipv6 m skb te =
     (let (trace, err) = te;
          end = skb_end_ptr skb;
          ip6h = skb_network_header_ptr skb
      in if ip6h + of_nat IP6_HLEN > end then (trace, CLEAN_ERR_FAILED)
         else
           (let ip6 = ipv6hdr_at m ip6h;
                trace = map_conn (\<lambda>c. c\<lparr>ci_protocol := ip6_nexthdr ip6, ci_src_ip6 := ip6_saddr ip6,
                          ci_dest_ip6 := ip6_daddr ip6\<rparr>) trace;
                trace = map_nft (\<lambda>n. n\<lparr>ni_len := ntohs (ip6_payload_len ip6)\<rparr>) trace;
                l4 = ip6h + of_nat IP6_HLEN;
                proto = ucast (ip6_nexthdr ip6)
            in if proto = IPPROTO_TCP then
                 if l4 + of_nat TCP_HLEN > end then (trace, CLEAN_ERR_FAILED)
                 else (map_conn (\<lambda>c. c\<lparr>ci_src_port := ntohs (tcp_source (tcphdr_at m l4)),
                         ci_dest_port := ntohs (tcp_dest (tcphdr_at m l4))\<rparr>) trace, err)
               else if proto = IPPROTO_UDP then
                 if l4 + of_nat UDP_HLEN > end then (trace, CLEAN_ERR_FAILED)
                 else (map_conn (\<lambda>c. c\<lparr>ci_src_port := ntohs (udp_source (udphdr_at m l4)),
                         ci_dest_port := ntohs (udp_dest (udphdr_at m l4))\<rparr>) trace, err)
               else if proto = IPPROTO_ICMPV6 then
                 if l4 + of_nat ICMP_HLEN > end then (trace, CLEAN_ERR_FAILED)
                 else (map_conn (\<lambda>c. c\<lparr>ci_icmp_info :=
                         \<lparr>ic_type = byte_ntohs (icmp_type (icmphdr_at m l4)),
                          ic_code = byte_ntohs (icmp_code (icmphdr_at m l4))\<rparr>\<rparr>) trace, err)
               else (trace, CLEAN_ERR_FAILED)))"

section \<open>The event\<close>

definition fill_trace_pkt_info ::
  "kernel \<Rightarrow> ptr \<Rightarrow> trace_info \<times> int \<Rightarrow> trace_info \<times> int" where
  "fill_trace_pkt_info k pkt te =
     (let (trace, err) = te;
          skb = skb_at k (np_skb (nft_pktinfo_at k pkt));
          sk = sk_at k (so_sk (socket_at k (sk_socket (sk_at k (skb_sk skb)))));
          head = skb_head skb;
          end = skb_end_ptr skb
      in if head = NULL \<or> end = NULL \<or> head \<ge> end then (trace, CLEAN_ERR_FAILED)
         else if \<not> skb_mac_header_was_set skb then (trace, CLEAN_ERR_FAILED)
         else
           (let eth = skb_mac_header_ptr skb
            in if eth + of_nat ETH_HLEN > end then (trace, CLEAN_ERR_FAILED)
               else
                 (let eh = ethhdr_at (k_mem k) eth
                  in if ntohs (eth_h_proto eh) \<noteq> ETH_P_IPV6 \<and> ntohs (eth_h_proto eh) \<noteq> ETH_P_IP
                       then (trace, err)
                     else if skc_rcv_saddr sk = 0 \<or> skc_daddr sk = 0 then (trace, CLEAN_ERR_FAILED)
                     else
                       (let trace = map_conn (\<lambda>c. c\<lparr>ci_src_mac := eth_h_source eh,
                                      ci_dest_mac := eth_h_dest eh\<rparr>) trace;
                            pf = hs_pf (hook_at k (np_state (nft_pktinfo_at k pkt)))
                        in if pf = NFPROTO_IPV4 then handle_nft_ipv4 (k_mem k) skb (trace, err)
                           else if pf = NFPROTO_IPV6 then handle_nft_ipv6 (k_mem k) skb (trace, err)
                           else (trace, err)))))"

definition fill_trace ::
  "run_ctx \<Rightarrow> kernel \<Rightarrow> ptr \<Rightarrow> ptr \<Rightarrow> ptr \<Rightarrow> ptr \<Rightarrow> trace_info \<times> int \<Rightarrow> trace_info \<times> int" where
  "fill_trace c k pkt verdict rule info te =
     (let (trace, err) = te;
          sk = hs_sk (hook_at k (np_state (nft_pktinfo_at k pkt)));
          trace = trace\<lparr>tr_process_info := fill_process_info c, tr_sk_info := set_sk_info k sk,
                        tr_dev_info := set_dev_info k (tr_dev_info trace) pkt,
                        tr_nft_info := set_nft_info k (tr_nft_info trace) pkt verdict rule info\<rparr>
      in fill_trace_pkt_info k pkt (trace, err))"

text \<open>Before kernel 6.4 the probed function has the trace information as its only argument and the
  other pointers are in it; the arguments \<open>pkt\<close>, \<open>verdict\<close> and \<open>rule\<close> exist from 6.4 on.\<close>

definition nft_probe_args ::
  "nat \<Rightarrow> kernel \<Rightarrow> ptr \<Rightarrow> ptr \<Rightarrow> ptr \<Rightarrow> ptr \<Rightarrow> ptr \<times> ptr \<times> ptr" where
  "nft_probe_args version k pkt verdict rule info =
     (if version < KERNEL_VERSION 6 4 0
      then (let ti = nft_traceinfo_at k info in (ti_pkt ti, ti_verdict ti, ti_rule ti))
      else (pkt, verdict, rule))"

definition kprobe_nft_trace_packet ::
  "nat \<Rightarrow> run_ctx \<Rightarrow> kernel \<Rightarrow> ptr \<Rightarrow> ptr \<Rightarrow> ptr \<Rightarrow> ptr \<Rightarrow> trace_info ringbuf \<Rightarrow> trace_info ringbuf" where
  "kprobe_nft_trace_packet version c k pkt verdict rule info events =
     guard_rb events trace_info_size
       (let (pkt, verdict, rule) = nft_probe_args version k pkt verdict rule info;
            (trace, err) = fill_trace c k pkt verdict rule info (zero_trace_info, CLEAN_ERR_INIT)
        in (trace, if err = CLEAN_ERR_INIT then CLEAN_ERR_SUCCESS else err))"

definition fentry_nft_do_chain :: "trace_info ringbuf \<Rightarrow> trace_info ringbuf" where
  "fentry_nft_do_chain events = events"

end
