(* ===== verification/Ipt_Trace.thy ===== *)
theory Ipt_Trace
  imports Skb_Helpers Trace_Args Nft_Trace
begin

text \<open>
  \<^verbatim>\<open>ebpf/iptables-trace.c\<close>: entry and return probes of \<^verbatim>\<open>ipt_do_table\<close> and
  \<^verbatim>\<open>nft_do_chain\<close>, tied together by a hash map keyed by the current task, and a probe of
  \<^verbatim>\<open>nf_log_trace\<close>. An event is built in a ring buffer reservation and sent through a perf
  event array; the reservation itself is given back by the scope guard. The branch for kernels
  before 5.16, which names a function that does not exist, is left out.
\<close>

section \<open>State\<close>

definition SKBTRACER_EVENT_IF :: u8 where "SKBTRACER_EVENT_IF = 1"
definition SKBTRACER_EVENT_IPTABLE :: u8 where "SKBTRACER_EVENT_IPTABLE = 2"
definition SKBTRACER_EVENT_IPTABLES_TRACE :: u8 where "SKBTRACER_EVENT_IPTABLES_TRACE = 4"
definition SKBTRACER_EVENT_NFT_CHAIN :: u8 where "SKBTRACER_EVENT_NFT_CHAIN = 8"

record ipt_do_table_args =
  ia_skb :: ptr
  ia_state :: ptr
  ia_table :: ptr
  ia_chain :: ptr
  ia_start_ns :: u64

record ipt_state =
  skbtracer_ipt :: "(u64, ipt_do_table_args) htab"
  ipt_events :: "event_t ringbuf"
  skbtracer_event :: "event_t list"

definition ipt_init :: ipt_state where
  "ipt_init = \<lparr>skbtracer_ipt = htab_empty 1024,
     ipt_events = \<lparr>rb_avail = 1048576, rb_pending = 0, rb_out = []\<rparr>, skbtracer_event = []\<rparr>"

text \<open>The environment of a run: its context, the kernel, and whether the perf array takes the event.\<close>

record ipt_env =
  ie_ctx :: run_ctx
  ie_kernel :: kernel
  ie_perf_ok :: bool

abbreviation ie_task :: "ipt_env \<Rightarrow> u64" where
  "ie_task e \<equiv> bpf_get_current_pid_tgid (ie_ctx e)"

definition bpf_perf_event_output :: "bool \<Rightarrow> 'e \<Rightarrow> 'e list \<Rightarrow> 'e list" where
  "bpf_perf_event_output ok ev out = (if ok then out @ [ev] else out)"

section \<open>Building an event\<close>

definition do_trace_skb :: "ipt_env \<Rightarrow> ptr \<Rightarrow> event_t \<Rightarrow> event_t" where
  "do_trace_skb e skbp event =
     (let k = ie_kernel e;
          m = k_mem k;
          skb = skb_at k skbp;
          event = event\<lparr>ev_flags := ev_flags event OR SKBTRACER_EVENT_IF\<rparr>;
          event = set_event_info skbp (ktime (ie_ctx e) 0) event;
          event = event\<lparr>ev_pkt_info := set_pkt_info (ie_ctx e) k skb (ev_pkt_info event),
                        ev_l2_info := set_ether_info m skb (ev_l2_info event)\<rparr>;
          ip_version = get_ip_version m (get_l3_header skb);
          event = (if ip_version = 4 then
                     event\<lparr>ev_l2_info := (ev_l2_info event)\<lparr>l2_l3_proto := ETH_P_IP\<rparr>,
                           ev_l3_info := set_ipv4_info m skb (ev_l3_info event)\<rparr>
                   else if ip_version = 6 then
                     event\<lparr>ev_l2_info := (ev_l2_info event)\<lparr>l2_l3_proto := ETH_P_IPV6\<rparr>,
                           ev_l3_info := set_ipv6_info m skb (ev_l3_info event)\<rparr>
                   else event);
          l4_proto = ucast (l3_l4_proto (ev_l3_info event))
      in if l4_proto = IPPROTO_TCP then event\<lparr>ev_l4_info := set_tcp_info m skb (ev_l4_info event)\<rparr>
         else if l4_proto = IPPROTO_UDP then event\<lparr>ev_l4_info := set_udp_info m skb (ev_l4_info event)\<rparr>
         else if l4_proto = IPPROTO_ICMP \<or> l4_proto = IPPROTO_ICMPV6
           then event\<lparr>ev_icmp_info := set_icmp_info m skb (ev_icmp_info event)\<rparr>
         else event)"

text \<open>The tail the three emitting routines share: the guard's error variable is \<^verbatim>\<open>CLEAN_ERR_INIT\<close>
  from its declaration to the end of the function.\<close>

definition ipt_emit :: "ipt_env \<Rightarrow> event_t \<Rightarrow> ipt_state \<Rightarrow> ipt_state" where
  "ipt_emit e event s =
     (case bpf_ringbuf_reserve (ipt_events s) event_size of
        None \<Rightarrow> s
      | Some _ \<Rightarrow>
          s\<lparr>ipt_events := guard_rb (ipt_events s) event_size (event, CLEAN_ERR_INIT),
            skbtracer_event := bpf_perf_event_output (ie_perf_ok e) event (skbtracer_event s)\<rparr>)"

section \<open>Handlers\<close>

definition ipt_do_table_in :: "ipt_env \<Rightarrow> ptr \<Rightarrow> ptr \<Rightarrow> ptr \<Rightarrow> ipt_state \<Rightarrow> ipt_state" where
  "ipt_do_table_in e skb state table s =
     (let args = \<lparr>ia_skb = skb, ia_state = state, ia_table = table, ia_chain = 0,
                  ia_start_ns = ktime (ie_ctx e) 0\<rparr>
      in s\<lparr>skbtracer_ipt := snd (htab_update (skbtracer_ipt s) (ie_task e) args BPF_ANY)\<rparr>)"

definition ipt_do_table_trace ::
  "ipt_env \<Rightarrow> u8 \<Rightarrow> u32 \<Rightarrow> ptr \<Rightarrow> ptr \<Rightarrow> ptr \<Rightarrow> ptr \<Rightarrow> u32 \<Rightarrow> ipt_state \<Rightarrow> ipt_state" where
  "ipt_do_table_trace e pf hooknum ind outd tablename chainname rulenum s =
     (case htab_lookup (skbtracer_ipt s) (ie_task e) of
        None \<Rightarrow> s
      | Some _ \<Rightarrow>
          (let k = ie_kernel e;
               trace = \<lparr>itr_in = read_dev_name k (replicate IFNAMSIZ 0) ind,
                        itr_out = read_dev_name k (replicate IFNAMSIZ 0) outd,
                        itr_tablename = snd (probe_read_str (k_mem k) (replicate XT_TABLE_MAXNAMELEN 0) tablename),
                        itr_chainname = snd (probe_read_str (k_mem k) (replicate XT_TABLE_MAXNAMELEN 0) chainname),
                        itr_rulenum = rulenum, itr_hooknum = hooknum, itr_pf = pf\<rparr>;
               event = zero_event\<lparr>ev_flags := ev_flags zero_event OR SKBTRACER_EVENT_IPTABLES_TRACE,
                                  ev_union := Trace_Info trace\<rparr>
           in ipt_emit e event s))"

definition ipt_do_table_out :: "ipt_env \<Rightarrow> u32 \<Rightarrow> ipt_state \<Rightarrow> ipt_state" where
  "ipt_do_table_out e verdict s =
     (let (found, h) = htab_pop (skbtracer_ipt s) (ie_task e);
          s = s\<lparr>skbtracer_ipt := h\<rparr>
      in case found of
           None \<Rightarrow> s
         | Some args \<Rightarrow>
             (let event = do_trace_skb e (ia_skb args) zero_event;
                  event = event\<lparr>ev_flags := ev_flags event OR SKBTRACER_EVENT_IPTABLE\<rparr>;
                  delay = ktime (ie_ctx e) 1 - ia_start_ns args;
                  event = event\<lparr>ev_union :=
                    Ipt_Info (set_iptables_info (ie_kernel e) (ia_table args) (ia_state args) verdict delay)\<rparr>
              in ipt_emit e event s))"

definition k_ipt_do_table :: "ipt_env \<Rightarrow> ptr \<Rightarrow> ptr \<Rightarrow> ptr \<Rightarrow> ipt_state \<Rightarrow> ipt_state" where
  "k_ipt_do_table e table skb state = ipt_do_table_in e skb state table"

definition kr_ipt_do_table :: "ipt_env \<Rightarrow> u32 \<Rightarrow> ipt_state \<Rightarrow> ipt_state" where
  "kr_ipt_do_table e ret = ipt_do_table_out e ret"

text \<open>The arguments of \<^verbatim>\<open>nf_log_trace\<close>: five from the probe macro, the others by position.\<close>

definition k_nf_log_trace :: "target \<Rightarrow> ipt_env \<Rightarrow> saved_regs \<Rightarrow> ipt_state \<Rightarrow> ipt_state" where
  "k_nf_log_trace t e regs s =
     (let parm = (\<lambda>n. case PT_REGS_PARM (arch_table True t) n regs of Some v \<Rightarrow> v | None \<Rightarrow> 0);
          arg = (\<lambda>n. case regs_get_nth_argument t (k_mem (ie_kernel e)) regs n of Some v \<Rightarrow> v | None \<Rightarrow> 0)
      in ipt_do_table_trace e (ucast (parm 2)) (ucast (parm 3)) (parm 5) (arg 5) (arg 8) (arg 9)
           (ucast (arg 11)) s)"

definition k_nft_do_chain :: "ipt_env \<Rightarrow> ptr \<Rightarrow> ptr \<Rightarrow> ipt_state \<Rightarrow> ipt_state" where
  "k_nft_do_chain e pkt priv s =
     (let skb = load64 (k_mem (ie_kernel e)) pkt;
          args = \<lparr>ia_skb = skb, ia_state = 0, ia_table = 0, ia_chain = priv,
                  ia_start_ns = ktime (ie_ctx e) 0\<rparr>
      in s\<lparr>skbtracer_ipt := snd (htab_update (skbtracer_ipt s) (ie_task e) args BPF_ANY)\<rparr>)"

text \<open>
  The chain and the table are read with \<^verbatim>\<open>bpf_probe_read_kernel\<close> at \<^verbatim>\<open>offsetof\<close>, which
  \<^verbatim>\<open>bpf_helpers.h\<close> redefines as the address of a member, so that the offsets of these structures are
  relocated when the program is loaded, as those of \<^verbatim>\<open>BPF_CORE_READ\<close> are.
\<close>

definition kr_nft_do_chain :: "ipt_env \<Rightarrow> u32 \<Rightarrow> ipt_state \<Rightarrow> ipt_state" where
  "kr_nft_do_chain e verdict s =
     (let (found, h) = htab_pop (skbtracer_ipt s) (ie_task e);
          s = s\<lparr>skbtracer_ipt := h\<rparr>
      in case found of
           None \<Rightarrow> s
         | Some args \<Rightarrow>
             (let m = k_mem (ie_kernel e);
                  event = do_trace_skb e (ia_skb args) zero_event;
                  event = event\<lparr>ev_flags := ev_flags event OR SKBTRACER_EVENT_NFT_CHAIN,
                                ev_start_ns := ia_start_ns args\<rparr>;
                  delay = ktime (ie_ctx e) 1 - ia_start_ns args;
                  chain = ia_chain args;
                  table = nc_table (nft_chain_at (ie_kernel e) chain);
                  tname = nt_name (nft_table_at (ie_kernel e) table);
                  cname = nc_name (nft_chain_at (ie_kernel e) chain);
                  trace = \<lparr>ntr_tablename = snd (probe_read_str m (replicate XT_TABLE_MAXNAMELEN 0) tname),
                           ntr_chainname = snd (probe_read_str m (replicate XT_TABLE_MAXNAMELEN 0) cname),
                           ntr_delay = delay, ntr_verdict = verdict\<rparr>
              in ipt_emit e (event\<lparr>ev_union := Nft_Info trace\<rparr>) s))"

section \<open>Facts\<close>

lemma ipt_emit_map [simp]: "skbtracer_ipt (ipt_emit e ev s) = skbtracer_ipt s"
  by (simp add: ipt_emit_def split: option.split)

lemma ipt_emit_out:
  "skbtracer_event (ipt_emit e ev s) =
     skbtracer_event s @ (if event_size \<le> rb_avail (ipt_events s) \<and> ie_perf_ok e then [ev] else [])"
  by (simp add: ipt_emit_def bpf_ringbuf_reserve_def bpf_perf_event_output_def)

lemma ipt_emit_ring [simp]:
  "rb_out (ipt_events (ipt_emit e ev s)) = rb_out (ipt_events s)"
  "rb_pending (ipt_events (ipt_emit e ev s)) = rb_pending (ipt_events s)"
  by (simp_all add: ipt_emit_def bpf_ringbuf_reserve_def CLEAN_ERR_INIT_def)

lemma do_trace_skb_pre:
  "ev_union (do_trace_skb e p ev) = ev_union ev"
  "ev_skb (do_trace_skb e p ev) = p"
  by (simp_all add: do_trace_skb_def Let_def set_event_info_def)

end
