(* ===== verification/Nft_Claims.thy ===== *)
theory Nft_Claims
  imports Nft_Trace
begin

text \<open>
  What the nftables tracer reports: when a packet gives an event, what the event says of
  a well-formed packet, and that the header parsers look at nothing outside the buffer.
\<close>

section \<open>When parsing succeeds\<close>

definition ipv4_ok :: "bytemem \<Rightarrow> sk_buff \<Rightarrow> bool" where
  "ipv4_ok m skb \<longleftrightarrow>
     (let iph = skb_network_header_ptr skb; ip = iphdr_at m iph; end = skb_end_ptr skb;
          l4 = iph + of_nat (ip_ihl ip * 4)
      in iph + 20 \<le> end \<and>
         (ip_protocol ip = 6 \<and> l4 + 20 \<le> end \<or> ip_protocol ip = 17 \<and> l4 + 8 \<le> end \<or>
          ip_protocol ip = 1 \<and> iph + 20 + 8 \<le> end))"

definition ipv6_ok :: "bytemem \<Rightarrow> sk_buff \<Rightarrow> bool" where
  "ipv6_ok m skb \<longleftrightarrow>
     (let ip6h = skb_network_header_ptr skb; ip6 = ipv6hdr_at m ip6h; end = skb_end_ptr skb
      in ip6h + 40 \<le> end \<and>
         (ip6_nexthdr ip6 = 6 \<and> ip6h + 40 + 20 \<le> end \<or> ip6_nexthdr ip6 = 17 \<and> ip6h + 40 + 8 \<le> end \<or>
          ip6_nexthdr ip6 = 58 \<and> ip6h + 40 + 8 \<le> end))"

lemma ucast_u8_eq [simp]:
  "(ucast (x :: u8) :: u16) = 1 \<longleftrightarrow> x = 1"
  "(ucast (x :: u8) :: u16) = 6 \<longleftrightarrow> x = 6"
  "(ucast (x :: u8) :: u16) = 17 \<longleftrightarrow> x = 17"
  "(ucast (x :: u8) :: u16) = 58 \<longleftrightarrow> x = 58"
  using u8_to_u16_inject [of x 1] u8_to_u16_inject [of x 6] u8_to_u16_inject [of x 17]
    u8_to_u16_inject [of x 58] by simp_all

lemma handle_nft_ipv4_err:
  "snd (handle_nft_ipv4 m skb (t, e)) = (if ipv4_ok m skb then e else CLEAN_ERR_FAILED)"
  by (cases "ip_protocol (iphdr_at m (skb_network_header_ptr skb)) = 6"; cases "ip_protocol (iphdr_at m (skb_network_header_ptr skb)) = 17"; cases "ip_protocol (iphdr_at m (skb_network_header_ptr skb)) = 1")
    (simp_all add: handle_nft_ipv4_def ipv4_ok_def Let_def c_consts hlen_defs flip: not_less)

lemma handle_nft_ipv6_err:
  "snd (handle_nft_ipv6 m skb (t, e)) = (if ipv6_ok m skb then e else CLEAN_ERR_FAILED)"
  by (cases "ip6_nexthdr (ipv6hdr_at m (skb_network_header_ptr skb)) = 6"; cases "ip6_nexthdr (ipv6hdr_at m (skb_network_header_ptr skb)) = 17"; cases "ip6_nexthdr (ipv6hdr_at m (skb_network_header_ptr skb)) = 58")
    (simp_all add: handle_nft_ipv6_def ipv6_ok_def Let_def c_consts hlen_defs flip: not_less)

lemma byte_ntohs_0: "byte_ntohs b = 0"
  by (rule bit_word_eqI)
    (auto simp: byte_ntohs_def bpf_ntohs_def bswap16_def bit_simps bit_le_word to_le_def
      numeral_2_eq_2 dest: bit_imp_le_length)

section \<open>Reads stay inside the buffer\<close>

lemma in_buffer_agree:
  fixes h e :: ptr
  assumes "unat h + 5000000000 < 2 ^ 64" "\<And>a. h \<le> a \<Longrightarrow> a < e \<Longrightarrow> m a = m' a"
    and "off + n \<le> 5000000000" "h + of_nat (off + n) \<le> e"
  shows "agree m m' (h + of_nat off) n"
  unfolding agree_def
proof (intro allI impI)
  fix i assume i: "i < n"
  have u: "unat (h + of_nat (off + j)) = unat h + (off + j)" if "j \<le> n" for j
    using assms(1,3) that by (intro unat_add_of_nat) simp
  have "h \<le> h + of_nat (off + i)" using u [of i] i by (simp add: word_le_nat_alt)
  moreover have "h + of_nat (off + i) < h + of_nat (off + n)"
    using u [of i] u [of n] i by (simp add: word_less_nat_alt)
  ultimately have "m (h + of_nat (off + i)) = m' (h + of_nat (off + i))"
    using assms(2,4) order_less_le_trans by blast
  then show "m (h + of_nat off + of_nat i) = m' (h + of_nat off + of_nat i)"
    by (simp add: add.assoc)
qed

definition same_packet :: "sk_buff \<Rightarrow> bytemem \<Rightarrow> bytemem \<Rightarrow> bool" where
  "same_packet skb m m' \<longleftrightarrow>
     unat (skb_head skb) + 5000000000 < 2 ^ 64 \<and>
     (\<forall>a. skb_head skb \<le> a \<and> a < skb_end_ptr skb \<longrightarrow> m a = m' a)"

lemma same_packet_agree:
  assumes "same_packet skb m m'" and "\<not> skb_end_ptr skb < skb_head skb + of_nat off + of_nat n"
    and "off + n \<le> 5000000000"
  shows "agree m m' (skb_head skb + of_nat off) n"
  using assms by (intro in_buffer_agree [where e = "skb_end_ptr skb"])
    (auto simp: same_packet_def add.assoc)

lemma network_off:
  "skb_network_header_ptr skb = skb_head skb + of_nat (unat (skb_network_header skb))"
  "unat (skb_network_header skb) < 65536"
  "skb_mac_header_ptr skb = skb_head skb + of_nat (unat (skb_mac_header skb))"
  "unat (skb_mac_header skb) < 65536"
  using unsigned_less [of "skb_network_header skb", where ?'a = nat]
    unsigned_less [of "skb_mac_header skb", where ?'a = nat]
  by (simp_all add: skb_network_header_ptr_def skb_mac_header_ptr_def unsigned_ucast_eq)

lemma ip_ihl_bound: "ip_ihl h * 4 \<le> 60"
proof -
  have "ip_vihl h AND 15 \<le> 15" by (rule word_and_le1)
  then have "ip_ihl h \<le> 15" by (simp add: ip_ihl_def word_le_nat_alt)
  then show ?thesis by simp
qed

lemma handle_nft_ipv4_in_buffer:
  assumes sp: "same_packet skb m m'"
  shows "handle_nft_ipv4 m skb te = handle_nft_ipv4 m' skb te"
proof -
  let ?o = "unat (skb_network_header skb)" and ?iph = "skb_network_header_ptr skb"
  have net: "agree m m' (?iph + of_nat i) n"
    if "\<not> skb_end_ptr skb < ?iph + of_nat i + of_nat n" "i + n \<le> 100" for i n
    using same_packet_agree [OF sp, of "?o + i" n] that network_off [of skb] by (simp add: add.assoc)
  show ?thesis
  proof (cases "skb_end_ptr skb < ?iph + of_nat IP_HLEN")
    case True
    then show ?thesis by (simp add: handle_nft_ipv4_def split: prod.split)
  next
    case False
    then have ip: "iphdr_at m ?iph = iphdr_at m' ?iph"
      using net [of 0 20] by (intro agree_headers) (simp add: IP_HLEN_def)
    let ?l = "?iph + of_nat (ip_ihl (iphdr_at m' ?iph) * 4)"
    note b = ip_ihl_bound [of "iphdr_at m' ?iph"]
    have t: "tcphdr_at m ?l = tcphdr_at m' ?l" if "\<not> skb_end_ptr skb < ?l + of_nat TCP_HLEN"
      using net [of "ip_ihl (iphdr_at m' ?iph) * 4" 20] that b by (intro agree_headers) (simp add: TCP_HLEN_def)
    have u: "udphdr_at m ?l = udphdr_at m' ?l" if "\<not> skb_end_ptr skb < ?l + of_nat UDP_HLEN"
      using net [of "ip_ihl (iphdr_at m' ?iph) * 4" 8] that b by (intro agree_headers) (simp add: UDP_HLEN_def)
    have i: "icmphdr_at m (?iph + of_nat IP_HLEN) = icmphdr_at m' (?iph + of_nat IP_HLEN)"
      if "\<not> skb_end_ptr skb < ?iph + of_nat IP_HLEN + of_nat ICMP_HLEN"
      using net [of 20 8] that by (intro agree_headers) (simp add: IP_HLEN_def ICMP_HLEN_def)
    show ?thesis
      by (cases te) (simp only: handle_nft_ipv4_def Let_def prod.case ip t u i simp_thms not_False_eq_True cong: if_cong)
  qed
qed

lemma handle_nft_ipv6_in_buffer:
  assumes sp: "same_packet skb m m'"
  shows "handle_nft_ipv6 m skb te = handle_nft_ipv6 m' skb te"
proof -
  let ?o = "unat (skb_network_header skb)" and ?iph = "skb_network_header_ptr skb"
  have net: "agree m m' (?iph + of_nat i) n"
    if "\<not> skb_end_ptr skb < ?iph + of_nat i + of_nat n" "i + n \<le> 100" for i n
    using same_packet_agree [OF sp, of "?o + i" n] that network_off [of skb] by (simp add: add.assoc)
  show ?thesis
  proof (cases "skb_end_ptr skb < ?iph + of_nat IP6_HLEN")
    case True
    then show ?thesis by (simp add: handle_nft_ipv6_def split: prod.split)
  next
    case False
    then have ip: "ipv6hdr_at m ?iph = ipv6hdr_at m' ?iph"
      using net [of 0 40] by (intro agree_ipv6hdr) (simp add: IP6_HLEN_def)
    let ?l = "?iph + of_nat IP6_HLEN"
    have t: "tcphdr_at m ?l = tcphdr_at m' ?l" if "\<not> skb_end_ptr skb < ?l + of_nat TCP_HLEN"
      using net [of 40 20] that by (intro agree_headers) (simp add: TCP_HLEN_def IP6_HLEN_def)
    have u: "udphdr_at m ?l = udphdr_at m' ?l" if "\<not> skb_end_ptr skb < ?l + of_nat UDP_HLEN"
      using net [of 40 8] that by (intro agree_headers) (simp add: UDP_HLEN_def IP6_HLEN_def)
    have i: "icmphdr_at m ?l = icmphdr_at m' ?l" if "\<not> skb_end_ptr skb < ?l + of_nat ICMP_HLEN"
      using net [of 40 8] that by (intro agree_headers) (simp add: IP6_HLEN_def ICMP_HLEN_def)
    show ?thesis
      by (cases te) (simp only: handle_nft_ipv6_def Let_def prod.case ip t u i simp_thms
          not_False_eq_True cong: if_cong)
  qed
qed

abbreviation pkt_skb :: "kernel \<Rightarrow> ptr \<Rightarrow> sk_buff" where
  "pkt_skb k pkt \<equiv> skb_at k (np_skb (nft_pktinfo_at k pkt))"

text \<open>A concrete packet: an Ethernet frame at address 4096 with an IPv4 TCP segment, network
  header at offset 14.\<close>

definition demo_ip :: iphdr where
  "demo_ip = \<lparr>ip_vihl = 0x45, ip_tos = 0, ip_tot_len = htons_const 40, ip_id = 0, ip_frag_off = 0,
     ip_ttl = 64, ip_protocol = 6, ip_check = 0, ip_saddr = 0x0100000A, ip_daddr = 0x0200000A\<rparr>"

definition demo_tcp :: tcphdr where
  "demo_tcp = \<lparr>tcp_source = 0x5000, tcp_dest = 0xBB01, tcp_seq = 0, tcp_ack_seq = 0, tcp_flags = 0x0250,
     tcp_window = 0, tcp_check = 0, tcp_urg_ptr = 0\<rparr>"

definition demo_frame :: bytes where
  "demo_frame = replicate 12 7 @ [8, 0] @ iphdr_bytes demo_ip @ tcphdr_bytes demo_tcp"

definition demo_mem :: bytemem where
  "demo_mem = bytes_mem 4096 demo_frame"

definition demo_skb :: sk_buff where
  "demo_skb = zero_sk_buff\<lparr>skb_head := 4096, skb_end := 54, skb_network_header := 14, skb_sk := 100\<rparr>"

definition demo_kernel :: kernel where
  "demo_kernel = no_kernel\<lparr>k_mem := demo_mem, k_skb := [200 \<mapsto> demo_skb],
     k_sock := [100 \<mapsto> zero_sock\<lparr>sk_socket := 300, skc_rcv_saddr := 1, skc_daddr := 2\<rparr>],
     k_socket := [300 \<mapsto> zero_socket\<lparr>so_sk := 100\<rparr>],
     k_hook := [400 \<mapsto> zero_nf_hook_state\<lparr>hs_pf := 2\<rparr>],
     k_nft_pktinfo := [500 \<mapsto> \<lparr>np_skb = 200, np_state = 400\<rparr>]\<rparr>"

lemma length_demo_frame: "length demo_frame = 54"
  by (simp add: demo_frame_def)

lemma demo_mem_at: "mem_at demo_mem 4096 demo_frame"
  unfolding demo_mem_def by (rule mem_at_bytes_mem) (simp add: length_demo_frame)

lemma demo_pkt: "pkt_skb demo_kernel 500 = demo_skb"
  by (simp add: demo_kernel_def)

lemma demo_skb_ptrs:
  "skb_head demo_skb = 4096" "skb_end_ptr demo_skb = 4150" "skb_network_header_ptr demo_skb = 4110"
  "skb_mac_header_ptr demo_skb = 4096" "skb_mac_header_was_set demo_skb"
  by (simp_all add: demo_skb_def skb_end_ptr_def skb_network_header_ptr_def skb_mac_header_ptr_def
      skb_mac_header_was_set_def zero_defs)

section \<open>Properties\<close>

text \<open>C17: The packet parser of the nftables tracer looks only at bytes between the head and the end of
  the packet buffer: two kernels that agree on those bytes give the same event and the same
  error, whatever the rest of memory holds (the buffer being below the top of the address space).\<close>

theorem nft_parser_in_buffer:
  assumes "unat (skb_head (pkt_skb k pkt)) + 5000000000 < 2 ^ 64"
    and "\<forall>a. skb_head (pkt_skb k pkt) \<le> a \<and> a < skb_end_ptr (pkt_skb k pkt) \<longrightarrow> k_mem k a = m' a"
  shows "fill_trace_pkt_info (k\<lparr>k_mem := m'\<rparr>) pkt te = fill_trace_pkt_info k pkt te"
proof -
  have sp: "same_packet (pkt_skb k pkt) (k_mem k) m'" using assms by (simp add: same_packet_def)
  let ?eth = "skb_mac_header_ptr (pkt_skb k pkt)"
  have eth: "ethhdr_at m' ?eth = ethhdr_at (k_mem k) ?eth"
    if "\<not> skb_end_ptr (pkt_skb k pkt) < ?eth + of_nat ETH_HLEN"
    using same_packet_agree [OF sp, of "unat (skb_mac_header (pkt_skb k pkt))" 14] that
      network_off(3,4) [of "pkt_skb k pkt"] by (intro agree_headers(1) [symmetric]) (simp add: ETH_HLEN_def)
  show ?thesis
    by (cases te)
      (simp add: fill_trace_pkt_info_def Let_def eth handle_nft_ipv4_in_buffer [OF sp]
        handle_nft_ipv6_in_buffer [OF sp] cong: if_cong)
qed

theorem nft_parser_in_buffer_witness:
  "fill_trace_pkt_info (demo_kernel\<lparr>k_mem := demo_mem(0 \<mapsto> 5)\<rparr>) 500 (zero_trace_info, 1) =
   fill_trace_pkt_info demo_kernel 500 (zero_trace_info, 1)"
proof (rule nft_parser_in_buffer)
  show "unat (skb_head (pkt_skb demo_kernel 500)) + 5000000000 < 2 ^ 64"
    by (simp only: demo_pkt demo_skb_ptrs) simp
  show "\<forall>a. skb_head (pkt_skb demo_kernel 500) \<le> a \<and> a < skb_end_ptr (pkt_skb demo_kernel 500) \<longrightarrow>
      k_mem demo_kernel a = (demo_mem(0 \<mapsto> 5)) a"
    by (simp only: demo_pkt demo_skb_ptrs) (auto simp: demo_kernel_def)
qed

text \<open>For an IPv4 TCP segment that lies in the buffer, with IP options or without, the event carries
  the addresses, the ports, the protocol and the length of the packet in host order, and no
  error is raised.\<close>

theorem nft_ipv4_tcp_report:
  assumes "mem_at m (skb_network_header_ptr skb) (iphdr_bytes ip @ opts @ tcphdr_bytes tcp)"
    and "ip_ihl ip * 4 = 20 + length opts" and "ip_protocol ip = 6"
    and "skb_network_header_ptr skb + 20 \<le> skb_end_ptr skb"
    and "skb_network_header_ptr skb + of_nat (ip_ihl ip * 4) + 20 \<le> skb_end_ptr skb"
    and "handle_nft_ipv4 m skb (trace, err) = (trace', err')"
  shows "err' = err \<and> ci_protocol (tr_conn_info trace') = 6 \<and>
    ci_src_ip (tr_conn_info trace') = ntohl (ip_saddr ip) \<and>
    ci_dest_ip (tr_conn_info trace') = ntohl (ip_daddr ip) \<and>
    ci_src_port (tr_conn_info trace') = ntohs (tcp_source tcp) \<and>
    ci_dest_port (tr_conn_info trace') = ntohs (tcp_dest tcp) \<and>
    ni_len (tr_nft_info trace') = ntohs (ip_tot_len ip)"
proof -
  let ?iph = "skb_network_header_ptr skb"
  have ip: "iphdr_at m ?iph = ip"
    using assms(1) by (intro iphdr_round_trip) simp
  have tcp: "tcphdr_at m (?iph + of_nat (ip_ihl ip * 4)) = tcp"
    using tcp.read_inside [OF TrueI, of m ?iph "iphdr_bytes ip @ opts" tcp "[]"] assms(1,2) by simp
  have "trace' = fst (handle_nft_ipv4 m skb (trace, err))" "err' = snd (handle_nft_ipv4 m skb (trace, err))"
    using assms(6) by simp_all
  moreover have "\<not> skb_end_ptr skb < ?iph + of_nat IP_HLEN"
    "\<not> skb_end_ptr skb < ?iph + of_nat (ip_ihl ip * 4) + of_nat TCP_HLEN"
    using assms(4,5) by (simp_all add: IP_HLEN_def TCP_HLEN_def not_less)
  ultimately show ?thesis
    by (simp add: handle_nft_ipv4_def Let_def ip tcp assms(3) IPPROTO_TCP_def del: of_nat_mult)
qed

theorem nft_ipv4_tcp_report_witness:
  "ci_src_ip (tr_conn_info (fst (handle_nft_ipv4 demo_mem demo_skb (zero_trace_info, 1)))) = 0x0A000001 \<and>
   ci_src_port (tr_conn_info (fst (handle_nft_ipv4 demo_mem demo_skb (zero_trace_info, 1)))) = 80"
proof -
  obtain t' e' where r: "handle_nft_ipv4 demo_mem demo_skb (zero_trace_info, 1) = (t', e')" by fastforce
  have ihl: "ip_ihl demo_ip * 4 = 20" by (simp add: ip_ihl_def demo_ip_def)
  have "mem_at demo_mem 4110 (iphdr_bytes demo_ip @ [] @ tcphdr_bytes demo_tcp)"
    using demo_mem_at by (simp add: demo_frame_def)
  then have "ci_src_ip (tr_conn_info t') = ntohl (ip_saddr demo_ip) \<and>
      ci_src_port (tr_conn_info t') = ntohs (tcp_source demo_tcp)"
    using nft_ipv4_tcp_report [of demo_mem demo_skb demo_ip "[]" demo_tcp, OF _ _ _ _ _ r]
    by (simp only: demo_skb_ptrs ihl) (simp add: demo_ip_def)
  moreover have "ntohl (ip_saddr demo_ip) = 0x0A000001" "ntohs (tcp_source demo_tcp) = 80"
    by (simp_all add: demo_ip_def demo_tcp_def) (code_simp, code_simp)
  ultimately show ?thesis by (simp add: r)
qed

text \<open>The ICMP type and code of an event are always 0: they are single bytes that are converted as
  16-bit network-order numbers and cut back to a byte.\<close>

theorem nft_icmp_always_zero:
  assumes "ic_type (ci_icmp_info (tr_conn_info trace)) = 0" "ic_code (ci_icmp_info (tr_conn_info trace)) = 0"
  shows "ic_type (ci_icmp_info (tr_conn_info (fst (fill_trace_pkt_info k pkt (trace, err))))) = 0 \<and>
    ic_code (ci_icmp_info (tr_conn_info (fst (fill_trace_pkt_info k pkt (trace, err))))) = 0"
proof -
  have v4: "ic_type (ci_icmp_info (tr_conn_info (fst (handle_nft_ipv4 m skb (t, e))))) = 0 \<and>
      ic_code (ci_icmp_info (tr_conn_info (fst (handle_nft_ipv4 m skb (t, e))))) = 0"
    if "ic_type (ci_icmp_info (tr_conn_info t)) = 0" "ic_code (ci_icmp_info (tr_conn_info t)) = 0" for m skb t e
    using that by (simp add: handle_nft_ipv4_def Let_def byte_ntohs_0)
  have v6: "ic_type (ci_icmp_info (tr_conn_info (fst (handle_nft_ipv6 m skb (t, e))))) = 0 \<and>
      ic_code (ci_icmp_info (tr_conn_info (fst (handle_nft_ipv6 m skb (t, e))))) = 0"
    if "ic_type (ci_icmp_info (tr_conn_info t)) = 0" "ic_code (ci_icmp_info (tr_conn_info t)) = 0" for m skb t e
    using that by (simp add: handle_nft_ipv6_def Let_def byte_ntohs_0)
  show ?thesis
    using assms by (simp add: fill_trace_pkt_info_def Let_def v4 v6)
qed

theorem nft_icmp_always_zero_witness:
  "ic_code (ci_icmp_info (tr_conn_info (fst (fill_trace_pkt_info demo_kernel 500 (zero_trace_info, 1))))) = 0"
  using nft_icmp_always_zero [of zero_trace_info demo_kernel 500 1]
  by (simp add: zero_trace_info_def zero_trace_conn_info_def)

text \<open>When \<^verbatim>\<open>fill_trace_pkt_info\<close> raises no error: frames that are neither IPv4 nor IPv6, and
  hooks of other families, are let through with the packet part of the event empty.\<close>

definition nft_packet_ok :: "kernel \<Rightarrow> ptr \<Rightarrow> bool" where
  "nft_packet_ok k pkt \<longleftrightarrow>
     (let skb = pkt_skb k pkt; eth = skb_mac_header_ptr skb; end = skb_end_ptr skb;
          proto = ntohs (eth_h_proto (ethhdr_at (k_mem k) eth));
          sk = sk_at k (so_sk (socket_at k (sk_socket (sk_at k (skb_sk skb)))));
          pf = hs_pf (hook_at k (np_state (nft_pktinfo_at k pkt)))
      in skb_head skb \<noteq> NULL \<and> skb_head skb < end \<and> skb_mac_header_was_set skb \<and> eth + 14 \<le> end \<and>
         (proto \<in> {ETH_P_IP, ETH_P_IPV6} \<longrightarrow>
            skc_rcv_saddr sk \<noteq> 0 \<and> skc_daddr sk \<noteq> 0 \<and>
            (pf = NFPROTO_IPV4 \<longrightarrow> ipv4_ok (k_mem k) skb) \<and>
            (pf = NFPROTO_IPV6 \<longrightarrow> ipv6_ok (k_mem k) skb)))"

lemma fill_trace_pkt_info_err:
  "snd (fill_trace_pkt_info k pkt (t, e)) = (if nft_packet_ok k pkt then e else CLEAN_ERR_FAILED)"
proof -
  have ne: "NFPROTO_IPV4 \<noteq> NFPROTO_IPV6" by (simp add: c_consts)
  have nz: "\<not> a \<ge> b \<Longrightarrow> b \<noteq> NULL" for a b :: ptr by auto
  have ifs: "(if h0 \<or> e0 \<or> ge then f else if \<not> ms then f else if gt then f
       else if p6 \<and> p4 then e else if z1 \<or> z2 then f
       else if f4 then (if o4 then e else f) else if f6 then (if o6 then e else f) else e) =
      (if \<not> h0 \<and> \<not> ge \<and> ms \<and> \<not> gt \<and>
          (\<not> p4 \<or> \<not> p6 \<longrightarrow> \<not> z1 \<and> \<not> z2 \<and> (f4 \<longrightarrow> o4) \<and> (f6 \<longrightarrow> o6)) then e else f)"
    if "\<not> ge \<Longrightarrow> \<not> e0" "f4 \<Longrightarrow> \<not> f6"
    for h0 e0 ge ms gt p4 p6 z1 z2 f4 f6 o4 o6 :: bool and e f :: int
    using that by auto
  let ?skb = "pkt_skb k pkt"
  let ?sk = "sk_at k (so_sk (socket_at k (sk_socket (sk_at k (skb_sk ?skb)))))"
  let ?proto = "ntohs (eth_h_proto (ethhdr_at (k_mem k) (skb_mac_header_ptr ?skb)))"
  let ?pf = "hs_pf (hook_at k (np_state (nft_pktinfo_at k pkt)))"
  have "snd (fill_trace_pkt_info k pkt (t, e)) =
     (if skb_head ?skb = NULL \<or> skb_end_ptr ?skb = NULL \<or> skb_head ?skb \<ge> skb_end_ptr ?skb then CLEAN_ERR_FAILED
      else if \<not> skb_mac_header_was_set ?skb then CLEAN_ERR_FAILED
      else if skb_mac_header_ptr ?skb + of_nat ETH_HLEN > skb_end_ptr ?skb then CLEAN_ERR_FAILED
      else if ?proto \<noteq> ETH_P_IPV6 \<and> ?proto \<noteq> ETH_P_IP then e
      else if skc_rcv_saddr ?sk = 0 \<or> skc_daddr ?sk = 0 then CLEAN_ERR_FAILED
      else if ?pf = NFPROTO_IPV4 then (if ipv4_ok (k_mem k) ?skb then e else CLEAN_ERR_FAILED)
      else if ?pf = NFPROTO_IPV6 then (if ipv6_ok (k_mem k) ?skb then e else CLEAN_ERR_FAILED)
      else e)"
    by (simp only: fill_trace_pkt_info_def Let_def prod.case if_distrib [of snd] snd_conv
        handle_nft_ipv4_err handle_nft_ipv6_err)
  also have "\<dots> = (if nft_packet_ok k pkt then e else CLEAN_ERR_FAILED)"
    unfolding nft_packet_ok_def Let_def
    by (subst ifs) (use ne in \<open>simp_all only: nz insert_iff empty_iff not_le not_less ETH_HLEN_def of_nat_numeral not_not simp_thms\<close>)
  finally show ?thesis .
qed

text \<open>C18: The probe submits exactly one event when the ring buffer has room and the packet part could be
  filled in, none otherwise, and never leaves a reservation open. The event is what
  \<^verbatim>\<open>fill_trace\<close> has built from the arguments of the kernel version it is compiled for.\<close>

theorem nft_probe_emits:
  "let (p, v, r) = nft_probe_args version k pkt verdict rule info;
       events' = kprobe_nft_trace_packet version c k pkt verdict rule info events
   in rb_pending events' = rb_pending events \<and>
      rb_out events' = rb_out events @
        (if trace_info_size \<le> rb_avail events \<and> nft_packet_ok k p
         then [fst (fill_trace c k p v r info (zero_trace_info, CLEAN_ERR_INIT))] else [])"
proof (cases "nft_probe_args version k pkt verdict rule info")
  case (fields p v r)
  have "snd (fill_trace c k p v r info (zero_trace_info, CLEAN_ERR_INIT)) =
      (if nft_packet_ok k p then CLEAN_ERR_INIT else CLEAN_ERR_FAILED)"
    by (simp add: fill_trace_def Let_def fill_trace_pkt_info_err)
  with fields show ?thesis
    by (simp add: kprobe_nft_trace_packet_def Let_def case_prod_beta c_consts)
qed

end
