(* ===== verification/Ipt_Claims.thy ===== *)
theory Ipt_Claims
  imports Ipt_Trace Nft_Claims Runs
begin

text \<open>
  The iptables tracer as a state machine over its handlers, and its properties: what a pair
  of entry and return probes reports, that tasks do not disturb each other, and that no sample is
  ever submitted to the ring buffer.
\<close>

section \<open>Steps\<close>

datatype ipt_call =
    Ipt_Entry ptr ptr ptr
  | Ipt_Return u32
  | Nf_Log target saved_regs
  | Nft_Entry ptr ptr
  | Nft_Return u32

fun ipt_run :: "ipt_env \<Rightarrow> ipt_call \<Rightarrow> ipt_state \<Rightarrow> ipt_state" where
  "ipt_run e (Ipt_Entry table skb state) = k_ipt_do_table e table skb state"
| "ipt_run e (Ipt_Return ret) = kr_ipt_do_table e ret"
| "ipt_run e (Nf_Log t regs) = k_nf_log_trace t e regs"
| "ipt_run e (Nft_Entry pkt priv) = k_nft_do_chain e pkt priv"
| "ipt_run e (Nft_Return verdict) = kr_nft_do_chain e verdict"

inductive ipt_reachable :: "ipt_state \<Rightarrow> bool" where
  start: "ipt_reachable ipt_init"
| run: "ipt_reachable s \<Longrightarrow> ipt_reachable (ipt_run e c s)"
| drain: "ipt_reachable s \<Longrightarrow> ipt_reachable (s\<lparr>ipt_events := (ipt_events s)\<lparr>rb_avail := n\<rparr>\<rparr>)"

lemmas ipt_handler_defs =
  k_ipt_do_table_def kr_ipt_do_table_def k_nf_log_trace_def k_nft_do_chain_def kr_nft_do_chain_def
  ipt_do_table_in_def ipt_do_table_out_def ipt_do_table_trace_def

lemma ipt_run_ring:
  "rb_out (ipt_events (ipt_run e c s)) = rb_out (ipt_events s)"
  "rb_pending (ipt_events (ipt_run e c s)) = rb_pending (ipt_events s)"
  by (cases c; simp add: ipt_handler_defs Let_def case_prod_beta split: option.split)+

lemma ipt_run_inv: "htab_inv (skbtracer_ipt s) \<Longrightarrow> htab_inv (skbtracer_ipt (ipt_run e c s))"
  by (cases c)
    (auto simp: ipt_handler_defs Let_def case_prod_beta htab.update_inv htab_pop_inv split: option.split)

lemma ipt_run_other_task:
  "key \<noteq> ie_task e \<Longrightarrow> htab_lookup (skbtracer_ipt (ipt_run e c s)) key = htab_lookup (skbtracer_ipt s) key"
  by (cases c) (auto simp: ipt_handler_defs Let_def case_prod_beta split: option.split)

text \<open>The map keeps its invariant, and the entry of a task belongs to that task.\<close>

interpretation ipt_map: event_system ipt_run "\<lambda>s. htab_inv (skbtracer_ipt s)"
  by unfold_locales (rule ipt_run_inv)

interpretation ipt_tasks: owned_events ipt_run "\<lambda>_. True" ie_task "\<lambda>s. htab_lookup (skbtracer_ipt s)"
  by unfold_locales (auto intro: ipt_run_other_task)

section \<open>Properties\<close>

text \<open>C37: In every reachable state the ring buffer has no submitted sample and no open reservation: every
  event that is built in it is discarded, and reaches user space only through the perf event
  array. The map of calls in progress has no duplicate task and stays within its capacity.\<close>

theorem ipt_ring_only_scratch:
  assumes "ipt_reachable s"
  shows "rb_out (ipt_events s) = [] \<and> rb_pending (ipt_events s) = 0 \<and> htab_inv (skbtracer_ipt s)"
  using assms
proof (induction rule: ipt_reachable.induct)
  case start
  then show ?case by (simp add: ipt_init_def htab_empty_inv)
qed (simp_all add: ipt_run_ring ipt_run_inv)

text \<open>A concrete environment: task 7/8 at time \<open>t\<close>, with the packet of the nftables example.\<close>

definition ipt_demo :: "u64 \<Rightarrow> ipt_env" where
  "ipt_demo t = \<lparr>ie_ctx = \<lparr>cur_tgid = 7, cur_pid = 8, cur_comm = [], cur_cpu = 0, ktime = (\<lambda>_. t)\<rparr>,
     ie_kernel = no_kernel, ie_perf_ok = True\<rparr>"

lemma ipt_demo_task: "ie_task (ipt_demo t) = ie_task (ipt_demo t')"
  by (simp add: ipt_demo_def bpf_get_current_pid_tgid_def)

lemma ipt_init_room:
  "length (ht_elems (skbtracer_ipt ipt_init)) < ht_max (skbtracer_ipt ipt_init)"
  "event_size \<le> rb_avail (ipt_events ipt_init)"
  by (simp_all add: ipt_init_def htab_empty_def event_size_def)

theorem ipt_ring_only_scratch_witness:
  "rb_out (ipt_events (ipt_run (ipt_demo 5) (Ipt_Return 1) (ipt_run (ipt_demo 2) (Ipt_Entry 1 2 3) ipt_init))) = []"
  using ipt_ring_only_scratch [OF ipt_reachable.run [OF ipt_reachable.run [OF ipt_reachable.start]],
      of "ipt_demo 5" "Ipt_Return 1" "ipt_demo 2" "Ipt_Entry 1 2 3"]
  by blast

text \<open>When a task enters and leaves \<^verbatim>\<open>ipt_do_table\<close>, with anything other tasks do in between, and the
  buffers have room, exactly one event is sent: it names the packet of the entry, the table,
  hook and family the entry was given, the verdict of the return, and the time between the two.
  The entry of the task is gone afterwards.\<close>

theorem ipt_entry_return_reports:
  assumes "ie_task e2 = ie_task e1"
    and "length (ht_elems (skbtracer_ipt s)) < ht_max (skbtracer_ipt s)"
    and "list_all (\<lambda>(e, c). ie_task e \<noteq> ie_task e1) calls"
    and "s1 = fold (\<lambda>(e, c). ipt_run e c) calls (k_ipt_do_table e1 table skb state s)"
    and "event_size \<le> rb_avail (ipt_events s1)" and "ie_perf_ok e2"
  shows "\<exists>ev. skbtracer_event (kr_ipt_do_table e2 verdict s1) = skbtracer_event s1 @ [ev] \<and>
      ev_skb ev = skb \<and>
      ev_union ev = Ipt_Info \<lparr>ipt_tablename = take 32 (xt_name (xt_table_at (ie_kernel e2) table)),
        ipt_hook = ucast (hs_hook (hook_at (ie_kernel e2) state)), ipt_verdict = verdict,
        ipt_delay = ktime (ie_ctx e2) 1 - ktime (ie_ctx e1) 0,
        ipt_pf = hs_pf (hook_at (ie_kernel e2) state)\<rparr> \<and>
      htab_lookup (skbtracer_ipt (kr_ipt_do_table e2 verdict s1)) (ie_task e1) = None"
proof -
  let ?args = "\<lparr>ia_skb = skb, ia_state = state, ia_table = table, ia_chain = 0, ia_start_ns = ktime (ie_ctx e1) 0\<rparr>"
  have found: "htab_lookup (skbtracer_ipt s1) (ie_task e1) = Some ?args"
    using htab_update_room [OF assms(2)]
    by (simp add: assms(4) ipt_tasks.runs_other [OF TrueI assms(3)] k_ipt_do_table_def ipt_do_table_in_def)
  show ?thesis
    by (rule exI, intro conjI)
      (simp add: kr_ipt_do_table_def ipt_do_table_out_def Let_def case_prod_beta found assms(1,5,6)
        ipt_emit_out, simp_all add: do_trace_skb_pre set_iptables_info_def XT_TABLE_MAXNAMELEN_def
        kr_ipt_do_table_def ipt_do_table_out_def Let_def case_prod_beta found assms(1))
qed

theorem ipt_entry_return_reports_witness:
  "\<exists>ev. skbtracer_event (kr_ipt_do_table (ipt_demo 50) 1 (k_ipt_do_table (ipt_demo 20) 1 2 3 ipt_init)) = [ev] \<and>
     ev_skb ev = 2"
proof -
  have ring: "ipt_events (k_ipt_do_table (ipt_demo 20) 1 2 3 ipt_init) = ipt_events ipt_init"
    "skbtracer_event (k_ipt_do_table (ipt_demo 20) 1 2 3 ipt_init) = []"
    by (simp_all add: k_ipt_do_table_def ipt_do_table_in_def ipt_init_def)
  have ok: "ie_perf_ok (ipt_demo 50)" by (simp add: ipt_demo_def)
  show ?thesis
    using ipt_entry_return_reports [OF ipt_demo_task [of 50 20] ipt_init_room(1), of "[]"
        "k_ipt_do_table (ipt_demo 20) 1 2 3 ipt_init" 1 2 3 1] ring ok ipt_init_room(2)
    by auto
qed

text \<open>For an IPv4 TCP packet in the buffer, with IP options or without, the event has the packet's
  addresses as they are on the wire, its length, ports in host order, and its flags word.\<close>

theorem do_trace_skb_ipv4_tcp:
  assumes "mem_at (k_mem (ie_kernel e)) (get_l3_header (skb_at (ie_kernel e) p))
           (iphdr_bytes ip @ opts @ tcphdr_bytes tcp)"
    and "ip_ihl ip * 4 = 20 + length opts" and "drop_bit 4 (ip_vihl ip) AND 15 = 4"
    and "ip_protocol ip = 6"
  shows "let ev = do_trace_skb e p zero_event
    in take 4 (l3_saddr (ev_l3_info ev)) = to_le 4 (ip_saddr ip) \<and>
       take 4 (l3_daddr (ev_l3_info ev)) = to_le 4 (ip_daddr ip) \<and>
       l3_tot_len (ev_l3_info ev) = ntohs (ip_tot_len ip) \<and> l3_ip_version (ev_l3_info ev) = 4 \<and>
       l4_sport (ev_l4_info ev) = ntohs (tcp_source tcp) \<and>
       l4_dport (ev_l4_info ev) = ntohs (tcp_dest tcp) \<and>
       l4_tcpflags (ev_l4_info ev) = tcp_flags tcp"
proof -
  let ?m = "k_mem (ie_kernel e)" and ?skb = "skb_at (ie_kernel e) p"
  let ?l3 = "get_l3_header ?skb"
  have ip: "iphdr_at ?m ?l3 = ip" using assms(1) by (intro iphdr_round_trip) simp
  have ver: "get_ip_version ?m ?l3 = 4" using assms(3) by (simp add: get_ip_version_vihl ip)
  have len: "unat (get_ipv4_header_len ?m ?l3) = 20 + length opts"
    using assms(2) by (simp add: get_ipv4_header_len_ihl ip)
  have "get_l4_header ?m ?skb = ?l3 + of_nat (20 + length opts)"
    unfolding len [symmetric] by (simp add: get_l4_header_def Let_def ver)
  then have l4: "tcphdr_at ?m (get_l4_header ?m ?skb) = tcp" "load16 ?m (get_l4_header ?m ?skb + 12) = tcp_flags tcp"
  proof -
    assume l4: "get_l4_header ?m ?skb = ?l3 + of_nat (20 + length opts)"
    have "mem_at ?m (?l3 + of_nat (20 + length opts)) (tcphdr_bytes tcp)"
      using assms(1) by (simp add: add.assoc)
    then show t: "tcphdr_at ?m (get_l4_header ?m ?skb) = tcp"
      unfolding l4 by (rule tcphdr_round_trip)
    show "load16 ?m (get_l4_header ?m ?skb + 12) = tcp_flags tcp"
      using arg_cong [OF t, of tcp_flags] by (simp add: tcphdr_at_def)
  qed
  show ?thesis
    by (simp add: do_trace_skb_def Let_def ver set_ipv4_info_def set_tcp_info_def set_event_info_def ip l4
        assms(4) take4_set_v4addr zero_event_def IPPROTO_TCP_def)
qed

theorem do_trace_skb_ipv4_tcp_witness:
  "let ev = do_trace_skb ((ipt_demo 1)\<lparr>ie_kernel := demo_kernel\<rparr>) 200 zero_event
   in l4_sport (ev_l4_info ev) = 80 \<and> l4_dport (ev_l4_info ev) = 443"
proof -
  let ?e = "(ipt_demo 1)\<lparr>ie_kernel := demo_kernel\<rparr>"
  have m: "k_mem (ie_kernel ?e) = demo_mem" "skb_at (ie_kernel ?e) 200 = demo_skb"
    by (simp_all add: demo_kernel_def)
  have "get_l3_header demo_skb = 4110" by (simp add: get_l3_header_def demo_skb_def zero_defs)
  moreover have "mem_at demo_mem 4110 (iphdr_bytes demo_ip @ [] @ tcphdr_bytes demo_tcp)"
    using demo_mem_at by (simp add: demo_frame_def)
  ultimately have "mem_at (k_mem (ie_kernel ?e)) (get_l3_header (skb_at (ie_kernel ?e) 200))
      (iphdr_bytes demo_ip @ [] @ tcphdr_bytes demo_tcp)" by (simp only: m)
  moreover have "ip_ihl demo_ip * 4 = 20 + length []" "drop_bit 4 (ip_vihl demo_ip) AND 15 = 4"
    "ip_protocol demo_ip = 6"
    by (simp_all add: ip_ihl_def demo_ip_def)
  ultimately have "let ev = do_trace_skb ?e 200 zero_event
      in l4_sport (ev_l4_info ev) = ntohs (tcp_source demo_tcp) \<and>
         l4_dport (ev_l4_info ev) = ntohs (tcp_dest demo_tcp)"
    unfolding Let_def using do_trace_skb_ipv4_tcp [of ?e 200 demo_ip "[]" demo_tcp, unfolded Let_def] by blast
  moreover have "ntohs (tcp_source demo_tcp) = 80" "ntohs (tcp_dest demo_tcp) = 443"
    by (simp_all add: demo_tcp_def) (code_simp, code_simp)
  ultimately show ?thesis by (simp only:)
qed

end
