(* ===== verification/Ipt_History.thy ===== *)
theory Ipt_History
  imports Ipt_Claims
begin

text \<open>
  The iptables tracer over whole runs: the map of calls in progress is determined by the history,
  as long as no more tasks run than it has entries.
\<close>

section \<open>The history of a task\<close>

text \<open>What an entry probe records; the other probes record nothing.\<close>

fun ipt_opens :: "ipt_env \<Rightarrow> ipt_call \<Rightarrow> ipt_do_table_args option" where
  "ipt_opens e (Ipt_Entry table skb state) =
     Some \<lparr>ia_skb = skb, ia_state = state, ia_table = table, ia_chain = 0, ia_start_ns = ktime (ie_ctx e) 0\<rparr>"
| "ipt_opens e (Nft_Entry pkt priv) =
     Some \<lparr>ia_skb = load64 (k_mem (ie_kernel e)) pkt, ia_state = 0, ia_table = 0, ia_chain = priv,
       ia_start_ns = ktime (ie_ctx e) 0\<rparr>"
| "ipt_opens e _ = None"

fun is_nf_log :: "ipt_call \<Rightarrow> bool" where
  "is_nf_log (Nf_Log t regs) \<longleftrightarrow> True"
| "is_nf_log _ \<longleftrightarrow> False"

text \<open>The call of a task that is open after a run: its last entry, unless a return came later, of
  whichever of the two functions.\<close>

definition open_call :: "(ipt_env \<times> ipt_call) list \<Rightarrow> u64 \<Rightarrow> ipt_do_table_args option" where
  "open_call calls task =
     (let own = filter (\<lambda>(e, c). ie_task e = task \<and> \<not> is_nf_log c) calls
      in if own = [] then None else (case last own of (e, c) \<Rightarrow> ipt_opens e c))"

definition calls_run :: "ipt_env \<Rightarrow> ipt_call \<Rightarrow> (u64 \<rightharpoonup> ipt_do_table_args) \<Rightarrow> (u64 \<rightharpoonup> ipt_do_table_args)" where
  "calls_run e c m = (if is_nf_log c then m else m(ie_task e := ipt_opens e c))"

lemma calls_run_open: "runs calls_run calls (\<lambda>_. None) task = open_call calls task"
proof (induction calls rule: rev_induct)
  case (snoc a calls)
  obtain e c where "a = (e, c)" by (cases a)
  with snoc show ?case
    by (auto simp: calls_run_def open_call_def Let_def)
qed (simp add: open_call_def)

section \<open>The map of calls in progress\<close>

text \<open>The tasks that run are in \<open>T\<close>, no more than the map has entries.\<close>

definition tasks_in :: "u64 set \<Rightarrow> ipt_state \<Rightarrow> bool" where
  "tasks_in T s \<longleftrightarrow>
     htab_inv (skbtracer_ipt s) \<and> ht_max (skbtracer_ipt s) = 1024 \<and>
     dom (htab_lookup (skbtracer_ipt s)) \<subseteq> T \<and> finite T \<and> card T \<le> 1024"

lemma length_elems_dom: "htab_inv h \<Longrightarrow> length (ht_elems h) = card (dom (htab_lookup h))"
proof -
  assume "htab_inv h"
  then have "length (ht_elems h) = card (fst ` set (ht_elems h))"
    using distinct_card [of "map fst (ht_elems h)"] by (simp add: htab_inv_def)
  moreover have "htab_lookup h = map_of (ht_elems h)" by (simp add: htab_lookup_def fun_eq_iff)
  ultimately show ?thesis by (simp add: dom_map_of_conv_image_fst)
qed

lemma htab_update_any_tasks:
  assumes "tasks_in T s" "k \<in> T"
  shows "htab_lookup (snd (htab_update (skbtracer_ipt s) k v BPF_ANY)) = (htab_lookup (skbtracer_ipt s))(k \<mapsto> v)"
proof (cases "htab_lookup (skbtracer_ipt s) k")
  case None
  then have "dom (htab_lookup (skbtracer_ipt s)) \<subset> T" using assms by (auto simp: tasks_in_def)
  then have "card (dom (htab_lookup (skbtracer_ipt s))) < card T"
    using assms(1) by (intro psubset_card_mono) (simp_all add: tasks_in_def)
  then have "length (ht_elems (skbtracer_ipt s)) < ht_max (skbtracer_ipt s)"
    using assms(1) by (simp add: tasks_in_def length_elems_dom)
  from htab_update_room [OF this] show ?thesis by (auto simp: fun_eq_iff)
next
  case (Some w)
  then show ?thesis using htab.update_present [of "skbtracer_ipt s" k w v] by (auto simp: fun_eq_iff)
qed

lemma ipt_run_ht_max: "ht_max (skbtracer_ipt (ipt_run e c s)) = ht_max (skbtracer_ipt s)"
  by (cases c) (auto simp: ipt_handler_defs Let_def case_prod_beta split: option.split)

lemma ipt_run_calls:
  assumes "tasks_in T s" "ie_task e \<in> T"
  shows "htab_lookup (skbtracer_ipt (ipt_run e c s)) = calls_run e c (htab_lookup (skbtracer_ipt s))"
  using htab_update_any_tasks [OF assms]
  by (cases c)
    (auto simp: ipt_handler_defs Let_def case_prod_beta calls_run_def fun_eq_iff simp del: htab_simps
      split: option.split)

lemma tasks_in_run: "tasks_in T s \<Longrightarrow> ie_task e \<in> T \<Longrightarrow> tasks_in T (ipt_run e c s)"
  using ipt_run_calls [of T s e c] ipt_run_inv [of s e c] ipt_run_ht_max [of e c s]
  by (auto simp: tasks_in_def calls_run_def split: if_splits)

interpretation ipt_sim: simulation ipt_run "\<lambda>_. tasks_in T" "\<lambda>e _. ie_task e \<in> T"
  "\<lambda>s. htab_lookup (skbtracer_ipt s)" calls_run for T
  by unfold_locales (simp_all add: tasks_in_run ipt_run_calls)

section \<open>Properties\<close>

lemma finite_tasks: "finite (ie_task ` fst ` set calls)"
  by simp

lemma calls_lookup:
  assumes "card (ie_task ` fst ` set calls) \<le> 1024"
  shows "htab_lookup (skbtracer_ipt (runs ipt_run calls ipt_init)) task = open_call calls task"
proof -
  have start: "tasks_in (ie_task ` fst ` set calls) ipt_init"
    using assms by (simp add: tasks_in_def ipt_init_def htab_empty_inv dom_def) (simp add: htab_empty_def)
  have "list_all (\<lambda>(e, c). ie_task e \<in> ie_task ` fst ` set calls) calls"
    by (simp add: list_all_iff) force
  from ipt_sim.runs_abs [OF start this]
  have "htab_lookup (skbtracer_ipt (runs ipt_run calls ipt_init)) =
      runs calls_run calls (htab_lookup (skbtracer_ipt ipt_init))" .
  moreover have "htab_lookup (skbtracer_ipt ipt_init) = (\<lambda>_. None)" by (simp add: ipt_init_def fun_eq_iff)
  ultimately show ?thesis by (simp only: calls_run_open)
qed

text \<open>The event a return sends for the recorded arguments.\<close>

fun return_reports :: "ipt_env \<Rightarrow> ipt_call \<Rightarrow> ipt_do_table_args \<Rightarrow> event_t \<Rightarrow> bool" where
  "return_reports e (Ipt_Return verdict) a ev \<longleftrightarrow>
     ev_skb ev = ia_skb a \<and>
     ev_union ev = Ipt_Info \<lparr>ipt_tablename = take 32 (xt_name (xt_table_at (ie_kernel e) (ia_table a))),
       ipt_hook = ucast (hs_hook (hook_at (ie_kernel e) (ia_state a))), ipt_verdict = verdict,
       ipt_delay = ktime (ie_ctx e) 1 - ia_start_ns a, ipt_pf = hs_pf (hook_at (ie_kernel e) (ia_state a))\<rparr>"
| "return_reports e (Nft_Return verdict) a ev \<longleftrightarrow>
     ev_skb ev = ia_skb a \<and> ev_start_ns ev = ia_start_ns a \<and>
     ev_union ev =
       (let k = ie_kernel e; chain = nft_chain_at k (ia_chain a)
        in Nft_Info \<lparr>ntr_tablename = snd (probe_read_str (k_mem k) (replicate 32 0) (nt_name (nft_table_at k (nc_table chain)))),
             ntr_chainname = snd (probe_read_str (k_mem k) (replicate 32 0) (nc_name chain)),
             ntr_delay = ktime (ie_ctx e) 1 - ia_start_ns a, ntr_verdict = verdict\<rparr>)"
| "return_reports e _ a ev \<longleftrightarrow> False"

lemma return_event:
  assumes "c = Ipt_Return verdict \<or> c = Nft_Return verdict" and found: "htab_lookup (skbtracer_ipt s) (ie_task e) = Some a"
  shows "\<exists>ev. ipt_run e c s = ipt_emit e ev (s\<lparr>skbtracer_ipt := snd (htab_pop (skbtracer_ipt s) (ie_task e))\<rparr>) \<and>
    return_reports e c a ev"
  using assms(1)
proof
  assume c: "c = Ipt_Return verdict"
  show ?thesis
    by (rule exI, rule conjI, simp add: c kr_ipt_do_table_def ipt_do_table_out_def Let_def case_prod_beta found)
      (simp add: c do_trace_skb_pre set_iptables_info_def XT_TABLE_MAXNAMELEN_def)
next
  assume c: "c = Nft_Return verdict"
  show ?thesis
    by (rule exI, rule conjI, simp add: c kr_nft_do_chain_def Let_def case_prod_beta found)
      (simp add: c do_trace_skb_pre Let_def XT_TABLE_MAXNAMELEN_def)
qed

lemma return_silent:
  assumes "c = Ipt_Return verdict \<or> c = Nft_Return verdict" and "htab_lookup (skbtracer_ipt s) (ie_task e) = None"
  shows "skbtracer_event (ipt_run e c s) = skbtracer_event s"
  using assms
  by (auto simp: kr_ipt_do_table_def ipt_do_table_out_def kr_nft_do_chain_def Let_def case_prod_beta)

text \<open>What is sent is paid for with space of the ring buffer, which only its reader gives back.\<close>

lemma ipt_emit_paid:
  "rb_avail (ipt_events (ipt_emit e ev s)) + event_size * length (skbtracer_event (ipt_emit e ev s)) \<le>
     rb_avail (ipt_events s) + event_size * length (skbtracer_event s)"
  by (simp add: ipt_emit_def guard_ring_buf_def guard_ring_buf_destructor_def bpf_ringbuf_reserve_def
      bpf_ringbuf_discard_def CLEAN_ERR_INIT_def bpf_perf_event_output_def)

lemma ipt_run_paid:
  "rb_avail (ipt_events (ipt_run e c s)) + event_size * length (skbtracer_event (ipt_run e c s)) \<le>
     rb_avail (ipt_events s) + event_size * length (skbtracer_event s)"
  using ipt_emit_paid [of e _ s] ipt_emit_paid [of e _ "s\<lparr>skbtracer_ipt := snd (htab_pop (skbtracer_ipt s) (ie_task e))\<rparr>"]
  by (cases c) (simp_all add: ipt_handler_defs Let_def case_prod_beta split: option.split)

interpretation ipt_paid: event_system ipt_run
  "\<lambda>s. rb_avail (ipt_events s) + event_size * length (skbtracer_event s) \<le> 1048576"
  by unfold_locales (rule order_trans [OF ipt_run_paid])

text \<open>C38: Unless user space reads the ring buffer, where it never finds a sample, the tracer falls silent: a
  discarded sample keeps its space until it has been passed over, so that at most 3744 events are
  ever sent, however long the run.\<close>

theorem ipt_events_end_without_reader:
  "length (skbtracer_event (runs ipt_run calls ipt_init)) \<le> 3744"
  using ipt_paid.runs_inv [of ipt_init calls]
  by (simp add: ipt_init_def event_size_def)

text \<open>C7: What the tracer reports is determined by the history of the task alone, as long as at most 1024
  tasks have run: a return of either function sends exactly one event, given space in the ring
  buffer and the perf array, if the last probe of its task on either function was an entry, and none
  otherwise.
  The event is for the packet and the time of that last entry, of whichever function it was: a
  call inside another takes over its entry, and a return of one function may report an entry of
  the other.\<close>

theorem ipt_events_match_history:
  assumes "card (ie_task ` fst ` set calls) \<le> 1024"
    and "c = Ipt_Return verdict \<or> c = Nft_Return verdict"
    and "s = runs ipt_run calls ipt_init"
  shows "case open_call calls (ie_task e) of
      None \<Rightarrow> skbtracer_event (ipt_run e c s) = skbtracer_event s
    | Some a \<Rightarrow> \<exists>ev. return_reports e c a ev \<and>
        skbtracer_event (ipt_run e c s) = skbtracer_event s @ (if event_size \<le> rb_avail (ipt_events s) \<and> ie_perf_ok e then [ev] else [])"
proof (cases "open_call calls (ie_task e)")
  case None
  then show ?thesis
    using return_silent [OF assms(2), of s e] by (simp add: calls_lookup [OF assms(1)] assms(3))
next
  case (Some a)
  then have "htab_lookup (skbtracer_ipt s) (ie_task e) = Some a"
    by (simp add: calls_lookup [OF assms(1)] assms(3))
  from return_event [OF assms(2) this] obtain ev where
    "ipt_run e c s = ipt_emit e ev (s\<lparr>skbtracer_ipt := snd (htab_pop (skbtracer_ipt s) (ie_task e))\<rparr>)"
    "return_reports e c a ev" by blast
  then show ?thesis
    unfolding Some option.case by (intro exI [of _ ev]) (simp add: ipt_emit_out)
qed

text \<open>The return of the inner call reports the entry of the inner one, and the return of the outer one nothing.\<close>

theorem ipt_events_match_history_witness:
  "let inner = [(ipt_demo 1, Ipt_Entry 1 2 3), (ipt_demo 2, Nft_Entry 4 5)];
       s = runs ipt_run inner ipt_init; s' = ipt_run (ipt_demo 3) (Nft_Return 1) s
   in (\<exists>ev. skbtracer_event s' = skbtracer_event s @ [ev] \<and> ev_start_ns ev = 2) \<and>
      skbtracer_event (ipt_run (ipt_demo 4) (Ipt_Return 1) s') = skbtracer_event s'"
proof -
  let ?inner = "[(ipt_demo 1, Ipt_Entry 1 2 3), (ipt_demo 2, Nft_Entry 4 5)]"
  let ?outer = "?inner @ [(ipt_demo 3, Nft_Return 1)]"
  have task: "ie_task (ipt_demo t) = ie_task (ipt_demo 0)" for t by (rule ipt_demo_task)
  have card: "card (ie_task ` fst ` set ?inner) \<le> 1024" "card (ie_task ` fst ` set ?outer) \<le> 1024"
    by (simp_all add: task [of 1] task [of 2] task [of 3])
  have opened: "open_call ?inner (ie_task (ipt_demo 3)) = ipt_opens (ipt_demo 2) (Nft_Entry 4 5)"
    "open_call ?outer (ie_task (ipt_demo 4)) = None"
    by (simp_all add: open_call_def task [of 1] task [of 2] task [of 3] task [of 4] del: ipt_opens.simps(2))
  have ok: "ie_perf_ok (ipt_demo 3)" "ktime (ie_ctx (ipt_demo 2)) 0 = 2" by (simp_all add: ipt_demo_def)
  have room: "event_size \<le> rb_avail (ipt_events (runs ipt_run ?inner ipt_init))"
    using ipt_init_room(2) by (simp add: ipt_handler_defs Let_def)
  have "\<exists>ev. skbtracer_event (ipt_run (ipt_demo 3) (Nft_Return 1) (runs ipt_run ?inner ipt_init)) =
      skbtracer_event (runs ipt_run ?inner ipt_init) @ [ev] \<and> ev_start_ns ev = 2"
    using ipt_events_match_history [OF card(1) disjI2 [OF refl] refl, where e = "ipt_demo 3" and verdict = 1] room ok
    by (simp only: opened ipt_opens.simps option.case return_reports.simps if_True simp_thms) force
  moreover have "skbtracer_event (ipt_run (ipt_demo 4) (Ipt_Return 1) (runs ipt_run ?outer ipt_init)) =
      skbtracer_event (runs ipt_run ?outer ipt_init)"
    using ipt_events_match_history [OF card(2) disjI1 [OF refl] refl, where e = "ipt_demo 4" and verdict = 1]
    by (simp only: opened option.case)
  moreover have "runs ipt_run ?outer ipt_init = ipt_run (ipt_demo 3) (Nft_Return 1) (runs ipt_run ?inner ipt_init)"
    by (simp only: fold_append fold.simps o_apply prod.case id_apply)
  ultimately show ?thesis by (simp only: Let_def simp_thms)
qed

end
