(* ===== verification/Wire_Packet.thy ===== *)
theory Wire_Packet
  imports Packet
begin

text \<open>
  Whole packets: what a frame on the wire is made of, whatever program looks at it. A packet is an
  IPv4 or IPv6 header with a transport header behind it; \<open>packet_bytes\<close> is its wire form and
  \<open>wire_ok\<close> says that the length, version and protocol fields of the network header describe what
  follows. \<open>skb_holds\<close> says that the linear buffer of a socket buffer has such a frame between its
  head and its end, with the two header offsets pointing at it. The reports of the tracers are stated
  for every packet of this kind.
\<close>

section \<open>Packets\<close>

datatype l4_hdr = Tcp tcphdr | Udp udphdr | Icmp icmphdr

datatype wire_packet = V4 iphdr bytes l4_hdr | V6 ipv6hdr l4_hdr

fun l4_bytes :: "l4_hdr \<Rightarrow> bytes" where
  "l4_bytes (Tcp h) = tcphdr_bytes h"
| "l4_bytes (Udp h) = udphdr_bytes h"
| "l4_bytes (Icmp h) = icmphdr_bytes h"

fun packet_bytes :: "wire_packet \<Rightarrow> bytes" where
  "packet_bytes (V4 ip opts l4) = iphdr_bytes ip @ opts @ l4_bytes l4"
| "packet_bytes (V6 ip l4) = ipv6hdr_bytes ip @ l4_bytes l4"

text \<open>The protocol numbers; the one of ICMP depends on the version of IP.\<close>

fun l4_number :: "u8 \<Rightarrow> l4_hdr \<Rightarrow> u8" where
  "l4_number icmp (Tcp h) = 6"
| "l4_number icmp (Udp h) = 17"
| "l4_number icmp (Icmp h) = icmp"

fun wire_ok :: "wire_packet \<Rightarrow> bool" where
  "wire_ok (V4 ip opts l4) \<longleftrightarrow>
     drop_bit 4 (ip_vihl ip) AND 15 = 4 \<and> ip_ihl ip * 4 = 20 + length opts \<and> ip_protocol ip = l4_number 1 l4"
| "wire_ok (V6 ip l4) \<longleftrightarrow>
     drop_bit 4 (ip6_vprio ip) AND 15 = 6 \<and> length (ip6_flow_lbl ip) = 3 \<and> ip6_nexthdr ip = l4_number 58 l4"

text \<open>What the reports are about: the bytes from the network header to the transport header, the
  ether type, and the ports in network order (none for ICMP).\<close>

fun net_len :: "wire_packet \<Rightarrow> nat" where
  "net_len (V4 ip opts l4) = 20 + length opts"
| "net_len (V6 ip l4) = 40"

fun packet_l4 :: "wire_packet \<Rightarrow> l4_hdr" where
  "packet_l4 (V4 ip opts l4) = l4"
| "packet_l4 (V6 ip l4) = l4"

fun ether_type :: "wire_packet \<Rightarrow> u16" where
  "ether_type (V4 ip opts l4) = 0x0800"
| "ether_type (V6 ip l4) = 0x86DD"

fun l4_ports :: "l4_hdr \<Rightarrow> (u16 \<times> u16) option" where
  "l4_ports (Tcp h) = Some (tcp_source h, tcp_dest h)"
| "l4_ports (Udp h) = Some (udp_source h, udp_dest h)"
| "l4_ports (Icmp h) = None"

lemma length_l4_bytes: "8 \<le> length (l4_bytes l4)" "length (l4_bytes (Tcp h)) = 20"
  by (cases l4) simp_all

lemma length_packet_bytes:
  "wire_ok p \<Longrightarrow> length (packet_bytes p) = net_len p + length (l4_bytes (packet_l4 p))"
  by (cases p) simp_all

lemma net_len_bound: "wire_ok p \<Longrightarrow> 20 \<le> net_len p" "wire_ok p \<Longrightarrow> net_len p \<le> 60"
proof -
  have "ip_ihl h * 4 \<le> 60" for h
  proof -
    have "ip_vihl h AND 15 \<le> 15" by (rule word_and_le1)
    then show ?thesis by (simp add: ip_ihl_def word_le_nat_alt)
  qed
  from this [of "case p of V4 ip opts l4 \<Rightarrow> ip"]
  show "wire_ok p \<Longrightarrow> 20 \<le> net_len p" "wire_ok p \<Longrightarrow> net_len p \<le> 60"
    by (cases p; simp)+
qed

text \<open>The readers applied at the places the wire form gives them find the headers.\<close>

lemma read_packet_v4:
  assumes "mem_at m a (packet_bytes (V4 ip opts l4))"
  shows "iphdr_at m a = ip"
    and "l4 = Tcp th \<Longrightarrow> tcphdr_at m (a + of_nat (20 + length opts)) = th"
    and "l4 = Udp uh \<Longrightarrow> udphdr_at m (a + of_nat (20 + length opts)) = uh"
    and "l4 = Icmp ch \<Longrightarrow> icmphdr_at m (a + of_nat (20 + length opts)) = ch"
  using assms ip.read_inside [of m a "[]" ip "[]"]
    tcp.read_inside [of m a "iphdr_bytes ip @ opts" th "[]"]
    udp.read_inside [of m a "iphdr_bytes ip @ opts" uh "[]"]
    icmp.read_inside [of m a "iphdr_bytes ip @ opts" ch "[]"]
  by simp_all

lemma read_packet_v6:
  assumes "mem_at m a (packet_bytes (V6 ip l4))" and "length (ip6_flow_lbl ip) = 3"
  shows "ipv6hdr_at m a = ip"
    and "l4 = Tcp th \<Longrightarrow> tcphdr_at m (a + 40) = th"
    and "l4 = Udp uh \<Longrightarrow> udphdr_at m (a + 40) = uh"
    and "l4 = Icmp ch \<Longrightarrow> icmphdr_at m (a + 40) = ch"
  using assms ip6.read_inside [of ip m a "[]" "[]"]
    tcp.read_inside [of m a "ipv6hdr_bytes ip" th "[]"]
    udp.read_inside [of m a "ipv6hdr_bytes ip" uh "[]"]
    icmp.read_inside [of m a "ipv6hdr_bytes ip" ch "[]"]
  by simp_all

section \<open>Frames in socket buffers\<close>

definition frame_bytes :: "ethhdr \<Rightarrow> wire_packet \<Rightarrow> bytes" where
  "frame_bytes eh p = ethhdr_bytes eh @ packet_bytes p"

definition eth_ok :: "ethhdr \<Rightarrow> wire_packet \<Rightarrow> bool" where
  "eth_ok eh p \<longleftrightarrow> length (eth_h_dest eh) = 6 \<and> length (eth_h_source eh) = 6 \<and>
     ntohs (eth_h_proto eh) = ether_type p"

definition skb_holds :: "bytemem \<Rightarrow> sk_buff \<Rightarrow> bytes \<Rightarrow> ethhdr \<Rightarrow> wire_packet \<Rightarrow> bytes \<Rightarrow> bool" where
  "skb_holds m skb headroom eh p payload \<longleftrightarrow>
     eth_ok eh p \<and> wire_ok p \<and>
     mem_at m (skb_head skb) (headroom @ frame_bytes eh p @ payload) \<and>
     skb_head skb \<noteq> 0 \<and>
     unat (skb_head skb) + length (headroom @ frame_bytes eh p @ payload) < 2 ^ 64 \<and>
     unat (skb_mac_header skb) = length headroom \<and>
     unat (skb_network_header skb) = length headroom + 14 \<and>
     unat (skb_end skb) = length (headroom @ frame_bytes eh p @ payload)"

lemma eth_length: "eth_ok eh p \<Longrightarrow> length (ethhdr_bytes eh) = 14"
  by (simp add: eth_ok_def eth.wire_length)

lemma skb_offset: "skb_head skb + ucast (x :: u16) = skb_head skb + of_nat (unat x)"
  by simp

lemma skb_holds_reads:
  assumes "skb_holds m skb headroom eh p payload"
  shows "ethhdr_at m (skb_head skb + ucast (skb_mac_header skb)) = eh"
    and "mem_at m (skb_head skb + ucast (skb_network_header skb)) (packet_bytes p)"
proof -
  have ok: "eth_ok eh p" and at: "mem_at m (skb_head skb) (headroom @ frame_bytes eh p @ payload)"
    using assms by (simp_all add: skb_holds_def)
  have mac: "skb_head skb + ucast (skb_mac_header skb) = skb_head skb + of_nat (length headroom)"
    and net: "skb_head skb + ucast (skb_network_header skb) = skb_head skb + of_nat (length headroom) + of_nat 14"
    using assms unfolding skb_offset by (simp_all add: skb_holds_def add.assoc)
  show "ethhdr_at m (skb_head skb + ucast (skb_mac_header skb)) = eh"
    unfolding mac using at ok by (intro ethhdr_round_trip) (simp_all add: frame_bytes_def eth_ok_def)
  show "mem_at m (skb_head skb + ucast (skb_network_header skb)) (packet_bytes p)"
    unfolding net using at by (simp add: frame_bytes_def eth_length [OF ok])
qed

text \<open>A place inside the buffer is not behind its end; the comparison is the one the programs make.\<close>

lemma skb_holds_room:
  assumes "skb_holds m skb headroom eh p payload"
  shows "skb_head skb + ucast (skb_end skb) = skb_head skb + of_nat (unat (skb_end skb))"
    and "skb_head skb < skb_head skb + ucast (skb_end skb)"
    and "n \<le> 14 \<Longrightarrow>
      \<not> skb_head skb + ucast (skb_end skb) < skb_head skb + ucast (skb_mac_header skb) + of_nat n"
    and "n \<le> length (packet_bytes p) \<Longrightarrow>
      \<not> skb_head skb + ucast (skb_end skb) < skb_head skb + ucast (skb_network_header skb) + of_nat n"
proof -
  define len where "len = unat (skb_end skb)"
  have len: "len = length headroom + 14 + length (packet_bytes p) + length payload"
    "unat (skb_head skb) + len < 2 ^ 64"
    using assms eth_length [of eh p] by (simp_all add: len_def skb_holds_def frame_bytes_def)
  have off: "unat (skb_mac_header skb) = length headroom" "unat (skb_network_header skb) = length headroom + 14"
    using assms by (simp_all add: skb_holds_def)
  show e: "skb_head skb + ucast (skb_end skb) = skb_head skb + of_nat (unat (skb_end skb))"
    by simp
  have u: "unat (skb_head skb + of_nat i) = unat (skb_head skb) + i" if "i \<le> len" for i
    using that len(2) by (intro unat_add_of_nat) simp
  have room: "\<not> skb_head skb + ucast (skb_end skb) < skb_head skb + of_nat i" if "i \<le> len" for i
    using u [OF that] u [of len] that unfolding e len_def [symmetric] by (simp add: word_less_nat_alt)
  show "skb_head skb < skb_head skb + ucast (skb_end skb)"
    using u [of 0] u [of len] len(1) unfolding e len_def [symmetric] by (simp add: word_less_nat_alt)
  show "\<not> skb_head skb + ucast (skb_end skb) < skb_head skb + ucast (skb_mac_header skb) + of_nat n"
    if "n \<le> 14"
    using room [of "length headroom + n"] that len(1) off unfolding skb_offset by (simp add: add.assoc)
  show "\<not> skb_head skb + ucast (skb_end skb) < skb_head skb + ucast (skb_network_header skb) + of_nat n"
    if "n \<le> length (packet_bytes p)"
    using room [of "length headroom + 14 + n"] that len(1) off unfolding skb_offset by (simp add: add.assoc)
qed

end
