(* ===== verification/Tc_Dump.thy ===== *)
theory Tc_Dump
  imports Kernel Packet
begin

text \<open>
  \<^verbatim>\<open>ebpf/headers/tc_dump.h\<close>: copying the headers of a frame into the fixed buffer of an
  event, for a traffic control program (whose socket buffer is read with
  \<^verbatim>\<open>bpf_skb_load_bytes_relative\<close>) and for a tracing program (which reads kernel memory).
  \<^verbatim>\<open>var_off\<close> is where the next header is in the frame, \<^verbatim>\<open>cpy_off\<close> where it goes in the
  buffer. Loads that fail leave zeroes at the destination and end the copy.
\<close>

section \<open>State\<close>

definition VLAN_ID_MASK :: u16 where "VLAN_ID_MASK = 0x0FFF"
definition ETH_P_8021Q :: u16 where "ETH_P_8021Q = 0x8100"
definition ETH_P_8021AD :: u16 where "ETH_P_8021AD = 0x88A8"
definition ETH_P_IPV4 :: u16 where "ETH_P_IPV4 = 0x0800"
definition VXLAN_PORT :: u16 where "VXLAN_PORT = 4789"

definition DATA_SIZE :: nat where
  "DATA_SIZE = ETH_HLEN + VLAN_HLEN + IP_HLEN + UDP_HLEN + VXLAN_HLEN + ETH_HLEN + IP_HLEN + TCP_HLEN"

record tc_event =
  te_vlan :: vlan_hdr
  te_ifindex :: u32
  te_mark :: u32
  te_direction :: u16
  te_total_len :: u16
  te_data :: bytes

definition zero_tc_event :: tc_event where
  "zero_tc_event = \<lparr>te_vlan = \<lparr>vlan_tci = 0, vlan_encap_proto = 0\<rparr>, te_ifindex = 0, te_mark = 0,
     te_direction = 0, te_total_len = 0, te_data = replicate DATA_SIZE 0\<rparr>"

record copy_state =
  cp_var_off :: nat
  cp_cpy_off :: nat
  cp_total_len :: u16
  cp_data :: bytes

text \<open>A piece of the routine: whether it goes on, and the state it leaves.\<close>

type_synonym copy_result = "bool \<times> copy_state"

definition and_then :: "copy_result \<Rightarrow> (copy_state \<Rightarrow> copy_result) \<Rightarrow> copy_result" where
  "and_then r f = (if fst r then f (snd r) else r)"

section \<open>Predicates\<close>

definition is_vlan_proto :: "u16 \<Rightarrow> bool" where
  "is_vlan_proto proto \<longleftrightarrow> proto = htons_const ETH_P_8021Q \<or> proto = htons_const ETH_P_8021AD"

definition is_ipv4_proto :: "u16 \<Rightarrow> bool" where
  "is_ipv4_proto proto \<longleftrightarrow> proto = htons_const ETH_P_IPV4"

definition is_vxlan_port :: "u16 \<Rightarrow> bool" where
  "is_vxlan_port port \<longleftrightarrow> port = htons_const VXLAN_PORT"

text \<open>\<^verbatim>\<open>__validate_skb(skb, hdr)\<close> for a header of \<open>n\<close> bytes at \<open>hdr\<close>.\<close>

definition validate_skb :: "u64 \<Rightarrow> u64 \<Rightarrow> nat \<Rightarrow> bool" where
  "validate_skb data_end hdr n \<longleftrightarrow> hdr + of_nat n \<le> data_end"

definition calc_l3_off :: "bytemem \<Rightarrow> u64 \<Rightarrow> u64 \<Rightarrow> nat" where
  "calc_l3_off m data data_end =
     (if \<not> validate_skb data_end data ETH_HLEN then 0
      else ETH_HLEN + (if is_vlan_proto (eth_h_proto (ethhdr_at m data)) then VLAN_HLEN else 0))"

section \<open>Loads\<close>

type_synonym loader = "nat \<Rightarrow> nat \<Rightarrow> bytes option"

definition tc_load :: "bytes \<Rightarrow> loader" where
  "tc_load frame off n = (if off + n \<le> length frame then Some (take n (drop off frame)) else None)"

definition fentry_load :: "bytemem \<Rightarrow> ptr \<Rightarrow> loader" where
  "fentry_load m mac off n =
     (case probe_read m n (mac + of_nat off) of (rc, bs) \<Rightarrow> if rc \<noteq> 0 then None else Some bs)"

section \<open>The copy\<close>

text \<open>\<^verbatim>\<open>__memcpy(hdr)\<close> for a header of \<open>n\<close> bytes.\<close>

definition memcpy_raw :: "loader \<Rightarrow> nat \<Rightarrow> copy_state \<Rightarrow> copy_result" where
  "memcpy_raw load n st =
     (case load (cp_var_off st) n of
        None \<Rightarrow> (False, st\<lparr>cp_data := write_at (cp_cpy_off st) (replicate n 0) (cp_data st)\<rparr>)
      | Some bs \<Rightarrow>
          (True, st\<lparr>cp_data := write_at (cp_cpy_off st) bs (cp_data st), cp_cpy_off := cp_cpy_off st + n,
                    cp_total_len := of_nat (cp_cpy_off st + n)\<rparr>))"

definition memcpy_hdr :: "loader \<Rightarrow> nat \<Rightarrow> copy_state \<Rightarrow> copy_result" where
  "memcpy_hdr load n st =
     and_then (memcpy_raw load n st) (\<lambda>st'. (True, st'\<lparr>cp_var_off := cp_var_off st' + n\<rparr>))"

definition memcpy_ip_hdr :: "loader \<Rightarrow> copy_state \<Rightarrow> copy_result" where
  "memcpy_ip_hdr load st =
     and_then (memcpy_raw load IP_HLEN st)
       (\<lambda>st'. (True, st'\<lparr>cp_var_off := cp_var_off st' + unat (cp_data st' ! cp_cpy_off st AND 15) * 4\<rparr>))"

text \<open>Reading a field of a header that has been copied to offset \<open>hdr\<close> of the buffer.\<close>

definition data16 :: "copy_state \<Rightarrow> nat \<Rightarrow> u16" where
  "data16 st off = le_word (take 2 (drop off (cp_data st)))"

text \<open>The transport header after an IP header at offset \<open>iph\<close>.\<close>

definition copy_l4 :: "loader \<Rightarrow> nat \<Rightarrow> (copy_state \<Rightarrow> copy_result) \<Rightarrow> copy_state \<Rightarrow> copy_result" where
  "copy_l4 load iph after_udp st =
     (let protocol = cp_data st ! (iph + 9)
      in if protocol = 1 then memcpy_hdr load ICMP_HLEN st
         else if protocol = 6 then memcpy_hdr load TCP_HLEN st
         else if protocol = 17 then and_then (memcpy_hdr load UDP_HLEN st) after_udp
         else (True, st))"

definition copy_vxlan :: "loader \<Rightarrow> nat \<Rightarrow> copy_state \<Rightarrow> copy_result" where
  "copy_vxlan load udph st =
     (if \<not> is_vxlan_port (data16 st (udph + 2)) then (False, st)
      else and_then (memcpy_hdr load VXLAN_HLEN st)
        (\<lambda>st. and_then (memcpy_hdr load ETH_HLEN st)
          (\<lambda>st. and_then (memcpy_ip_hdr load st)
            (\<lambda>st'. copy_l4 load (cp_cpy_off st) (\<lambda>st. (True, st)) st'))))"

definition copy_ip :: "loader \<Rightarrow> copy_state \<Rightarrow> copy_result" where
  "copy_ip load st =
     and_then (memcpy_ip_hdr load st)
       (\<lambda>st'. copy_l4 load (cp_cpy_off st) (copy_vxlan load (cp_cpy_off st')) st')"

definition copy_headers_steps :: "loader \<Rightarrow> copy_state \<Rightarrow> copy_result" where
  "copy_headers_steps load st =
     and_then (memcpy_hdr load ETH_HLEN st)
       (\<lambda>st1. let eth = cp_cpy_off st
              in if is_vlan_proto (data16 st1 (eth + 12)) then
                   and_then (memcpy_hdr load VLAN_HLEN st1)
                     (\<lambda>st2. if \<not> is_ipv4_proto (data16 st2 (cp_cpy_off st1 + 2)) then (False, st2)
                            else copy_ip load st2)
                 else if \<not> is_ipv4_proto (data16 st1 (eth + 12)) then (False, st1)
                 else copy_ip load st1)"

definition copy_headers :: "loader \<Rightarrow> tc_event \<Rightarrow> tc_event" where
  "copy_headers load ev =
     (let st = snd (copy_headers_steps load
            \<lparr>cp_var_off = 0, cp_cpy_off = 0, cp_total_len = te_total_len ev, cp_data = te_data ev\<rparr>)
      in ev\<lparr>te_total_len := cp_total_len st, te_data := cp_data st\<rparr>)"

section \<open>Outputs\<close>

text \<open>The fields of \<^verbatim>\<open>struct __sk_buff\<close> that are read, and the frame it gives access to.\<close>

record tc_skb =
  tsk_mark :: u32
  tsk_vlan_present :: u32
  tsk_vlan_tci :: u32
  tsk_frame :: bytes

definition set_output_tc :: "tc_skb \<Rightarrow> tc_event \<Rightarrow> tc_event" where
  "set_output_tc skb ev =
     (let ev = ev\<lparr>te_mark := tsk_mark skb\<rparr>;
          ev = (if tsk_vlan_present skb \<noteq> 0
                then ev\<lparr>te_vlan := \<lparr>vlan_tci = ucast (tsk_vlan_tci skb), vlan_encap_proto = 1\<rparr>\<rparr> else ev)
      in copy_headers (tc_load (tsk_frame skb)) ev)"

definition set_output_fentry :: "kernel \<Rightarrow> ptr \<Rightarrow> tc_event \<Rightarrow> tc_event" where
  "set_output_fentry k skbp ev =
     (let skb = skb_at k skbp;
          ev = ev\<lparr>te_mark := skb_mark skb\<rparr>;
          ev = (if skb_vlan_proto skb \<noteq> 0
                then ev\<lparr>te_vlan := \<lparr>vlan_tci = skb_vlan_tci skb, vlan_encap_proto = 1\<rparr>\<rparr> else ev)
      in copy_headers (fentry_load (k_mem k) (skb_head skb + ucast (skb_mac_header skb))) ev)"

end
