(* ===== verification/Tc_Claims.thy ===== *)
theory Tc_Claims
  imports Tc_Dump
begin

text \<open>
  The header copy never leaves its buffer, and what it leaves there are the headers that a parser
  of the frame alone finds: the copy steers by the bytes it has written itself.
\<close>

section \<open>The buffer\<close>

definition load_exact :: "loader \<Rightarrow> bool" where
  "load_exact load \<longleftrightarrow> (\<forall>off n bs. load off n = Some bs \<longrightarrow> length bs = n)"

lemma tc_load_exact: "load_exact (tc_load frame)"
  by (auto simp: load_exact_def tc_load_def split: if_splits)

lemma fentry_load_exact: "load_exact (fentry_load m mac)"
proof (unfold load_exact_def, intro allI impI)
  fix off n bs assume "fentry_load m mac off n = Some bs"
  then show "length bs = n"
    using length_probe_read [of m n "mac + of_nat off"]
    by (cases "probe_read m n (mac + of_nat off)") (auto simp: fentry_load_def split: if_splits)
qed

definition within :: "nat \<Rightarrow> copy_state \<Rightarrow> bool" where
  "within b st \<longleftrightarrow> length (cp_data st) = DATA_SIZE \<and> cp_cpy_off st \<le> b \<and>
     cp_total_len st = of_nat (cp_cpy_off st)"

lemma within_mono: "within a st \<Longrightarrow> a \<le> b \<Longrightarrow> within b st"
  by (auto simp: within_def)

lemma DATA_SIZE_108: "DATA_SIZE = 108"
  by (simp add: DATA_SIZE_def hlen_defs)

lemma within_memcpy_raw:
  assumes "load_exact load" "within b st" "b + n \<le> 108"
  shows "within (b + n) (snd (memcpy_raw load n st))"
  using assms
  by (auto simp: memcpy_raw_def within_def load_exact_def DATA_SIZE_108 split: option.split)

lemma within_and_then:
  "within a (snd r) \<Longrightarrow> a \<le> b \<Longrightarrow> (within a (snd r) \<Longrightarrow> within b (snd (f (snd r)))) \<Longrightarrow>
   within b (snd (and_then r f))"
  by (auto simp: and_then_def intro: within_mono)

lemma within_var: "within b (st\<lparr>cp_var_off := v\<rparr>) = within b st"
  by (simp add: within_def)

lemma within_memcpy_hdr:
  "load_exact load \<Longrightarrow> within b st \<Longrightarrow> b + n \<le> 108 \<Longrightarrow> within (b + n) (snd (memcpy_hdr load n st))"
  unfolding memcpy_hdr_def by (rule within_and_then [OF within_memcpy_raw]) (auto simp: within_var)

lemma within_memcpy_ip:
  "load_exact load \<Longrightarrow> within b st \<Longrightarrow> b + 20 \<le> 108 \<Longrightarrow> within (b + 20) (snd (memcpy_ip_hdr load st))"
  unfolding memcpy_ip_hdr_def IP_HLEN_def
  by (rule within_and_then [OF within_memcpy_raw]) (auto simp: within_var)

lemma within_copy_l4:
  assumes "load_exact load" "within b st" "b + 20 \<le> c" "c \<le> 108"
    and "\<And>st. within (b + 8) st \<Longrightarrow> within c (snd (after st))"
  shows "within c (snd (copy_l4 load iph after st))"
proof -
  have "within c (snd (and_then (memcpy_hdr load UDP_HLEN st) after))"
    using within_memcpy_hdr [OF assms(1,2), of 8] assms(3-5)
    by (intro within_and_then [of "b + 8"]) (auto simp: UDP_HLEN_def)
  then show ?thesis
    using within_memcpy_hdr [OF assms(1,2), of 8] within_memcpy_hdr [OF assms(1,2), of 20] assms(2-4)
    by (auto simp: copy_l4_def Let_def ICMP_HLEN_def TCP_HLEN_def intro: within_mono)
qed

lemma within_copy_vxlan:
  assumes "load_exact load" "within 46 st"
  shows "within 108 (snd (copy_vxlan load udph st))"
proof -
  have inner: "within 108 (snd (copy_l4 load i (\<lambda>st. (True, st)) st'))" if "within 88 st'" for i st'
    by (rule within_copy_l4 [OF assms(1) that]) (auto intro: within_mono)
  have ip: "within 108 (snd (and_then (memcpy_ip_hdr load st2) (copy_l4 load i (\<lambda>st. (True, st)))))"
    if "within 68 st2" for st2 i
    using within_memcpy_ip [OF assms(1) that] by (intro within_and_then [of 88]) (auto intro: inner)
  have eth: "within 108 (snd (and_then (memcpy_hdr load ETH_HLEN st1)
      (\<lambda>st. and_then (memcpy_ip_hdr load st) (copy_l4 load (cp_cpy_off st) (\<lambda>st. (True, st))))))"
    if "within 54 st1" for st1
    using within_memcpy_hdr [OF assms(1) that, of 14]
    by (intro within_and_then [of 68] ip) (simp_all add: ETH_HLEN_def)
  show ?thesis
    using within_memcpy_hdr [OF assms, of 8] assms(2)
    by (auto simp: copy_vxlan_def VXLAN_HLEN_def intro!: within_and_then [of 54] eth intro: within_mono)
qed

lemma within_copy_ip:
  assumes "load_exact load" "within 18 st"
  shows "within 108 (snd (copy_ip load st))"
  unfolding copy_ip_def
proof (rule within_and_then [of 38])
  show "within 38 (snd (memcpy_ip_hdr load st))"
    using within_memcpy_ip [OF assms] by simp
  then show "within 108 (snd (copy_l4 load (cp_cpy_off st) (copy_vxlan load (cp_cpy_off (snd (memcpy_ip_hdr load st))))
      (snd (memcpy_ip_hdr load st))))"
    by (rule within_copy_l4 [OF assms(1)]) (auto intro: within_copy_vxlan [OF assms(1)])
qed simp

lemma within_copy_headers:
  assumes "load_exact load" "within 0 st"
  shows "within 108 (snd (copy_headers_steps load st))"
proof -
  have eth: "within 14 (snd (memcpy_hdr load ETH_HLEN st))"
    using within_memcpy_hdr [OF assms, of 14] by (simp add: ETH_HLEN_def)
  have vlan: "within 18 (snd (memcpy_hdr load VLAN_HLEN st1))" if "within 14 st1" for st1
    using within_memcpy_hdr [OF assms(1) that, of 4] by (simp add: VLAN_HLEN_def)
  show ?thesis
    unfolding copy_headers_steps_def Let_def
    using within_mono [OF eth, of 18] within_mono [OF eth, of 108] within_mono [OF vlan [OF eth], of 108]
      vlan [OF eth] within_copy_ip [OF assms(1)]
    by (auto intro!: within_and_then [OF eth] within_and_then [of 18])
qed

section \<open>What is copied\<close>

text \<open>The headers of a frame, read from the frame alone: offset and size of each, in order, as far as they
  are inside it.\<close>

definition hdr_span :: "bytes \<Rightarrow> nat \<Rightarrow> nat \<Rightarrow> (nat \<times> nat) list \<Rightarrow> (nat \<times> nat) list" where
  "hdr_span frame off n rest = (if off + n \<le> length frame then (off, n) # rest else [])"

definition frame16 :: "bytes \<Rightarrow> nat \<Rightarrow> u16" where
  "frame16 frame off = le_word (take 2 (drop off frame))"

definition ip_spans :: "bytes \<Rightarrow> nat \<Rightarrow> (nat \<Rightarrow> (nat \<times> nat) list) \<Rightarrow> (nat \<times> nat) list" where
  "ip_spans frame ip after_udp =
     hdr_span frame ip 20
       (let l4 = ip + unat (frame ! ip AND 15) * 4; protocol = frame ! (ip + 9)
        in if protocol = 1 then hdr_span frame l4 8 []
           else if protocol = 6 then hdr_span frame l4 20 []
           else if protocol = 17 then hdr_span frame l4 8 (after_udp l4)
           else [])"

definition vxlan_spans :: "bytes \<Rightarrow> nat \<Rightarrow> (nat \<times> nat) list" where
  "vxlan_spans frame udp =
     (if is_vxlan_port (frame16 frame (udp + 2))
      then hdr_span frame (udp + 8) 8 (hdr_span frame (udp + 16) 14 (ip_spans frame (udp + 30) (\<lambda>_. [])))
      else [])"

definition header_spans :: "bytes \<Rightarrow> (nat \<times> nat) list" where
  "header_spans frame =
     hdr_span frame 0 14
       (if is_vlan_proto (frame16 frame 12) then
          hdr_span frame 14 4 (if is_ipv4_proto (frame16 frame 16) then ip_spans frame 18 (vxlan_spans frame) else [])
        else if is_ipv4_proto (frame16 frame 12) then ip_spans frame 14 (vxlan_spans frame)
        else [])"

definition gather :: "bytes \<Rightarrow> (nat \<times> nat) list \<Rightarrow> bytes" where
  "gather frame spans = concat (map (\<lambda>(off, n). take n (drop off frame)) spans)"

lemma gather_hdr:
  "gather frame (hdr_span frame off n rest) =
     (if off + n \<le> length frame then take n (drop off frame) @ gather frame rest else [])"
  by (simp add: gather_def hdr_span_def)

lemma gather_Nil [simp]: "gather frame [] = []"
  by (simp add: gather_def)

text \<open>The copy has written \<open>out\<close>; while it goes on, the next header is at \<open>v\<close>.\<close>

definition wrote :: "bytes \<Rightarrow> copy_state \<Rightarrow> bool" where
  "wrote out st \<longleftrightarrow> cp_cpy_off st = length out \<and> length out \<le> length (cp_data st) \<and>
     take (length out) (cp_data st) = out \<and> cp_total_len st = of_nat (length out)"

definition at_hdr :: "bytes \<Rightarrow> nat \<Rightarrow> copy_state \<Rightarrow> bool" where
  "at_hdr out v st \<longleftrightarrow> wrote out st \<and> cp_var_off st = v"

lemma take_write_at_end:
  "k \<le> length xs \<Longrightarrow> take (k + length bs) (write_at k bs xs) = take k xs @ bs"
  by (simp add: write_at_def)

lemma memcpy_raw_wrote:
  assumes "at_hdr out v st"
  shows "if v + n \<le> length frame
    then \<exists>st'. memcpy_raw (tc_load frame) n st = (True, st') \<and> at_hdr (out @ take n (drop v frame)) v st'
    else \<exists>st'. memcpy_raw (tc_load frame) n st = (False, st') \<and> wrote out st'"
proof (cases "v + n \<le> length frame")
  case True
  then have "length (take n (drop v frame)) = n" by simp
  with True assms show ?thesis
    using take_write_at_end [of "length out" "cp_data st" "take n (drop v frame)"]
    by (simp add: memcpy_raw_def tc_load_def at_hdr_def wrote_def) (simp add: write_at_def)
next
  case False
  with assms show ?thesis
    by (auto simp: memcpy_raw_def tc_load_def at_hdr_def wrote_def take_write_at write_at_def)
qed

text \<open>A header and what comes after it.\<close>

lemma wrote_hdr:
  assumes "at_hdr out v st"
    and "\<And>st'. at_hdr (out @ take n (drop v frame)) (v + n) st' \<Longrightarrow> v + n \<le> length frame \<Longrightarrow>
      wrote (out @ take n (drop v frame) @ gather frame rest) (snd (f st'))"
  shows "wrote (out @ gather frame (hdr_span frame v n rest)) (snd (and_then (memcpy_hdr (tc_load frame) n st) f))"
  using memcpy_raw_wrote [OF assms(1), of n frame] assms(2)
  by (cases "v + n \<le> length frame") (auto simp: memcpy_hdr_def and_then_def gather_hdr at_hdr_def wrote_def)

lemma wrote_last_hdr:
  "at_hdr out v st \<Longrightarrow> wrote (out @ gather frame (hdr_span frame v n [])) (snd (memcpy_hdr (tc_load frame) n st))"
  using memcpy_raw_wrote [of out v st n frame]
  by (cases "v + n \<le> length frame") (auto simp: memcpy_hdr_def and_then_def gather_hdr at_hdr_def wrote_def)

text \<open>Fields of the header copied last are those of the frame.\<close>

lemma wrote_byte:
  assumes "wrote (out @ take n (drop v frame)) st" "v + n \<le> length frame" "i < n"
  shows "cp_data st ! (length out + i) = frame ! (v + i)"
proof -
  have "take (length out + n) (cp_data st) = out @ take n (drop v frame)" using assms(1,2) by (simp add: wrote_def)
  then have "take (length out + n) (cp_data st) ! (length out + i) = (out @ take n (drop v frame)) ! (length out + i)"
    by (rule arg_cong)
  then show ?thesis using assms(2,3) by (simp add: nth_append)
qed

lemma wrote_data16:
  assumes "wrote (out @ take n (drop v frame)) st" "v + n \<le> length frame" "i + 2 \<le> n"
  shows "data16 st (length out + i) = frame16 frame (v + i)"
proof -
  have "take 2 (drop (length out + i) (cp_data st)) = take 2 (drop (v + i) frame)"
    using wrote_byte [OF assms(1,2), of i] wrote_byte [OF assms(1,2), of "Suc i"] assms
    by (intro nth_equalityI) (auto simp: wrote_def less_2_cases_iff)
  then show ?thesis by (simp add: data16_def frame16_def)
qed

text \<open>An IP header with what follows it: the next header is where its length field says.\<close>

lemma memcpy_ip_wrote:
  assumes "at_hdr out v st"
  shows "if v + 20 \<le> length frame
    then \<exists>st'. memcpy_ip_hdr (tc_load frame) st = (True, st') \<and>
      at_hdr (out @ take 20 (drop v frame)) (v + unat (frame ! v AND 15) * 4) st'
    else \<exists>st'. memcpy_ip_hdr (tc_load frame) st = (False, st') \<and> wrote out st'"
proof (cases "v + 20 \<le> length frame")
  case True
  then obtain st' where raw: "memcpy_raw (tc_load frame) 20 st = (True, st')" "at_hdr (out @ take 20 (drop v frame)) v st'"
    using memcpy_raw_wrote [OF assms, of 20 frame] by auto
  then have "cp_data st' ! cp_cpy_off st = frame ! v"
    using wrote_byte [of out 20 v frame st' 0] True assms by (simp add: at_hdr_def wrote_def)
  with raw True show ?thesis
    by (simp add: memcpy_ip_hdr_def IP_HLEN_def and_then_def at_hdr_def wrote_def)
next
  case False
  then show ?thesis
    using memcpy_raw_wrote [OF assms, of 20 frame] by (auto simp: memcpy_ip_hdr_def IP_HLEN_def and_then_def)
qed

lemma wrote_ip:
  assumes at: "at_hdr out v st"
    and udp: "\<And>out' l4 st'. at_hdr (out' @ take 8 (drop l4 frame)) (l4 + 8) st' \<Longrightarrow> l4 + 8 \<le> length frame \<Longrightarrow>
      wrote (out' @ take 8 (drop l4 frame) @ gather frame (after_udp l4)) (snd (g (length out') st'))"
  shows "wrote (out @ gather frame (ip_spans frame v after_udp))
    (snd (and_then (memcpy_ip_hdr (tc_load frame) st)
      (\<lambda>st'. copy_l4 (tc_load frame) (cp_cpy_off st) (g (cp_cpy_off st')) st')))"
proof (cases "v + 20 \<le> length frame")
  case True
  let ?out = "out @ take 20 (drop v frame)" and ?l4 = "v + unat (frame ! v AND 15) * 4"
  obtain st' where st': "memcpy_ip_hdr (tc_load frame) st = (True, st')" "at_hdr ?out ?l4 st'"
    using memcpy_ip_wrote [OF at, of frame] True by auto
  then have off: "cp_cpy_off st = length out" "cp_cpy_off st' = length ?out" "wrote ?out st'"
    using at by (simp_all add: at_hdr_def wrote_def)
  have proto: "cp_data st' ! (length out + 9) = frame ! (v + 9)"
    using wrote_byte [OF off(3) True] by simp
  have "wrote (?out @ gather frame (hdr_span frame ?l4 8 (after_udp ?l4)))
      (snd (and_then (memcpy_hdr (tc_load frame) 8 st') (g (length ?out))))"
    by (rule wrote_hdr [OF st'(2) udp])
  then show ?thesis
    using True wrote_last_hdr [OF st'(2), of frame 8] wrote_last_hdr [OF st'(2), of frame 20] off(3)
    by (simp add: ip_spans_def gather_hdr [of frame v] copy_l4_def and_then_def [of "(True, st')"] st'(1) off(1,2) proto
        Let_def ICMP_HLEN_def TCP_HLEN_def UDP_HLEN_def)
next
  case False
  then show ?thesis
    using memcpy_ip_wrote [OF at, of frame] by (auto simp: ip_spans_def gather_hdr and_then_def)
qed

lemma wrote_vxlan:
  assumes at: "at_hdr (out @ take 8 (drop udp frame)) (udp + 8) st" "udp + 8 \<le> length frame"
  shows "wrote (out @ take 8 (drop udp frame) @ gather frame (vxlan_spans frame udp))
    (snd (copy_vxlan (tc_load frame) (length out) st))"
proof (cases "is_vxlan_port (frame16 frame (udp + 2))")
  case True
  have port: "data16 st (length out + 2) = frame16 frame (udp + 2)"
    using wrote_data16 [OF _ at(2), of out st 2] at(1) by (simp add: at_hdr_def)
  have inner: "wrote (out' @ gather frame (ip_spans frame v (\<lambda>_. [])))
      (snd (and_then (memcpy_ip_hdr (tc_load frame) st) (\<lambda>st'. copy_l4 (tc_load frame) (cp_cpy_off st) (\<lambda>st. (True, st)) st')))"
    if "at_hdr out' v st" for out' v st
    using wrote_ip [OF that, where g = "\<lambda>_ st. (True, st)" and after_udp = "\<lambda>_. []" and frame = frame]
    by (simp add: at_hdr_def)
  have eth: "wrote (out' @ gather frame (hdr_span frame v 14 (ip_spans frame (v + 14) (\<lambda>_. []))))
      (snd (and_then (memcpy_hdr (tc_load frame) 14 st) (\<lambda>st. and_then (memcpy_ip_hdr (tc_load frame) st)
        (\<lambda>st'. copy_l4 (tc_load frame) (cp_cpy_off st) (\<lambda>st. (True, st)) st'))))"
    if "at_hdr out' v st" for out' v st
    using inner by (intro wrote_hdr [OF that]) fastforce
  have "wrote ((out @ take 8 (drop udp frame)) @
      gather frame (hdr_span frame (udp + 8) 8 (hdr_span frame (udp + 16) 14 (ip_spans frame (udp + 30) (\<lambda>_. [])))))
      (snd (copy_vxlan (tc_load frame) (length out) st))"
    unfolding copy_vxlan_def port VXLAN_HLEN_def ETH_HLEN_def using True eth
    by (simp del: append_assoc) (intro wrote_hdr [OF at(1)], fastforce simp: add.assoc)
  with True show ?thesis by (simp add: vxlan_spans_def)
next
  case False
  then show ?thesis
    using wrote_data16 [OF _ at(2), of out st 2] at(1) by (simp add: vxlan_spans_def copy_vxlan_def at_hdr_def)
qed

lemma wrote_copy_ip:
  "at_hdr out v st \<Longrightarrow> wrote (out @ gather frame (ip_spans frame v (vxlan_spans frame))) (snd (copy_ip (tc_load frame) st))"
  unfolding copy_ip_def using wrote_ip [where g = "copy_vxlan (tc_load frame)"] wrote_vxlan by fastforce

lemma wrote_headers:
  assumes "at_hdr [] 0 st"
  shows "wrote (gather frame (header_spans frame)) (snd (copy_headers_steps (tc_load frame) st))"
proof -
  let ?rest = "if is_vlan_proto (frame16 frame 12) then
      hdr_span frame 14 4 (if is_ipv4_proto (frame16 frame 16) then ip_spans frame 18 (vxlan_spans frame) else [])
    else if is_ipv4_proto (frame16 frame 12) then ip_spans frame 14 (vxlan_spans frame) else []"
  have vlan: "wrote (out @ gather frame (hdr_span frame 14 4
        (if is_ipv4_proto (frame16 frame 16) then ip_spans frame 18 (vxlan_spans frame) else [])))
      (snd (and_then (memcpy_hdr (tc_load frame) 4 st1)
        (\<lambda>st2. if \<not> is_ipv4_proto (data16 st2 (length out + 2)) then (False, st2) else copy_ip (tc_load frame) st2)))"
    if "at_hdr out 14 st1" for out st1
  proof (rule wrote_hdr [OF that])
    fix st2 assume st2: "at_hdr (out @ take 4 (drop 14 frame)) (14 + 4) st2" "14 + 4 \<le> length frame"
    then have "data16 st2 (length out + 2) = frame16 frame 16"
      using wrote_data16 [OF _ st2(2), of out st2 2] by (simp add: at_hdr_def)
    then show "wrote (out @ take 4 (drop 14 frame) @ gather frame
          (if is_ipv4_proto (frame16 frame 16) then ip_spans frame 18 (vxlan_spans frame) else []))
        (snd (if \<not> is_ipv4_proto (data16 st2 (length out + 2)) then (False, st2) else copy_ip (tc_load frame) st2))"
      using st2 wrote_copy_ip [OF st2(1), of frame] by (auto simp: at_hdr_def)
  qed
  have "wrote ([] @ gather frame (hdr_span frame 0 14 ?rest)) (snd (copy_headers_steps (tc_load frame) st))"
    unfolding copy_headers_steps_def ETH_HLEN_def VLAN_HLEN_def Let_def
  proof (rule wrote_hdr [OF assms], goal_cases)
    case (1 st1)
    have off: "cp_cpy_off st = 0" "cp_cpy_off st1 = length (take 14 (drop 0 frame))"
      using assms 1 by (simp_all add: at_hdr_def wrote_def)
    have "data16 st1 (cp_cpy_off st + 12) = frame16 frame 12"
      using wrote_data16 [of "[]" 14 0 frame st1 12] 1 by (simp add: at_hdr_def off)
    then show ?case
      using 1 vlan [of "take 14 (drop 0 frame)" st1] wrote_copy_ip [of "take 14 (drop 0 frame)" 14 st1 frame]
      by (simp add: off(2) at_hdr_def)
  qed
  then show ?thesis by (simp add: header_spans_def)
qed

lemma copy_headers_fit:
  assumes "length (te_data ev) = DATA_SIZE" "te_total_len ev = 0"
  shows "length (te_data (set_output_tc skb ev)) = 108 \<and> unat (te_total_len (set_output_tc skb ev)) \<le> 108 \<and>
    length (te_data (set_output_fentry k skbp ev)) = 108 \<and>
    unat (te_total_len (set_output_fentry k skbp ev)) \<le> 108"
proof -
  have copy: "length (te_data (copy_headers load ev')) = 108 \<and> unat (te_total_len (copy_headers load ev')) \<le> 108"
    if "load_exact load" "length (te_data ev') = DATA_SIZE" "te_total_len ev' = 0" for load ev'
  proof -
    have "within 108 (snd (copy_headers_steps load \<lparr>cp_var_off = 0, cp_cpy_off = 0,
        cp_total_len = te_total_len ev', cp_data = te_data ev'\<rparr>))"
      using that by (intro within_copy_headers) (simp_all add: within_def)
    then show ?thesis
      by (auto simp: copy_headers_def Let_def within_def DATA_SIZE_108 unat_of_nat
          intro: order.trans [OF mod_less_eq_dividend])
  qed
  show ?thesis
    using assms copy [OF tc_load_exact] copy [OF fentry_load_exact]
    by (simp add: set_output_tc_def set_output_fentry_def Let_def)
qed

lemma copied_headers:
  assumes "length (te_data ev) = DATA_SIZE" "te_total_len ev = 0"
    and "out = gather (tsk_frame skb) (header_spans (tsk_frame skb))"
  shows "unat (te_total_len (set_output_tc skb ev)) = length out \<and> length out \<le> DATA_SIZE \<and>
    take (length out) (te_data (set_output_tc skb ev)) = out"
proof -
  let ?load = "tc_load (tsk_frame skb)"
  define st where "st = \<lparr>cp_var_off = 0, cp_cpy_off = 0, cp_total_len = 0 :: u16, cp_data = te_data ev\<rparr>"
  have "at_hdr [] 0 st" by (simp add: at_hdr_def wrote_def st_def)
  then have wrote: "wrote out (snd (copy_headers_steps ?load st))" unfolding assms(3) by (rule wrote_headers)
  have within: "within 108 (snd (copy_headers_steps ?load st))"
    using assms(1) by (intro within_copy_headers) (simp_all add: tc_load_exact within_def st_def)
  have len: "length out \<le> 108" using wrote within by (simp add: wrote_def within_def)
  then have "unat (of_nat (length out) :: u16) = length out" by (simp add: unat_of_nat)
  then show ?thesis
    using wrote len assms(2) by (simp add: set_output_tc_def copy_headers_def Let_def wrote_def st_def DATA_SIZE_108)
qed

section \<open>Properties\<close>

text \<open>C8: The copy never writes outside the 108-byte buffer of the event, whatever the frame says, in
  either of its two uses: the buffer keeps its length and the recorded length is at most 108.\<close>

theorem copy_headers_in_bounds:
  assumes "length (te_data ev) = DATA_SIZE" "te_total_len ev = 0"
  shows "length (te_data (set_output_tc skb ev)) = 108 \<and> unat (te_total_len (set_output_tc skb ev)) \<le> 108 \<and>
    length (te_data (set_output_fentry k skbp ev)) = 108 \<and>
    unat (te_total_len (set_output_fentry k skbp ev)) \<le> 108"
  by (rule copy_headers_fit [OF assms])

theorem copy_headers_in_bounds_witness:
  "length (te_data (set_output_tc \<lparr>tsk_mark = 0, tsk_vlan_present = 0, tsk_vlan_tci = 0,
     tsk_frame = replicate 200 8\<rparr> zero_tc_event)) = 108"
  using copy_headers_in_bounds [of zero_tc_event "\<lparr>tsk_mark = 0, tsk_vlan_present = 0, tsk_vlan_tci = 0,
     tsk_frame = replicate 200 8\<rparr>" no_kernel 0]
  by (simp add: zero_tc_event_def)

text \<open>C23: What is copied is what a parser of the frame alone finds: the recorded bytes are the headers of the
  frame (Ethernet, VLAN, IPv4, transport, and those inside a VXLAN tunnel) one after the other, as
  far as they are inside the frame, each at the place the length field of the IP header before it
  says, without the IP options; and their number is the recorded length.\<close>

theorem copy_headers_gathers:
  assumes "length (te_data ev) = DATA_SIZE" "te_total_len ev = 0"
    and "out = gather (tsk_frame skb) (header_spans (tsk_frame skb))"
  shows "unat (te_total_len (set_output_tc skb ev)) = length out \<and> length out \<le> DATA_SIZE \<and>
    take (length out) (te_data (set_output_tc skb ev)) = out"
  by (rule copied_headers [OF assms])

text \<open>A TCP segment behind an IP header with four bytes of options, which are left out.\<close>

definition demo_frame_options :: bytes where
  "demo_frame_options = replicate 12 7 @ [8, 0] @ [0x46, 0, 0, 0, 0, 0, 0, 0, 0, 6] @ replicate 10 3 @ [1, 1, 1, 1] @ replicate 20 9"

lemma demo_spans: "header_spans demo_frame_options = [(0, 14), (14, 20), (38, 20)]"
  by code_simp

theorem copy_headers_gathers_witness:
  "let ev = set_output_tc \<lparr>tsk_mark = 0, tsk_vlan_present = 0, tsk_vlan_tci = 0, tsk_frame = demo_frame_options\<rparr> zero_tc_event
   in te_total_len ev = 54 \<and> drop 34 (take 54 (te_data ev)) = replicate 20 9"
proof -
  let ?skb = "\<lparr>tsk_mark = 0, tsk_vlan_present = 0, tsk_vlan_tci = 0, tsk_frame = demo_frame_options\<rparr>"
  have z: "length (te_data zero_tc_event) = DATA_SIZE" "te_total_len zero_tc_event = 0"
    by (simp_all add: zero_tc_event_def)
  define out where "out = gather demo_frame_options (header_spans demo_frame_options)"
  have out: "length out = 54" "drop 34 out = replicate 20 9"
    unfolding out_def demo_spans by code_simp+
  have "out = gather (tsk_frame ?skb) (header_spans (tsk_frame ?skb))" by (simp add: out_def)
  from copy_headers_gathers [OF z this] have copied: "unat (te_total_len (set_output_tc ?skb zero_tc_event)) = 54"
    "take 54 (te_data (set_output_tc ?skb zero_tc_event)) = out" by (simp_all add: out(1))
  then have "te_total_len (set_output_tc ?skb zero_tc_event) = 54"
    by (simp add: word_unat_eq_iff)
  with copied out show ?thesis by (simp add: Let_def)
qed

end
