(* ===== verification/Capture_Reports.thy ===== *)
theory Capture_Reports
  imports Wire_Packet Tc_Claims
begin

text \<open>
  The header capture on whole packets: what the buffer of the event has for a frame with an IPv4
  packet, with a VLAN tag or without, and with a second frame inside a VXLAN tunnel or without.
\<close>

section \<open>Frames\<close>

fun tag_bytes :: "vlan_hdr option \<Rightarrow> bytes" where
  "tag_bytes None = []"
| "tag_bytes (Some t) = to_le 2 (vlan_tci t) @ to_le 2 (vlan_encap_proto t)"

text \<open>The ether type says what follows the Ethernet header, and that of a tag what follows the tag.\<close>

fun tag_ok :: "ethhdr \<Rightarrow> vlan_hdr option \<Rightarrow> bool" where
  "tag_ok eh None \<longleftrightarrow> is_ipv4_proto (eth_h_proto eh)"
| "tag_ok eh (Some t) \<longleftrightarrow> is_vlan_proto (eth_h_proto eh) \<and> is_ipv4_proto (vlan_encap_proto t)"

definition macs_ok :: "ethhdr \<Rightarrow> bool" where
  "macs_ok eh \<longleftrightarrow> length (eth_h_dest eh) = 6 \<and> length (eth_h_source eh) = 6"

text \<open>What of the bytes behind the transport header is headers again: nothing, or those in a tunnel.\<close>

inductive payload_headers :: "l4_hdr \<Rightarrow> bytes \<Rightarrow> bytes \<Rightarrow> bool" where
  plain: "(\<And>h. l4 = Udp h \<Longrightarrow> \<not> is_vxlan_port (udp_dest h)) \<Longrightarrow> payload_headers l4 payload []"
| tunnel: "is_vxlan_port (udp_dest h) \<Longrightarrow> length vx = 8 \<Longrightarrow> macs_ok eh \<Longrightarrow> wire_ok (V4 ip opts l4) \<Longrightarrow>
    payload_headers (Udp h) (vx @ ethhdr_bytes eh @ packet_bytes (V4 ip opts l4) @ rest)
      (vx @ ethhdr_bytes eh @ iphdr_bytes ip @ l4_bytes l4)"

section \<open>Spans of a frame\<close>

lemma gather_span:
  assumes "frame = front @ hdr @ rest" "v = length front" "n = length hdr"
  shows "gather frame (hdr_span frame v n spans) = hdr @ gather frame spans"
  using assms by (simp add: gather_hdr)

lemma frame16_at: "frame = front @ to_le 2 w @ rest \<Longrightarrow> v = length front \<Longrightarrow> frame16 frame v = w"
  by (simp add: frame16_def le_word_to_le)

lemma ip_bytes_nth:
  "frame = front @ iphdr_bytes ip @ rest \<Longrightarrow> v = length front \<Longrightarrow>
   frame ! v = ip_vihl ip \<and> frame ! (v + 9) = ip_protocol ip"
  by (simp add: nth_append iphdr_bytes_def)

lemma gather_ip_spans:
  assumes frame: "frame = front @ packet_bytes (V4 ip opts l4) @ rest" "v = length front"
    and ok: "wire_ok (V4 ip opts l4)"
    and udp: "\<And>h. l4 = Udp h \<Longrightarrow> gather frame (after_udp (v + net_len (V4 ip opts l4))) = tail"
    and no_udp: "(\<And>h. l4 \<noteq> Udp h) \<Longrightarrow> tail = []"
  shows "gather frame (ip_spans frame v after_udp) = iphdr_bytes ip @ l4_bytes l4 @ tail"
proof -
  have ihl: "unat (ip_vihl ip AND 15) * 4 = 20 + length opts" "ip_protocol ip = l4_number 1 l4"
    using ok by (simp_all add: ip_ihl_def)
  have nth: "frame ! v = ip_vihl ip" "frame ! (v + 9) = ip_protocol ip"
    using ip_bytes_nth [of frame front ip "opts @ l4_bytes l4 @ rest" v] frame by simp_all
  have hd: "gather frame (hdr_span frame v 20 spans) = iphdr_bytes ip @ gather frame spans" for spans
    by (rule gather_span [of _ front _ "opts @ l4_bytes l4 @ rest"]) (simp_all add: frame)
  have l4: "gather frame (hdr_span frame (v + (20 + length opts)) n spans) = l4_bytes l4 @ gather frame spans"
    if "n = length (l4_bytes l4)" for n spans
    using that by (intro gather_span [of _ "front @ iphdr_bytes ip @ opts" _ rest]) (simp_all add: frame)
  show ?thesis
    using l4 udp no_udp ihl(2)
    by (cases l4) (simp_all add: ip_spans_def hd nth ihl(1) Let_def)
qed

lemma length_ethhdr_bytes: "macs_ok eh \<Longrightarrow> length (ethhdr_bytes eh) = 14"
  by (simp add: macs_ok_def eth.wire_length)

lemma gather_vxlan_spans:
  assumes inner: "payload_headers l4 payload inner" and l4: "l4 = Udp h"
    and frame: "frame = front @ l4_bytes l4 @ payload" "v = length front"
  shows "gather frame (vxlan_spans frame v) = inner"
proof -
  have port: "frame16 frame (v + 2) = udp_dest h"
    by (rule frame16_at [of _ "front @ to_le 2 (udp_source h)" _ "to_le 2 (udp_len h) @ to_le 2 (udp_check h) @ payload"])
      (simp_all add: frame l4 udphdr_bytes_def)
  show ?thesis
    using inner
  proof cases
    case plain
    then show ?thesis using l4 by (simp add: vxlan_spans_def port del: add_2_eq_Suc')
  next
    case (tunnel h' vx eh ip opts l4' rest)
    note el = length_ethhdr_bytes [OF tunnel(6)]
    have "gather frame (hdr_span frame (v + 8) 8 spans) = vx @ gather frame spans" for spans
      by (rule gather_span [of _ "front @ l4_bytes l4" _ "ethhdr_bytes eh @ packet_bytes (V4 ip opts l4') @ rest"])
        (simp_all add: frame tunnel)
    moreover have "gather frame (hdr_span frame (v + 16) 14 spans) = ethhdr_bytes eh @ gather frame spans" for spans
      by (rule gather_span [of _ "front @ l4_bytes l4 @ vx" _ "packet_bytes (V4 ip opts l4') @ rest"])
        (simp_all add: frame tunnel el)
    moreover have "gather frame (ip_spans frame (v + 30) (\<lambda>_. [])) = iphdr_bytes ip @ l4_bytes l4' @ []"
      by (rule gather_ip_spans [of _ "front @ l4_bytes l4 @ vx @ ethhdr_bytes eh" _ opts _ rest])
        (use frame tunnel el in simp_all)
    moreover have "is_vxlan_port (udp_dest h)" using tunnel(1,4) l4 by simp
    ultimately show ?thesis by (simp add: vxlan_spans_def port tunnel(3) del: add_2_eq_Suc')
  qed
qed

lemma gather_header_spans:
  assumes frame: "frame = ethhdr_bytes eh @ tag_bytes tag @ packet_bytes (V4 ip opts l4) @ payload"
    and ok: "macs_ok eh" "tag_ok eh tag" "wire_ok (V4 ip opts l4)" "payload_headers l4 payload inner"
  shows "gather frame (header_spans frame) = ethhdr_bytes eh @ tag_bytes tag @ iphdr_bytes ip @ l4_bytes l4 @ inner"
proof -
  note el = length_ethhdr_bytes [OF ok(1)]
  have ip: "gather frame (ip_spans frame v (vxlan_spans frame)) = iphdr_bytes ip @ l4_bytes l4 @ inner"
    if "v = 14 + length (tag_bytes tag)" for v
  proof (rule gather_ip_spans [OF _ _ ok(3), of _ "ethhdr_bytes eh @ tag_bytes tag" payload])
    show "gather frame (vxlan_spans frame (v + net_len (V4 ip opts l4))) = inner" if "l4 = Udp h" for h
      by (rule gather_vxlan_spans [OF ok(4) that, of _ "ethhdr_bytes eh @ tag_bytes tag @ iphdr_bytes ip @ opts"])
        (simp_all add: frame \<open>v = _\<close> el)
    show "inner = []" if "\<And>h. l4 \<noteq> Udp h"
      using ok(4) that by cases auto
  qed (simp_all add: frame that el)
  have eth: "gather frame (hdr_span frame 0 14 spans) = ethhdr_bytes eh @ gather frame spans" for spans
    by (rule gather_span [of _ "[]" _ "tag_bytes tag @ packet_bytes (V4 ip opts l4) @ payload"]) (simp_all add: frame el)
  have type: "frame16 frame 12 = eth_h_proto eh"
    by (rule frame16_at [of _ "eth_h_dest eh @ eth_h_source eh" _ "tag_bytes tag @ packet_bytes (V4 ip opts l4) @ payload"])
      (use ok(1) in \<open>simp_all add: frame ethhdr_bytes_def macs_ok_def\<close>)
  have distinct: "\<not> is_vlan_proto w" if "is_ipv4_proto w" for w
  proof -
    have "htons_const ETH_P_IPV4 \<noteq> htons_const ETH_P_8021Q" "htons_const ETH_P_IPV4 \<noteq> htons_const ETH_P_8021AD"
      by code_simp+
    then show ?thesis using that by (simp add: is_vlan_proto_def is_ipv4_proto_def)
  qed
  show ?thesis
  proof (cases tag)
    case None
    then show ?thesis using ok(2) ip [of 14] distinct by (simp add: header_spans_def eth type)
  next
    case (Some t)
    have "gather frame (hdr_span frame 14 4 spans) = tag_bytes tag @ gather frame spans" for spans
      by (rule gather_span [of _ "ethhdr_bytes eh" _ "packet_bytes (V4 ip opts l4) @ payload"])
        (simp_all add: frame el Some)
    moreover have "frame16 frame 16 = vlan_encap_proto t"
      by (rule frame16_at [of _ "ethhdr_bytes eh @ to_le 2 (vlan_tci t)" _ "packet_bytes (V4 ip opts l4) @ payload"])
        (simp_all add: frame el Some)
    ultimately show ?thesis using Some ok(2) ip [of 18] by (simp add: header_spans_def eth type)
  qed
qed

section \<open>Properties\<close>

text \<open>C21: The capture of a frame with a well-formed IPv4 packet, VLAN tag or not, IP options or not, fits
  the buffer and is the wire form of the headers without the IP options, one after the other; the
  headers in a VXLAN tunnel follow those outside. So a reader of the event finds the Ethernet and IP
  headers of the frame at their fixed places in the buffer.\<close>

theorem captured_headers_of_packet:
  assumes "tsk_frame skb = ethhdr_bytes eh @ tag_bytes tag @ packet_bytes (V4 ip opts l4) @ payload"
    and "macs_ok eh" and "tag_ok eh tag" and "wire_ok (V4 ip opts l4)"
    and "payload_headers l4 payload inner"
    and "out = ethhdr_bytes eh @ tag_bytes tag @ iphdr_bytes ip @ l4_bytes l4 @ inner"
    and "ev = set_output_tc skb zero_tc_event" and "mem_at m b (te_data ev)"
  shows "unat (te_total_len ev) = length out \<and> length out \<le> DATA_SIZE \<and> take (length out) (te_data ev) = out \<and>
    ethhdr_at m b = eh \<and> iphdr_at m (b + 14 + of_nat (length (tag_bytes tag))) = ip"
proof -
  have out: "out = gather (tsk_frame skb) (header_spans (tsk_frame skb))"
    using gather_header_spans [OF assms(1-5)] assms(6) by simp
  have zero: "length (te_data zero_tc_event) = DATA_SIZE" "te_total_len zero_tc_event = 0"
    by (simp_all add: zero_tc_event_def)
  have copy: "unat (te_total_len ev) = length out \<and> length out \<le> DATA_SIZE \<and> take (length out) (te_data ev) = out"
    unfolding assms(7) by (rule copied_headers [OF zero out])
  then have "te_data ev = out @ drop (length out) (te_data ev)" by (metis append_take_drop_id)
  with assms(8) have "mem_at m b (out @ drop (length out) (te_data ev))" by simp
  then have at: "mem_at m b out" by (simp only: mem_at_append)
  have "ethhdr_at m b = eh"
    using at assms(2) unfolding assms(6) by (intro ethhdr_round_trip) (simp_all add: macs_ok_def)
  moreover have "iphdr_at m (b + 14 + of_nat (length (tag_bytes tag))) = ip"
    using at length_ethhdr_bytes [OF assms(2)] unfolding assms(6) by (intro iphdr_round_trip) simp
  ultimately show ?thesis using copy by simp
qed

text \<open>A TCP segment behind an IP header with four bytes of options, in a tagged frame.\<close>

definition demo_opt_ip :: iphdr where
  "demo_opt_ip = \<lparr>ip_vihl = 0x46, ip_tos = 0, ip_tot_len = 0, ip_id = 0, ip_frag_off = 0,
     ip_ttl = 64, ip_protocol = 6, ip_check = 0, ip_saddr = 0x0100000A, ip_daddr = 0x0200000A\<rparr>"

definition demo_tag :: vlan_hdr where
  "demo_tag = \<lparr>vlan_tci = 5, vlan_encap_proto = htons_const ETH_P_IPV4\<rparr>"

definition demo_tagged :: bytes where
  "demo_tagged = ethhdr_bytes \<lparr>eth_h_dest = replicate 6 7, eth_h_source = replicate 6 7,
     eth_h_proto = htons_const ETH_P_8021Q\<rparr> @ tag_bytes (Some demo_tag) @
     packet_bytes (V4 demo_opt_ip [1, 1, 1, 1] (Tcp \<lparr>tcp_source = 1, tcp_dest = 2, tcp_seq = 0, tcp_ack_seq = 0,
       tcp_flags = 0, tcp_window = 0, tcp_check = 0, tcp_urg_ptr = 0\<rparr>)) @ [9, 9]"

theorem captured_headers_of_packet_witness:
  "let ev = set_output_tc \<lparr>tsk_mark = 0, tsk_vlan_present = 0, tsk_vlan_tci = 0, tsk_frame = demo_tagged\<rparr> zero_tc_event
   in unat (te_total_len ev) = 58 \<and> iphdr_at (bytes_mem 4096 (te_data ev)) (4096 + 14 + of_nat 4) = demo_opt_ip"
proof -
  let ?skb = "\<lparr>tsk_mark = 0, tsk_vlan_present = 0, tsk_vlan_tci = 0, tsk_frame = demo_tagged\<rparr>"
  define ev where "ev = set_output_tc ?skb zero_tc_event"
  define eh where "eh = \<lparr>eth_h_dest = replicate 6 (7 :: u8), eth_h_source = replicate 6 7,
    eth_h_proto = htons_const ETH_P_8021Q\<rparr>"
  define l4 where "l4 = Tcp \<lparr>tcp_source = 1, tcp_dest = 2, tcp_seq = 0, tcp_ack_seq = 0,
    tcp_flags = 0, tcp_window = 0, tcp_check = 0, tcp_urg_ptr = 0\<rparr>"
  have frame: "tsk_frame ?skb = ethhdr_bytes eh @ tag_bytes (Some demo_tag) @
      packet_bytes (V4 demo_opt_ip [1, 1, 1, 1] l4) @ [9, 9]"
    by (simp add: demo_tagged_def eh_def l4_def)
  have ok: "macs_ok eh" "tag_ok eh (Some demo_tag)" "wire_ok (V4 demo_opt_ip [1, 1, 1, 1] l4)"
    by (simp_all add: macs_ok_def eh_def demo_tag_def is_vlan_proto_def is_ipv4_proto_def demo_opt_ip_def
        ip_ihl_def l4_def)
  have inner: "payload_headers l4 [9, 9] []" by (rule payload_headers.plain) (simp add: l4_def)
  have size: "length (te_data ev) = 108"
    using copy_headers_fit [of zero_tc_event ?skb no_kernel 0] unfolding ev_def by (simp add: zero_tc_event_def)
  have mem: "mem_at (bytes_mem 4096 (te_data ev)) 4096 (te_data ev)"
    by (rule mem_at_bytes_mem) (simp add: size)
  have lens: "length (ethhdr_bytes eh) = 14" "length (l4_bytes l4) = 20"
    using length_ethhdr_bytes [OF ok(1)] by (simp_all add: l4_def)
  show ?thesis
    using captured_headers_of_packet [OF frame ok inner refl ev_def mem] lens
    by (simp add: ev_def [symmetric] Let_def)
qed

end
