(* ===== verification/Packet_Reports.thy ===== *)
theory Packet_Reports
  imports Wire_Packet Nft_Claims Ipt_Claims
begin

text \<open>
  What the nftables and the iptables tracer report of a packet, for every packet of \<open>Wire_Packet\<close> that a
  socket buffer holds: IPv4, with options or without, and IPv6, carrying TCP, UDP or ICMP.
\<close>

section \<open>The nftables tracer\<close>

text \<open>The part of the event that depends on the packet. The length is the total length of an IPv4 packet
  and the payload length of an IPv6 packet; type and code of ICMP are reported as 0.\<close>

fun nft_l4_report :: "l4_hdr \<Rightarrow> trace_conn_info \<Rightarrow> trace_conn_info" where
  "nft_l4_report (Tcp h) c = c\<lparr>ci_src_port := ntohs (tcp_source h), ci_dest_port := ntohs (tcp_dest h)\<rparr>"
| "nft_l4_report (Udp h) c = c\<lparr>ci_src_port := ntohs (udp_source h), ci_dest_port := ntohs (udp_dest h)\<rparr>"
| "nft_l4_report (Icmp h) c = c\<lparr>ci_icmp_info := \<lparr>ic_type = 0, ic_code = 0\<rparr>\<rparr>"

fun nft_l3_report :: "wire_packet \<Rightarrow> trace_conn_info \<Rightarrow> trace_conn_info" where
  "nft_l3_report (V4 ip opts l4) c =
     c\<lparr>ci_protocol := ip_protocol ip, ci_src_ip := ntohl (ip_saddr ip), ci_dest_ip := ntohl (ip_daddr ip)\<rparr>"
| "nft_l3_report (V6 ip l4) c =
     c\<lparr>ci_protocol := ip6_nexthdr ip, ci_src_ip6 := ip6_saddr ip, ci_dest_ip6 := ip6_daddr ip\<rparr>"

fun packet_len :: "wire_packet \<Rightarrow> u16" where
  "packet_len (V4 ip opts l4) = ntohs (ip_tot_len ip)"
| "packet_len (V6 ip l4) = ntohs (ip6_payload_len ip)"

definition nft_report :: "wire_packet \<Rightarrow> trace_info \<Rightarrow> trace_info" where
  "nft_report p t =
     map_conn (nft_l4_report (packet_l4 p)) (map_nft (\<lambda>n. n\<lparr>ni_len := packet_len p\<rparr>) (map_conn (nft_l3_report p) t))"

text \<open>The family number of the hook that sees the packet.\<close>

fun nf_family :: "wire_packet \<Rightarrow> u8" where
  "nf_family (V4 ip opts l4) = NFPROTO_IPV4"
| "nf_family (V6 ip l4) = NFPROTO_IPV6"

lemma skb_ptr_defs:
  "skb_network_header_ptr skb = skb_head skb + ucast (skb_network_header skb)"
  "skb_mac_header_ptr skb = skb_head skb + ucast (skb_mac_header skb)"
  "skb_end_ptr skb = skb_head skb + ucast (skb_end skb)"
  by (simp_all add: skb_network_header_ptr_def skb_mac_header_ptr_def skb_end_ptr_def)

lemma handle_nft_ipv4_packet:
  assumes "skb_holds m skb headroom eh (V4 ip opts l4) payload"
  shows "handle_nft_ipv4 m skb (t, e) = (nft_report (V4 ip opts l4) t, e)"
proof -
  let ?iph = "skb_network_header_ptr skb"
  have at: "mem_at m ?iph (packet_bytes (V4 ip opts l4))"
    using skb_holds_reads(2) [OF assms] by (simp add: skb_ptr_defs)
  have ok: "ip_ihl ip * 4 = 20 + length opts" "ip_protocol ip = l4_number 1 l4"
    using assms by (simp_all add: skb_holds_def)
  define l4p where "l4p = ?iph + of_nat (20 + length opts)"
  have room: "\<not> skb_end_ptr skb < ?iph + of_nat n" if "n \<le> 20 + length opts + length (l4_bytes l4)" for n
    using skb_holds_room(4) [OF assms, of n] that by (simp add: skb_ptr_defs)
  have room_l4: "\<not> skb_end_ptr skb < l4p + of_nat n" if "n \<le> length (l4_bytes l4)" for n
    using room [of "20 + length opts + n"] that by (simp add: l4p_def add.assoc)
  have hd: "iphdr_at m ?iph = ip" "l4 = Tcp th \<Longrightarrow> tcphdr_at m l4p = th" "l4 = Udp uh \<Longrightarrow> udphdr_at m l4p = uh"
    for th uh unfolding l4p_def by (rule read_packet_v4 [OF at]; assumption)+
  show ?thesis
    using room [of 20] room [of 28] length_l4_bytes(1) [of l4] room_l4 [of 8] room_l4 [of 20] ok(2)
    by (cases l4)
      (simp_all only: handle_nft_ipv4_def Let_def prod.case hd(1) ok(1) nft_report_def hlen_defs l4p_def [symmetric],
       simp_all add: hd byte_ntohs_0 c_consts add.commute [of _ "28 :: ptr"])
qed

lemma handle_nft_ipv6_packet:
  assumes "skb_holds m skb headroom eh (V6 ip l4) payload"
  shows "handle_nft_ipv6 m skb (t, e) = (nft_report (V6 ip l4) t, e)"
proof -
  let ?iph = "skb_network_header_ptr skb"
  have at: "mem_at m ?iph (packet_bytes (V6 ip l4))"
    using skb_holds_reads(2) [OF assms] by (simp add: skb_ptr_defs)
  have ok: "length (ip6_flow_lbl ip) = 3" "ip6_nexthdr ip = l4_number 58 l4"
    using assms by (simp_all add: skb_holds_def)
  have room: "\<not> skb_end_ptr skb < ?iph + of_nat n" if "n \<le> 40 + length (l4_bytes l4)" for n
    using skb_holds_room(4) [OF assms, of n] that ok(1) by (simp add: skb_ptr_defs)
  define l4p where "l4p = ?iph + of_nat 40"
  have room_l4: "\<not> skb_end_ptr skb < l4p + of_nat n" if "n \<le> length (l4_bytes l4)" for n
    using room [of "40 + n"] that by (simp add: l4p_def add.assoc)
  have hd: "ipv6hdr_at m ?iph = ip" "l4 = Tcp th \<Longrightarrow> tcphdr_at m l4p = th" "l4 = Udp uh \<Longrightarrow> udphdr_at m l4p = uh"
    for th uh using read_packet_v6 [OF at ok(1)] by (simp_all add: l4p_def)
  show ?thesis
    using room [of 40] room_l4 [of 8] room_l4 [of 20] ok(2)
    by (cases l4)
      (simp_all only: handle_nft_ipv6_def Let_def prod.case hd(1) nft_report_def hlen_defs l4p_def [symmetric],
       simp_all add: hd byte_ntohs_0 c_consts)
qed

section \<open>The whole event\<close>

lemma fill_trace_pkt_info_packet:
  assumes holds: "skb_holds (k_mem k) (pkt_skb k pkt) headroom eh p payload"
    and sk: "sk = sk_at k (so_sk (socket_at k (sk_socket (sk_at k (skb_sk (pkt_skb k pkt))))))"
      "skc_rcv_saddr sk \<noteq> 0" "skc_daddr sk \<noteq> 0"
    and family: "hs_pf (hook_at k (np_state (nft_pktinfo_at k pkt))) = nf_family p"
  shows "fill_trace_pkt_info k pkt (t, e) =
    (nft_report p (map_conn (\<lambda>c. c\<lparr>ci_src_mac := eth_h_source eh, ci_dest_mac := eth_h_dest eh\<rparr>) t), e)"
proof -
  let ?skb = "pkt_skb k pkt"
  have eth: "ethhdr_at (k_mem k) (skb_mac_header_ptr ?skb) = eh"
    using skb_holds_reads(1) [OF holds] by (simp add: skb_ptr_defs)
  have room: "\<not> skb_end_ptr ?skb < skb_mac_header_ptr ?skb + of_nat ETH_HLEN"
    using skb_holds_room(3) [OF holds, of 14] by (simp add: skb_ptr_defs ETH_HLEN_def)
  have le: "skb_head ?skb < skb_end_ptr ?skb"
    using skb_holds_room(2) [OF holds] by (simp add: skb_ptr_defs)
  have guards: "skb_head ?skb \<noteq> 0" "skb_end_ptr ?skb \<noteq> 0" "\<not> skb_head ?skb \<ge> skb_end_ptr ?skb"
    using holds le by (auto simp: skb_holds_def)
  have mac: "skb_mac_header_was_set ?skb"
  proof -
    have "unat (skb_network_header ?skb) = unat (skb_mac_header ?skb) + 14"
      using holds by (simp add: skb_holds_def)
    then have "unat (skb_mac_header ?skb) + 14 < 65536"
      using unsigned_less [of "skb_network_header ?skb", where ?'a = nat] by simp
    then show ?thesis by (auto simp: skb_mac_header_was_set_def)
  qed
  have proto: "ntohs (eth_h_proto eh) = ether_type p"
    using holds by (simp add: skb_holds_def eth_ok_def)
  show ?thesis
  proof (cases p)
    case (V4 ip opts l4)
    with proto have ty: "ntohs (eth_h_proto eh) = ETH_P_IP" by (simp add: c_consts)
    show ?thesis
      using family handle_nft_ipv4_packet [OF holds [unfolded V4]]
      by (simp add: fill_trace_pkt_info_def Let_def eth room guards mac ty V4 sk(2,3) flip: sk(1))
  next
    case (V6 ip l4)
    with proto have ty: "ntohs (eth_h_proto eh) = ETH_P_IPV6" by (simp add: c_consts)
    have f: "NFPROTO_IPV6 \<noteq> NFPROTO_IPV4" by (simp add: c_consts)
    show ?thesis
      using family f handle_nft_ipv6_packet [OF holds [unfolded V6]]
      by (simp add: fill_trace_pkt_info_def Let_def eth room guards mac ty V6 sk(2,3) flip: sk(1))
  qed
qed

section \<open>The iptables tracer\<close>

text \<open>The addresses are the bytes on the wire; the length of an IPv6 packet stays in network order.\<close>

fun ipt_l3_report :: "wire_packet \<Rightarrow> l3_info_t" where
  "ipt_l3_report (V4 ip opts l4) =
     \<lparr>l3_saddr = to_le 4 (ip_saddr ip) @ replicate 12 0, l3_daddr = to_le 4 (ip_daddr ip) @ replicate 12 0,
      l3_tot_len = ntohs (ip_tot_len ip), l3_ip_version = 4, l3_l4_proto = ip_protocol ip\<rparr>"
| "ipt_l3_report (V6 ip l4) =
     \<lparr>l3_saddr = in6_bytes (ip6_saddr ip), l3_daddr = in6_bytes (ip6_daddr ip),
      l3_tot_len = ip6_payload_len ip, l3_ip_version = 6, l3_l4_proto = ip6_nexthdr ip\<rparr>"

fun ipt_l4_report :: "l4_hdr \<Rightarrow> l4_info_t" where
  "ipt_l4_report (Tcp h) =
     \<lparr>l4_sport = ntohs (tcp_source h), l4_dport = ntohs (tcp_dest h), l4_tcpflags = tcp_flags h\<rparr>"
| "ipt_l4_report (Udp h) = \<lparr>l4_sport = ntohs (udp_source h), l4_dport = ntohs (udp_dest h), l4_tcpflags = 0\<rparr>"
| "ipt_l4_report (Icmp h) = \<lparr>l4_sport = 0, l4_dport = 0, l4_tcpflags = 0\<rparr>"

fun ipt_icmp_report :: "l4_hdr \<Rightarrow> icmp_info_t" where
  "ipt_icmp_report (Icmp h) =
     \<lparr>ii_icmpid = ntohs (icmp_id h), ii_icmpseq = ntohs (icmp_sequence h), ii_icmptype = icmp_type h\<rparr>"
| "ipt_icmp_report _ = \<lparr>ii_icmpid = 0, ii_icmpseq = 0, ii_icmptype = 0\<rparr>"

lemma set_v4addr_zero: "set_v4addr a (replicate 16 0) = to_le 4 a @ replicate 12 0"
  by (simp add: set_v4addr_def overwrite_def)

lemma l3_header_packet:
  assumes "skb_holds m skb headroom eh p payload"
  shows "mem_at m (get_l3_header skb) (packet_bytes p)"
    and "get_ip_version m (get_l3_header skb) = (case p of V4 ip opts l4 \<Rightarrow> 4 | V6 ip l4 \<Rightarrow> 6)"
    and "get_l4_header m skb = get_l3_header skb + of_nat (net_len p)"
    and "set_ether_info m skb l2 = l2\<lparr>l2_dest_mac := eth_h_dest eh\<rparr>"
proof -
  have "unat (skb_network_header skb) \<noteq> 0" using assms by (simp add: skb_holds_def)
  then have l3: "get_l3_header skb = skb_head skb + ucast (skb_network_header skb)"
    by (intro get_l3_header_set) auto
  show at: "mem_at m (get_l3_header skb) (packet_bytes p)"
    using skb_holds_reads(2) [OF assms] by (simp only: l3)
  have ok: "wire_ok p" using assms by (simp add: skb_holds_def)
  show ver: "get_ip_version m (get_l3_header skb) = (case p of V4 ip opts l4 \<Rightarrow> 4 | V6 ip l4 \<Rightarrow> 6)"
  proof (cases p)
    case (V4 ip opts l4)
    then show ?thesis
      using ok read_packet_v4(1) [OF at [unfolded V4]] by (simp add: get_ip_version_vihl)
  next
    case (V6 ip l4)
    then have "ip6_vprio ip = load8 m (get_l3_header skb)"
      using ok read_packet_v6(1) [OF at [unfolded V6]] by (auto simp: ipv6hdr_at_def)
    then show ?thesis using V6 ok by (simp add: get_ip_version_def)
  qed
  show "get_l4_header m skb = get_l3_header skb + of_nat (net_len p)"
  proof (cases p)
    case (V4 ip opts l4)
    have len: "unat (get_ipv4_header_len m (get_l3_header skb)) = 20 + length opts"
      using ok V4 read_packet_v4(1) [OF at [unfolded V4]] by (simp add: get_ipv4_header_len_ihl)
    show ?thesis
      using V4 unfolding get_l4_header_def Let_def ver by (simp add: len [symmetric])
  next
    case (V6 ip l4)
    then show ?thesis unfolding get_l4_header_def Let_def ver by (simp add: IP6_HLEN_def)
  qed
  show "set_ether_info m skb l2 = l2\<lparr>l2_dest_mac := eth_h_dest eh\<rparr>"
    using arg_cong [OF skb_holds_reads(1) [OF assms], of eth_h_dest]
    by (simp add: set_ether_info_def get_l2_header_def ethhdr_at_def)
qed

lemma set_l3_info_packet:
  assumes "mem_at m (get_l3_header skb) (packet_bytes p)" "wire_ok p"
    and "get_ip_version m (get_l3_header skb) = (case p of V4 ip opts l4 \<Rightarrow> 4 | V6 ip l4 \<Rightarrow> 6)"
  shows "(case p of V4 ip opts l4 \<Rightarrow> set_ipv4_info m skb (ev_l3_info zero_event)
      | V6 ip l4 \<Rightarrow> set_ipv6_info m skb (ev_l3_info zero_event)) = ipt_l3_report p"
proof (cases p)
  case (V4 ip opts l4)
  then show ?thesis
    using assms(3) read_packet_v4(1) [OF assms(1) [unfolded V4]]
    by (simp add: set_ipv4_info_def zero_event_def set_v4addr_zero)
next
  case (V6 ip l4)
  have flow: "length (ip6_flow_lbl ip) = 3" using assms(2) V6 by simp
  have "mem_at m (get_l3_header skb + 8) (in6_bytes (ip6_saddr ip))"
    "mem_at m (get_l3_header skb + 24) (in6_bytes (ip6_daddr ip))"
    using assms(1) flow by (simp_all add: V6 ipv6hdr_bytes_def algebra_simps)
  then have addr: "load_bytes m ADDRSIZE (get_l3_header skb + 8) = in6_bytes (ip6_saddr ip)"
    "load_bytes m ADDRSIZE (get_l3_header skb + 24) = in6_bytes (ip6_daddr ip)"
    by (simp_all add: load_bytes_mem_at ADDRSIZE_def)
  show ?thesis
    using V6 assms(3) read_packet_v6(1) [OF assms(1) [unfolded V6] flow]
    by (simp add: set_ipv6_info_def zero_event_def addr)
qed

lemma packet_l4_at:
  assumes "mem_at m a (packet_bytes p)" "wire_ok p"
  shows "mem_at m (a + of_nat (net_len p)) (l4_bytes (packet_l4 p))"
  using assms by (cases p) (simp_all add: add.assoc)

lemma set_l4_info_packet:
  assumes "mem_at m (get_l4_header m skb) (l4_bytes l4)"
  shows "l4 = Tcp th \<Longrightarrow> set_tcp_info m skb (ev_l4_info zero_event) = ipt_l4_report l4"
    and "l4 = Udp uh \<Longrightarrow> set_udp_info m skb (ev_l4_info zero_event) = ipt_l4_report l4"
    and "l4 = Icmp ch \<Longrightarrow> set_icmp_info m skb (ev_icmp_info zero_event) = ipt_icmp_report l4"
proof -
  show "set_tcp_info m skb (ev_l4_info zero_event) = ipt_l4_report l4" if "l4 = Tcp th"
  proof -
    have t: "tcphdr_at m (get_l4_header m skb) = th" using assms that by (simp add: tcphdr_round_trip)
    have "load16 m (get_l4_header m skb + 12) = tcp_flags th"
      using arg_cong [OF t, of tcp_flags] by (simp add: tcphdr_at_def)
    with t show ?thesis using that by (simp add: set_tcp_info_def zero_event_def Let_def)
  qed
  show "set_udp_info m skb (ev_l4_info zero_event) = ipt_l4_report l4" if "l4 = Udp uh"
    using assms that by (simp add: set_udp_info_def zero_event_def udphdr_round_trip)
  show "set_icmp_info m skb (ev_icmp_info zero_event) = ipt_icmp_report l4" if "l4 = Icmp ch"
  proof -
    have "load_bytes m ICMP_HLEN (get_l4_header m skb) = icmphdr_bytes ch"
      using assms that by (intro load_bytes_mem_at) (simp_all add: ICMP_HLEN_def)
    then show ?thesis
      using that by (simp add: set_icmp_info_def zero_event_def icmphdr_bytes_def le_word_to_le)
  qed
qed

lemma do_trace_skb_packet:
  assumes "skb_holds (k_mem (ie_kernel e)) (skb_at (ie_kernel e) skb) headroom eh p payload"
  shows "ev_l2_info (do_trace_skb e skb zero_event) = \<lparr>l2_dest_mac = eth_h_dest eh, l2_l3_proto = ether_type p\<rparr> \<and>
    ev_l3_info (do_trace_skb e skb zero_event) = ipt_l3_report p \<and>
    ev_l4_info (do_trace_skb e skb zero_event) = ipt_l4_report (packet_l4 p) \<and>
    ev_icmp_info (do_trace_skb e skb zero_event) = ipt_icmp_report (packet_l4 p)"
proof -
  note l3 = l3_header_packet [OF assms]
  have ok: "wire_ok p" using assms by (simp add: skb_holds_def)
  have l4: "mem_at (k_mem (ie_kernel e)) (get_l4_header (k_mem (ie_kernel e)) (skb_at (ie_kernel e) skb))
      (l4_bytes (packet_l4 p))"
    unfolding l3(3) by (rule packet_l4_at [OF l3(1) ok])
  note infos = set_l3_info_packet [OF l3(1) ok l3(2)] set_l4_info_packet [OF l4]
  show ?thesis
  proof (cases p)
    case (V4 ip opts l4)
    then show ?thesis
      using ok infos
      by (cases l4)
        (simp_all add: do_trace_skb_def Let_def l3 c_consts set_event_info_def, simp_all add: zero_event_def)
  next
    case (V6 ip l4)
    then show ?thesis
      using ok infos
      by (cases l4)
        (simp_all add: do_trace_skb_def Let_def l3 c_consts set_event_info_def, simp_all add: zero_event_def)
  qed
qed

section \<open>Concrete packets\<close>

definition demo_eth :: ethhdr where
  "demo_eth = \<lparr>eth_h_dest = replicate 6 7, eth_h_source = replicate 6 7, eth_h_proto = 0x0008\<rparr>"

lemma demo_holds: "skb_holds demo_mem demo_skb [] demo_eth (V4 demo_ip [] (Tcp demo_tcp)) []"
proof -
  have le: "to_le 2 (0x0008 :: u16) = [8, 0]" by code_simp
  have fr: "frame_bytes demo_eth (V4 demo_ip [] (Tcp demo_tcp)) = demo_frame"
    using le by (simp add: frame_bytes_def demo_frame_def ethhdr_bytes_def demo_eth_def)
      (simp add: numeral_eq_Suc)
  have ty: "ntohs 0x0008 = 0x0800" by code_simp
  have "eth_ok demo_eth (V4 demo_ip [] (Tcp demo_tcp))" "wire_ok (V4 demo_ip [] (Tcp demo_tcp))"
    using ty by (simp_all add: eth_ok_def demo_eth_def demo_ip_def ip_ihl_def)
  then show ?thesis
    using demo_mem_at by (simp add: skb_holds_def fr demo_skb_ptrs length_demo_frame) (simp add: demo_skb_def zero_sk_buff_def)
qed

text \<open>A kernel whose socket buffer at address 200 has the given frame and nothing else.\<close>

definition frame_kernel :: "ethhdr \<Rightarrow> wire_packet \<Rightarrow> kernel" where
  "frame_kernel eh p = no_kernel\<lparr>k_mem := bytes_mem 4096 (frame_bytes eh p),
     k_skb := [200 \<mapsto> zero_sk_buff\<lparr>skb_head := 4096, skb_end := of_nat (length (frame_bytes eh p)),
       skb_network_header := 14\<rparr>]\<rparr>"

lemma frame_kernel_holds:
  assumes "eth_ok eh p" "wire_ok p" "length (frame_bytes eh p) < 1000"
  shows "skb_holds (k_mem (frame_kernel eh p)) (skb_at (frame_kernel eh p) 200) [] eh p []"
proof -
  have "mem_at (bytes_mem 4096 (frame_bytes eh p)) 4096 (frame_bytes eh p)"
    using assms(3) by (intro mem_at_bytes_mem) simp
  then show ?thesis
    using assms by (simp add: frame_kernel_def skb_holds_def zero_sk_buff_def unat_of_nat take_bit_nat_eq_self)
qed

text \<open>An echo request over IPv6.\<close>

definition demo_ip6 :: ipv6hdr where
  "demo_ip6 = \<lparr>ip6_vprio = 0x60, ip6_flow_lbl = [0, 0, 0], ip6_payload_len = 0x0800, ip6_nexthdr = 58,
     ip6_hop_limit = 64, ip6_saddr = (1, 2, 3, 4), ip6_daddr = (5, 6, 7, 8)\<rparr>"

definition demo_echo :: wire_packet where
  "demo_echo = V6 demo_ip6 (Icmp \<lparr>icmp_type = 128, icmp_code = 0, icmp_checksum = 0, icmp_id = 0x0100,
     icmp_sequence = 0x0500\<rparr>)"

lemma demo_echo_holds:
  "skb_holds (k_mem (frame_kernel (demo_eth\<lparr>eth_h_proto := 0xDD86\<rparr>) demo_echo))
     (skb_at (frame_kernel (demo_eth\<lparr>eth_h_proto := 0xDD86\<rparr>) demo_echo) 200) []
     (demo_eth\<lparr>eth_h_proto := 0xDD86\<rparr>) demo_echo []"
proof (rule frame_kernel_holds)
  have ty: "ntohs 0xDD86 = 0x86DD" by code_simp
  show "eth_ok (demo_eth\<lparr>eth_h_proto := 0xDD86\<rparr>) demo_echo" "wire_ok demo_echo"
    using ty by (simp_all add: eth_ok_def demo_eth_def demo_echo_def demo_ip6_def)
  show "length (frame_bytes (demo_eth\<lparr>eth_h_proto := 0xDD86\<rparr>) demo_echo) < 1000"
    by (simp add: frame_bytes_def ethhdr_bytes_def demo_eth_def demo_echo_def demo_ip6_def)
qed

section \<open>Properties\<close>

text \<open>C19: For every well-formed packet (IPv4, with options or without, or IPv6; TCP, UDP or ICMP) in the
  buffer of the socket buffer, of a hook of its family and of a socket whose local and remote addresses are not
  zero, the nftables probe submits one event if the ring buffer has room for it, and none if it has not.
  The event has the hardware addresses of the frame, the addresses, protocol
  and ports of the packet in host order, its length field, and 0 for the type and code of ICMP.\<close>

theorem nft_probe_reports_packet:
  assumes "nft_probe_args version k pkt verdict rule info = (pktinfo, v, r)"
    and "skb_holds (k_mem k) (pkt_skb k pktinfo) headroom eh p payload"
    and "sk = sk_at k (so_sk (socket_at k (sk_socket (sk_at k (skb_sk (pkt_skb k pktinfo))))))"
    and "skc_rcv_saddr sk \<noteq> 0" and "skc_daddr sk \<noteq> 0"
    and "hs_pf (hook_at k (np_state (nft_pktinfo_at k pktinfo))) = nf_family p"
  shows "\<exists>t. rb_out (kprobe_nft_trace_packet version c k pkt verdict rule info events) =
      rb_out events @ (if trace_info_size \<le> rb_avail events then [t] else []) \<and>
    tr_conn_info t = nft_l4_report (packet_l4 p) (nft_l3_report p
      (zero_trace_conn_info\<lparr>ci_src_mac := eth_h_source eh, ci_dest_mac := eth_h_dest eh\<rparr>)) \<and>
    ni_len (tr_nft_info t) = packet_len p"
proof -
  have "fill_trace_pkt_info k pktinfo (t, e) =
      (nft_report p (map_conn (\<lambda>c. c\<lparr>ci_src_mac := eth_h_source eh, ci_dest_mac := eth_h_dest eh\<rparr>) t), e)" for t e
    by (rule fill_trace_pkt_info_packet [OF assms(2-6)])
  then obtain t e where t: "fill_trace c k pktinfo v r info (zero_trace_info, CLEAN_ERR_INIT) = (t, e)"
    "e = CLEAN_ERR_INIT" "tr_conn_info t = nft_l4_report (packet_l4 p) (nft_l3_report p
      (zero_trace_conn_info\<lparr>ci_src_mac := eth_h_source eh, ci_dest_mac := eth_h_dest eh\<rparr>))"
    "ni_len (tr_nft_info t) = packet_len p"
    by (simp add: fill_trace_def Let_def nft_report_def zero_trace_info_def)
  then show ?thesis
    using assms(1) by (intro exI [of _ t]) (simp add: kprobe_nft_trace_packet_def c_consts)
qed

theorem nft_probe_reports_packet_witness:
  "\<exists>t. rb_out (kprobe_nft_trace_packet (KERNEL_VERSION 6 8 0) \<lparr>cur_tgid = 7, cur_pid = 8, cur_comm = [],
        cur_cpu = 0, ktime = (\<lambda>_. 1)\<rparr> demo_kernel 500 0 0 0 nft_events_init) = [t] \<and>
    ci_src_ip (tr_conn_info t) = 0x0A000001 \<and> ci_dest_port (tr_conn_info t) = 443"
proof -
  have args: "nft_probe_args (KERNEL_VERSION 6 8 0) demo_kernel 500 0 0 0 = (500, 0, 0)"
    by (simp add: nft_probe_args_def KERNEL_VERSION_def)
  have holds: "skb_holds (k_mem demo_kernel) (pkt_skb demo_kernel 500) [] demo_eth (V4 demo_ip [] (Tcp demo_tcp)) []"
    using demo_holds by (simp only: demo_pkt) (simp add: demo_kernel_def)
  have room: "trace_info_size \<le> rb_avail nft_events_init" by (simp add: trace_info_size_def nft_events_init_def)
  have sk: "sk_at demo_kernel (so_sk (socket_at demo_kernel (sk_socket (sk_at demo_kernel
      (skb_sk (pkt_skb demo_kernel 500)))))) = zero_sock\<lparr>sk_socket := 300, skc_rcv_saddr := 1, skc_daddr := 2\<rparr>"
    by (simp only: demo_pkt) (simp add: demo_kernel_def demo_skb_def)
  have family: "hs_pf (hook_at demo_kernel (np_state (nft_pktinfo_at demo_kernel 500))) =
      nf_family (V4 demo_ip [] (Tcp demo_tcp))"
    by (simp add: demo_kernel_def c_consts)
  have "ntohl (ip_saddr demo_ip) = 0x0A000001" "ntohs (tcp_dest demo_tcp) = 443"
    by (simp_all add: demo_ip_def demo_tcp_def) (code_simp, code_simp)
  then show ?thesis
    using nft_probe_reports_packet [OF args holds refl _ _ family, where events = nft_events_init] room unfolding sk
    by (fastforce simp: nft_events_init_def zero_sock_def)
qed

text \<open>C20: Let the entry probe have saved for the task a socket buffer that holds a well-formed packet (IPv4 or
  IPv6; TCP, UDP or ICMP), the ring buffer have room and the perf event array take the event. Then the
  return from \<^verbatim>\<open>ipt_do_table\<close> or \<^verbatim>\<open>nft_do_chain\<close> sends one event, and it has the destination
  hardware address and ether type of the frame, the addresses as they are on the wire, the version, protocol and length, the ports and the flags word, or the type, identifier and
  sequence number of ICMP; what does not apply to the packet is 0.\<close>

theorem ipt_return_reports_packet:
  assumes "htab_lookup (skbtracer_ipt s) (ie_task e) = Some args"
    and "skb_holds (k_mem (ie_kernel e)) (skb_at (ie_kernel e) (ia_skb args)) headroom eh p payload"
    and "event_size \<le> rb_avail (ipt_events s)" and "ie_perf_ok e"
    and "s' = kr_ipt_do_table e verdict s \<or> s' = kr_nft_do_chain e verdict s"
  shows "\<exists>ev. skbtracer_event s' = skbtracer_event s @ [ev] \<and>
    ev_l2_info ev = \<lparr>l2_dest_mac = eth_h_dest eh, l2_l3_proto = ether_type p\<rparr> \<and>
    ev_l3_info ev = ipt_l3_report p \<and> ev_l4_info ev = ipt_l4_report (packet_l4 p) \<and>
    ev_icmp_info ev = ipt_icmp_report (packet_l4 p)"
  using assms(5)
proof
  assume s': "s' = kr_ipt_do_table e verdict s"
  show ?thesis
    using do_trace_skb_packet [OF assms(2)] assms(1,3,4)
    by (auto simp: s' kr_ipt_do_table_def ipt_do_table_out_def Let_def case_prod_beta ipt_emit_out)
next
  assume s': "s' = kr_nft_do_chain e verdict s"
  show ?thesis
    using do_trace_skb_packet [OF assms(2)] assms(1,3,4)
    by (auto simp: s' kr_nft_do_chain_def Let_def case_prod_beta ipt_emit_out)
qed

theorem ipt_return_reports_packet_witness:
  "\<exists>ev. skbtracer_event (kr_ipt_do_table ((ipt_demo 9)\<lparr>ie_kernel := frame_kernel (demo_eth\<lparr>eth_h_proto := 0xDD86\<rparr>) demo_echo\<rparr>) 1
      (k_ipt_do_table (ipt_demo 5) 1 200 3 ipt_init)) = [ev] \<and>
    l3_saddr (ev_l3_info ev) = in6_bytes (1, 2, 3, 4) \<and> ii_icmptype (ev_icmp_info ev) = 128"
proof -
  define e where "e = (ipt_demo 9)\<lparr>ie_kernel := frame_kernel (demo_eth\<lparr>eth_h_proto := 0xDD86\<rparr>) demo_echo\<rparr>"
  define s where "s = k_ipt_do_table (ipt_demo 5) 1 200 3 ipt_init"
  define args where "args = \<lparr>ia_skb = 200 :: ptr, ia_state = 3, ia_table = 1, ia_chain = 0, ia_start_ns = 5\<rparr>"
  have task: "ie_task e = ie_task (ipt_demo 5)" by (simp add: e_def ipt_demo_def bpf_get_current_pid_tgid_def)
  have found: "htab_lookup (skbtracer_ipt s) (ie_task e) = Some args"
    using htab_update_room [OF ipt_init_room(1)]
    by (simp add: task s_def k_ipt_do_table_def ipt_do_table_in_def args_def) (simp add: ipt_demo_def)
  have ring: "event_size \<le> rb_avail (ipt_events s)" "skbtracer_event s = []" "ie_perf_ok e"
    using ipt_init_room(2)
    by (simp_all add: s_def e_def ipt_demo_def k_ipt_do_table_def ipt_do_table_in_def ipt_init_def)
  have holds: "skb_holds (k_mem (ie_kernel e)) (skb_at (ie_kernel e) (ia_skb args)) []
      (demo_eth\<lparr>eth_h_proto := 0xDD86\<rparr>) demo_echo []"
    using demo_echo_holds by (simp add: e_def args_def)
  show ?thesis
    using ipt_return_reports_packet [OF found holds ring(1,3), of _ 1] ring(2)
    unfolding e_def [symmetric] s_def [symmetric]
    by (fastforce simp: demo_echo_def demo_ip6_def)
qed

end
