(* ===== verification/Xdp.thy ===== *)
theory Xdp
  imports Packet Ipt_Trace
begin

text \<open>
  \<^verbatim>\<open>xdp-trace.c\<close> and \<^verbatim>\<open>lib_xdp_tc.h\<close>: programs that see a frame before the network stack does.
  The context gives 32-bit addresses of the frame and of the metadata in front of it; every
  access is a direct read of memory, guarded by comparisons with the end of the frame.
\<close>

section \<open>State\<close>

definition MAGIC :: u32 where "MAGIC = 0xFEDCBA98"
definition MAX_MAP_ENTRIES :: nat where "MAX_MAP_ENTRIES = 100"

datatype xdp_action = XDP_ABORTED | XDP_DROP | XDP_PASS | XDP_TX | XDP_REDIRECT

datatype probing_type = PROBE_TYPE_DEFAULT | PROBE_TYPE_FENTRY | PROBE_TYPE_FEXIT | PROBE_TYPE_FREPLACE

fun probing_num :: "probing_type \<Rightarrow> u32" where
  "probing_num PROBE_TYPE_DEFAULT = 0"
| "probing_num PROBE_TYPE_FENTRY = 1"
| "probing_num PROBE_TYPE_FEXIT = 2"
| "probing_num PROBE_TYPE_FREPLACE = 3"

record xdp_md =
  xd_data :: u32
  xd_data_end :: u32
  xd_data_meta :: u32

definition ctx_ptr :: "u32 \<Rightarrow> ptr" where
  "ctx_ptr field = ucast field"

record conn_track =
  ct_src_ip :: u64
  ct_dest_ip :: u64
  ct_src_port :: u32
  ct_dest_port :: u32

record flow_count =
  fl_lock :: u32
  fl_pkt_cnt :: u64
  fl_pkt_byte :: u64

definition xdp_stats_map :: "(conn_track, flow_count) htab" where
  "xdp_stats_map = htab_empty MAX_MAP_ENTRIES"

record xdp_event =
  xe_saddr :: u32
  xe_daddr :: u32
  xe_sport :: u32
  xe_dport :: u32
  xe_probe_type :: u8
  xe_verdict :: u8
  xe_pad :: u16

definition zero_xdp_event :: xdp_event where
  "zero_xdp_event = \<lparr>xe_saddr = 0, xe_daddr = 0, xe_sport = 0, xe_dport = 0, xe_probe_type = 0, xe_verdict = 0,
     xe_pad = 0\<rparr>"

section \<open>Shared routines\<close>

definition is_invalid_hdr :: "ptr \<Rightarrow> nat \<Rightarrow> ptr \<Rightarrow> bool" where
  "is_invalid_hdr hdr sz data_end \<longleftrightarrow> hdr + of_nat sz > data_end"

text \<open>\<open>ok\<close> is whether the perf array takes the event; \<open>out\<close> what it has.\<close>

definition handle_packet ::
  "bytemem \<Rightarrow> bool \<Rightarrow> ptr \<Rightarrow> probing_type \<Rightarrow> u32 \<Rightarrow> xdp_event list \<Rightarrow> xdp_event list" where
  "handle_packet m ok iph type verdict out =
     (let ip = iphdr_at m iph;
          ev = zero_xdp_event\<lparr>xe_saddr := ip_saddr ip, xe_daddr := ip_daddr ip,
                 xe_probe_type := ucast (probing_num type), xe_verdict := ucast verdict\<rparr>
      in bpf_perf_event_output ok ev out)"

definition xdp_new_connection :: "kernel \<Rightarrow> bool \<Rightarrow> ptr \<Rightarrow> xdp_event list \<Rightarrow> xdp_event list" where
  "xdp_new_connection k ok sk out =
     (let s = sk_at k sk;
          ev = zero_xdp_event\<lparr>xe_saddr := skc_rcv_saddr s, xe_daddr := skc_daddr s\<rparr>
      in bpf_perf_event_output ok ev out)"

definition lib_handle_xdp ::
  "bytemem \<Rightarrow> bool \<Rightarrow> xdp_md \<Rightarrow> probing_type \<Rightarrow> u32 \<Rightarrow> xdp_event list \<Rightarrow> xdp_event list" where
  "lib_handle_xdp m ok xdp type cpu out =
     (let data_end = ctx_ptr (xd_data_end xdp);
          data = ctx_ptr (xd_data xdp);
          iph = data + of_nat ETH_HLEN
      in if is_invalid_hdr iph IP_HLEN data_end then out
         else handle_packet m ok iph type cpu out)"

definition is_icmp :: "bytemem \<Rightarrow> xdp_md \<Rightarrow> bool" where
  "is_icmp m xdp \<longleftrightarrow>
     (let data_end = ctx_ptr (xd_data_end xdp);
          data = ctx_ptr (xd_data xdp);
          iph = data + of_nat ETH_HLEN
      in \<not> is_invalid_hdr iph IP_HLEN data_end \<and> ucast (ip_protocol (iphdr_at m iph)) = IPPROTO_ICMP)"

section \<open>Programs\<close>

text \<open>
  \<^verbatim>\<open>parse_ipv4_src_addr\<close> makes room for a word in front of the frame and stores the magic number in
  it. \<open>adjust ctx delta\<close> is \<^verbatim>\<open>bpf_xdp_adjust_meta\<close>: its result and the context after it.
\<close>

definition store32 :: "bytemem \<Rightarrow> ptr \<Rightarrow> u32 \<Rightarrow> bytemem" where
  "store32 m p v = (\<lambda>a. if unat (a - p) < 4 then Some (to_le 4 v ! unat (a - p)) else m a)"

definition parse_ipv4_src_addr ::
  "(xdp_md \<Rightarrow> int \<Rightarrow> int \<times> xdp_md) \<Rightarrow> xdp_md \<times> bytemem \<Rightarrow> xdp_md \<times> bytemem" where
  "parse_ipv4_src_addr adjust st =
     (let (ctx, m) = st;
          (rc, ctx) = adjust ctx (- 4)
      in if rc \<noteq> 0 then (ctx, m)
         else (let data = ctx_ptr (xd_data ctx);
                   val = ctx_ptr (xd_data_meta ctx)
               in if val + 4 > data then (ctx, m) else (ctx, store32 m val MAGIC)))"

text \<open>\<^verbatim>\<open>trace_packets\<close>: the action, and the flow key it computes, which nothing uses. The ports are
  read at a fixed offset behind the IP header.\<close>

definition trace_packets :: "bytemem \<Rightarrow> xdp_md \<Rightarrow> xdp_action \<times> conn_track option" where
  "trace_packets m ctx =
     (let eth = ctx_ptr (xd_data ctx);
          data_end = ctx_ptr (xd_data_end ctx);
          iph = eth + of_nat ETH_HLEN;
          l4 = iph + of_nat IP_HLEN;
          ip = iphdr_at m iph;
          proto = ucast (ip_protocol ip);
          track = (\<lambda>src_port dest_port. Some
            \<lparr>ct_src_ip = ucast (ntohl (ip_saddr ip)), ct_dest_ip = ucast (ntohl (ip_daddr ip)),
             ct_src_port = ucast (ntohs src_port), ct_dest_port = ucast (ntohs dest_port)\<rparr>)
      in if eth + of_nat ETH_HLEN > data_end then (XDP_PASS, None)
         else if iph + of_nat IP_HLEN > data_end then (XDP_PASS, None)
         else if proto = IPPROTO_TCP then
           if l4 + of_nat TCP_HLEN > data_end then (XDP_PASS, None)
           else (XDP_PASS, track (tcp_source (tcphdr_at m l4)) (tcp_dest (tcphdr_at m l4)))
         else if proto = IPPROTO_UDP then
           if l4 + of_nat UDP_HLEN > data_end then (XDP_PASS, None)
           else (XDP_PASS, track (udp_source (udphdr_at m l4)) (udp_dest (udphdr_at m l4)))
         else (XDP_PASS, None))"

definition stub_handler :: "xdp_md \<Rightarrow> xdp_action" where
  "stub_handler ctx = XDP_ABORTED"

text \<open>\<^verbatim>\<open>xdp_f2\<close>: the action, and whether it printed that it saw the magic number.\<close>

definition xdp_f2 :: "bytemem \<Rightarrow> xdp_md \<Rightarrow> xdp_action \<times> bool" where
  "xdp_f2 m ctx =
     (let val = ctx_ptr (xd_data_meta ctx);
          data = ctx_ptr (xd_data ctx)
      in if val + 4 > data then (XDP_PASS, False)
         else (XDP_PASS, load32 m val = MAGIC))"

text \<open>\<^verbatim>\<open>struct xdp_buff\<close> has its addresses in full width; they are read through probes, as are the headers.\<close>

record xdp_buff =
  xb_data :: ptr
  xb_data_end :: ptr

definition handle_xdp ::
  "bytemem \<Rightarrow> bool \<Rightarrow> xdp_buff \<Rightarrow> u32 \<Rightarrow> bool \<Rightarrow> xdp_event list \<Rightarrow> xdp_event list" where
  "handle_xdp m ok xdp verdict is_fexit out =
     (let eth = xb_data xdp;
          iph = eth + of_nat ETH_HLEN
      in if iph + of_nat IP_HLEN > xb_data_end xdp then out
         else if eth_h_proto (ethhdr_at m eth) \<noteq> htons_const ETH_P_IP then out
         else if ucast (ip_protocol (iphdr_at m iph)) \<noteq> IPPROTO_ICMP then out
         else handle_packet m ok iph (if is_fexit then PROBE_TYPE_FEXIT else PROBE_TYPE_FENTRY) verdict out)"

end
