(* ===== verification/Xdp_Claims.thy ===== *)
theory Xdp_Claims
  imports Xdp Nft_Claims
begin

text \<open>
  The properties of the XDP programs: no read outside the frame, what the flow tracer computes,
  and the word that one program leaves for the next.
\<close>

section \<open>Frame bounds\<close>

lemma unat_ctx_ptr: "unat (ctx_ptr d) = unat d"
proof -
  have "unat d < 2 ^ 32" using unsigned_less [of d] by simp
  then show ?thesis by (simp add: ctx_ptr_def unsigned_ucast_eq take_bit_nat_eq_self)
qed

lemma ctx_ptr_add:
  assumes "k < 2 ^ 32"
  shows "unat (ctx_ptr d + of_nat k) = unat d + k"
proof -
  have "unat d < 2 ^ 32" using unsigned_less [of d] by simp
  then show ?thesis using unat_add_of_nat [of "ctx_ptr d" k] unat_ctx_ptr [of d] assms by simp
qed

lemma frame_room:
  assumes "k < 2 ^ 32"
  shows "ctx_ptr d + of_nat k > ctx_ptr e \<longleftrightarrow> unat d + k > unat e"
  by (simp only: word_less_nat_alt ctx_ptr_add [OF assms] unat_ctx_ptr)

abbreviation same_frame :: "bytemem \<Rightarrow> bytemem \<Rightarrow> xdp_md \<Rightarrow> bool" where
  "same_frame m m' ctx \<equiv>
     agree m m' (ctx_ptr (xd_data ctx)) (unat (xd_data_end ctx) - unat (xd_data ctx))"

lemma frame_agree:
  assumes "same_frame m m' ctx"
    and "\<not> ctx_ptr (xd_data ctx) + of_nat (k + n) > ctx_ptr (xd_data_end ctx)" "k + n < 2 ^ 32"
  shows "agree m m' (ctx_ptr (xd_data ctx) + of_nat k) n"
  using assms(2) frame_room [OF assms(3), of "xd_data_end ctx" "xd_data ctx"]
  by (intro agree_sub [OF assms(1)]) linarith

section \<open>Properties\<close>

text \<open>C33: The flow tracer and the ICMP test read only the frame: with the same bytes from its start to its
  end they give the same results, whatever the rest of memory holds. The flow tracer passes every
  frame on.\<close>

theorem xdp_reads_in_frame:
  assumes "same_frame m m' ctx"
  shows "trace_packets m ctx = trace_packets m' ctx \<and> is_icmp m ctx = is_icmp m' ctx \<and>
    lib_handle_xdp m ok ctx type cpu out = lib_handle_xdp m' ok ctx type cpu out \<and>
    fst (trace_packets m ctx) = XDP_PASS"
proof -
  let ?e = "ctx_ptr (xd_data_end ctx)"
  define iph where "iph = ctx_ptr (xd_data ctx) + of_nat ETH_HLEN"
  define l4 where "l4 = iph + of_nat IP_HLEN"
  have l4_off: "l4 = ctx_ptr (xd_data ctx) + of_nat 34" by (simp add: l4_def iph_def ETH_HLEN_def IP_HLEN_def)
  have ip: "iphdr_at m iph = iphdr_at m' iph" if "\<not> ?e < l4"
    using frame_agree [OF assms, of 14 20] that unfolding l4_off iph_def
    by (intro agree_headers(3)) (simp add: ETH_HLEN_def)
  have tcp: "tcphdr_at m l4 = tcphdr_at m' l4" if "\<not> ?e < l4 + of_nat TCP_HLEN"
    using frame_agree [OF assms, of 34 20] that unfolding l4_off
    by (intro agree_headers(4)) (simp add: TCP_HLEN_def add.assoc)
  have udp: "udphdr_at m l4 = udphdr_at m' l4" if "\<not> ?e < l4 + of_nat UDP_HLEN"
    using frame_agree [OF assms, of 34 8] that unfolding l4_off
    by (intro agree_headers(5)) (simp add: UDP_HLEN_def add.assoc)
  have tp: "trace_packets m ctx = trace_packets m' ctx"
    unfolding trace_packets_def Let_def iph_def [symmetric] l4_def [symmetric]
    by (simp add: ip tcp udp cong: if_cong)
  have ic: "is_icmp m ctx = is_icmp m' ctx"
    unfolding is_icmp_def Let_def is_invalid_hdr_def iph_def [symmetric] l4_def [symmetric]
    by (simp add: ip cong: conj_cong)
  have hx: "lib_handle_xdp m ok ctx type cpu out = lib_handle_xdp m' ok ctx type cpu out"
    unfolding lib_handle_xdp_def handle_packet_def Let_def is_invalid_hdr_def iph_def [symmetric] l4_def [symmetric]
    by (simp add: ip cong: if_cong)
  show ?thesis
    using tp ic hx by (simp add: trace_packets_def Let_def)
qed

definition demo_xdp :: xdp_md where
  "demo_xdp = \<lparr>xd_data = 4096, xd_data_end = 4150, xd_data_meta = 4092\<rparr>"

theorem xdp_reads_in_frame_witness:
  "trace_packets demo_mem demo_xdp = trace_packets (demo_mem(0 \<mapsto> 9)) demo_xdp"
proof -
  have "same_frame demo_mem (demo_mem(0 \<mapsto> 9)) demo_xdp"
  proof -
    have "ctx_ptr (xd_data demo_xdp) + of_nat i \<noteq> 0" if "i < 54" for i
    proof -
      have "unat (ctx_ptr (xd_data demo_xdp) + of_nat i) = 4096 + i"
        using ctx_ptr_add [of i "xd_data demo_xdp"] that by (simp add: demo_xdp_def)
      then show ?thesis by (metis add_is_0 unat_0 zero_neq_numeral)
    qed
    then show ?thesis by (simp add: agree_def demo_xdp_def)
  qed
  then show ?thesis using xdp_reads_in_frame by blast
qed

text \<open>For a frame with an IPv4 header without options and a TCP segment, both inside the frame, the
  flow tracer's key has the addresses and ports of the segment in host order; when the frame ends
  before the TCP header does, it has no key.\<close>

theorem trace_packets_flow:
  assumes "mem_at m (ctx_ptr (xd_data ctx) + 14) (iphdr_bytes ip @ tcphdr_bytes tcp)"
    and "ip_protocol ip = 6" and "unat (xd_data ctx) + 54 \<le> unat (xd_data_end ctx)"
  shows "trace_packets m ctx = (XDP_PASS, Some
      \<lparr>ct_src_ip = ucast (ntohl (ip_saddr ip)), ct_dest_ip = ucast (ntohl (ip_daddr ip)),
       ct_src_port = ucast (ntohs (tcp_source tcp)), ct_dest_port = ucast (ntohs (tcp_dest tcp))\<rparr>) \<and>
    (unat (xd_data_end short) < unat (xd_data short) + 54 \<longrightarrow>
       xd_data short = xd_data ctx \<longrightarrow> trace_packets m short = (XDP_PASS, None))"
proof -
  let ?d = "ctx_ptr (xd_data ctx)"
  have len: "length (iphdr_bytes ip) = 20" by (simp add: iphdr_bytes_def)
  have ip: "iphdr_at m (?d + 14) = ip" using assms(1) by (simp add: iphdr_round_trip)
  have tcp: "tcphdr_at m (?d + 34) = tcp"
    using tcp.read_inside [OF TrueI, of m "?d + 14" "iphdr_bytes ip" tcp "[]"] assms(1) by (simp add: len add.commute)
  have room: "\<not> ?d + 14 > ctx_ptr (xd_data_end ctx)" "\<not> ?d + 34 > ctx_ptr (xd_data_end ctx)"
    "\<not> ?d + 54 > ctx_ptr (xd_data_end ctx)"
    using frame_room [of 14 "xd_data_end ctx" "xd_data ctx"] frame_room [of 34 "xd_data_end ctx" "xd_data ctx"]
      frame_room [of 54 "xd_data_end ctx" "xd_data ctx"] assms(3) by simp_all
  have off: "?d + 14 + 20 = ?d + 34" "?d + 34 + 20 = ?d + 54" by simp_all
  have proto: "ucast (ip_protocol ip) = IPPROTO_TCP" by (simp add: assms(2) c_consts)
  have full: "trace_packets m ctx = (XDP_PASS, Some
      \<lparr>ct_src_ip = ucast (ntohl (ip_saddr ip)), ct_dest_ip = ucast (ntohl (ip_daddr ip)),
       ct_src_port = ucast (ntohs (tcp_source tcp)), ct_dest_port = ucast (ntohs (tcp_dest tcp))\<rparr>)"
    using room proto by (simp add: trace_packets_def Let_def ETH_HLEN_def IP_HLEN_def TCP_HLEN_def off ip tcp)
  have "trace_packets m short = (XDP_PASS, None)"
    if "unat (xd_data_end short) < unat (xd_data short) + 54" "xd_data short = xd_data ctx"
  proof -
    have "?d + 54 > ctx_ptr (xd_data_end short)"
      using frame_room [of 54 "xd_data_end short" "xd_data short"] that by simp
    then show ?thesis
      using that proto
      by (simp add: trace_packets_def Let_def ETH_HLEN_def IP_HLEN_def TCP_HLEN_def off ip)
  qed
  with full show ?thesis by blast
qed

theorem trace_packets_flow_witness:
  "\<exists>ct. trace_packets demo_mem demo_xdp = (XDP_PASS, Some ct) \<and> ct_dest_port ct = 443"
proof -
  have base: "ctx_ptr (xd_data demo_xdp) = 4096" by (simp add: demo_xdp_def ctx_ptr_def)
  have "mem_at demo_mem (ctx_ptr (xd_data demo_xdp) + 14) (iphdr_bytes demo_ip @ tcphdr_bytes demo_tcp)"
    using demo_mem_at unfolding base demo_frame_def mem_at_append by simp
  moreover have "ip_protocol demo_ip = 6" by (simp add: demo_ip_def)
  moreover have "ntohs (tcp_dest demo_tcp) = 443" unfolding demo_tcp_def by code_simp
  ultimately show ?thesis
    using trace_packets_flow [of demo_mem demo_xdp demo_ip demo_tcp demo_xdp]
    by (simp add: demo_xdp_def)
qed

text \<open>When the metadata area can be grown, the word the first program leaves in front of the frame is
  what the second one looks for, and the frame is unchanged; when it cannot, memory is unchanged.\<close>

theorem xdp_meta_roundtrip:
  assumes "adjust ctx (- 4) = (rc, ctx')"
    and "rc = 0 \<Longrightarrow> ctx' = ctx\<lparr>xd_data_meta := xd_data_meta ctx - 4\<rparr>"
    and "xd_data_meta ctx = xd_data ctx" and "4 \<le> xd_data ctx"
  shows "(let (c, m') = parse_ipv4_src_addr adjust (ctx, m)
    in c = ctx' \<and>
       (if rc = 0 then xdp_f2 m' c = (XDP_PASS, True) \<and>
          (\<forall>a. ctx_ptr (xd_data ctx) \<le> a \<longrightarrow> m' a = m a)
        else m' = m))"
proof (cases "rc = 0")
  case False
  then show ?thesis using assms(1) by (simp add: parse_ipv4_src_addr_def)
next
  case True
  let ?p = "ctx_ptr (xd_data ctx - 4)"
  have ctx': "ctx' = ctx\<lparr>xd_data_meta := xd_data ctx - 4\<rparr>" using assms(2,3) True by simp
  have un: "unat (xd_data ctx - 4) = unat (xd_data ctx) - 4"
    using assms(4) by (simp add: unat_sub)
  have four: "4 \<le> unat (xd_data ctx)" using assms(4) by (simp add: word_le_nat_alt)
  have "unat (?p + of_nat 4) = unat (xd_data ctx)"
    using ctx_ptr_add [of 4 "xd_data ctx - 4"] un four by simp
  moreover have "unat (ctx_ptr (xd_data ctx)) = unat (xd_data ctx)"
    by (rule unat_ctx_ptr)
  ultimately have end4: "?p + 4 = ctx_ptr (xd_data ctx)" by (simp add: word_unat_eq_iff)
  have result: "parse_ipv4_src_addr adjust (ctx, m) = (ctx', store32 m ?p MAGIC)"
    using True assms(1) end4 by (simp add: parse_ipv4_src_addr_def ctx' Let_def)
  have small: "unat (of_nat i :: u64) = i" if "i < 4" for i :: nat
    using that by (simp add: unat_of_nat take_bit_nat_eq_self)
  have "mem_at (store32 m ?p MAGIC) ?p (to_le 4 MAGIC)"
    by (simp add: mem_at_def store32_def small)
  then have "load32 (store32 m ?p MAGIC) ?p = MAGIC" by (rule load_mem_at)
  then have seen: "xdp_f2 (store32 m ?p MAGIC) ctx' = (XDP_PASS, True)"
    using end4 by (simp add: xdp_f2_def ctx' Let_def)
  have "store32 m ?p MAGIC a = m a" if "ctx_ptr (xd_data ctx) \<le> a" for a
  proof -
    have "4 \<le> unat (a - ?p)"
    proof -
      have "unat (xd_data ctx) \<le> unat a"
        using that by (simp add: word_le_nat_alt unat_ctx_ptr)
      moreover have "unat ?p = unat (xd_data ctx) - 4"
        using un by (simp add: unat_ctx_ptr)
      ultimately show ?thesis using four by (subst unat_sub) (simp_all add: word_le_nat_alt)
    qed
    then show ?thesis by (simp add: store32_def)
  qed
  with True result seen show ?thesis by simp
qed

theorem xdp_meta_roundtrip_witness:
  "(let (c, m') = parse_ipv4_src_addr (\<lambda>ctx d. (0, ctx\<lparr>xd_data_meta := xd_data_meta ctx - 4\<rparr>))
       (demo_xdp\<lparr>xd_data_meta := 4096\<rparr>, demo_mem)
    in xdp_f2 m' c) = (XDP_PASS, True)"
proof -
  define adjust where "adjust = (\<lambda>(ctx :: xdp_md) (d :: int). (0 :: int, ctx\<lparr>xd_data_meta := xd_data_meta ctx - 4\<rparr>))"
  have "adjust (demo_xdp\<lparr>xd_data_meta := 4096\<rparr>) (- 4) = (0, demo_xdp\<lparr>xd_data_meta := 4092\<rparr>)"
    by (simp add: adjust_def demo_xdp_def)
  with xdp_meta_roundtrip [of adjust "demo_xdp\<lparr>xd_data_meta := 4096\<rparr>" 0 "demo_xdp\<lparr>xd_data_meta := 4092\<rparr>" demo_mem]
  show ?thesis unfolding adjust_def [symmetric] by (simp add: demo_xdp_def case_prod_beta Let_def) metis
qed

end
