(* ===== verification/Flow_Reports.thy ===== *)
theory Flow_Reports
  imports Packet_Reports Xdp_Claims
begin

text \<open>
  What the flow tracer of the XDP programs computes for an IPv4 packet, and that the three tracers
  say the same of a packet that all of them see.
\<close>

section \<open>The flow tracer\<close>

definition xdp_holds :: "bytemem \<Rightarrow> xdp_md \<Rightarrow> ethhdr \<Rightarrow> wire_packet \<Rightarrow> bytes \<Rightarrow> bool" where
  "xdp_holds m ctx eh p payload \<longleftrightarrow>
     eth_ok eh p \<and> wire_ok p \<and> mem_at m (ctx_ptr (xd_data ctx)) (frame_bytes eh p @ payload) \<and>
     unat (xd_data_end ctx) = unat (xd_data ctx) + length (frame_bytes eh p @ payload)"

definition flow_key :: "iphdr \<Rightarrow> u16 \<times> u16 \<Rightarrow> conn_track" where
  "flow_key ip ports =
     \<lparr>ct_src_ip = ucast (ntohl (ip_saddr ip)), ct_dest_ip = ucast (ntohl (ip_daddr ip)),
      ct_src_port = ucast (ntohs (fst ports)), ct_dest_port = ucast (ntohs (snd ports))\<rparr>"

text \<open>The two words behind 20 bytes of IP header, be they ports or options.\<close>

definition first_words :: "bytes \<Rightarrow> u16 \<times> u16" where
  "first_words bs = (le_word (take 2 bs), le_word (take 2 (drop 2 bs)))"

lemma first_words_ports: "l4_ports l4 = Some ports \<Longrightarrow> first_words (l4_bytes l4) = ports"
  by (cases l4) (auto simp: first_words_def tcphdr_bytes_def udphdr_bytes_def le_word_to_le)

lemma load16_prefix:
  assumes "mem_at m a bs" "2 \<le> length bs"
  shows "load16 m a = le_word (take 2 bs)"
proof -
  have "mem_at m a (take 2 bs @ drop 2 bs)" using assms(1) by simp
  then have "mem_at m a (take 2 bs)" by (simp only: mem_at_append)
  moreover have "length (take 2 bs) = 2" using assms(2) by simp
  ultimately have "probe_read m 2 a = (0, take 2 bs)" using probe_read_mem_at [of m a "take 2 bs"] by metis
  then show ?thesis by (simp add: load16_def)
qed

lemma first_words_at:
  assumes "mem_at m a bs" "4 \<le> length bs"
  shows "(load16 m a, load16 m (a + 2)) = first_words bs"
proof -
  have "mem_at m a (take 2 bs @ drop 2 bs)" using assms(1) by simp
  then have "mem_at m (a + 2) (drop 2 bs)" using assms(2) by (simp only: mem_at_append) (simp add: min_def)
  then show ?thesis
    using assms load16_prefix [of m a bs] load16_prefix [of m "a + 2" "drop 2 bs"]
    by (simp add: first_words_def)
qed

lemma trace_packets_packet:
  assumes "xdp_holds m ctx eh (V4 ip opts l4) payload"
  shows "trace_packets m ctx = (XDP_PASS,
    map_option (\<lambda>_. flow_key ip (first_words (opts @ l4_bytes l4))) (l4_ports l4))"
proof -
  let ?d = "ctx_ptr (xd_data ctx)" and ?l = "length (l4_bytes l4)"
  have ok: "ip_protocol ip = l4_number 1 l4" and e: "eth_ok eh (V4 ip opts l4)"
    and at: "mem_at m ?d (frame_bytes eh (V4 ip opts l4) @ payload)"
    and len: "unat (xd_data_end ctx) = unat (xd_data ctx) + length (frame_bytes eh (V4 ip opts l4) @ payload)"
    using assms by (simp_all add: xdp_holds_def)
  note el = eth_length [OF e]
  have ip: "iphdr_at m (?d + 14) = ip"
    using at by (intro iphdr_round_trip) (simp add: frame_bytes_def el)
  have "mem_at m (?d + 34) (opts @ l4_bytes l4)"
    using at by (simp add: frame_bytes_def el add.assoc)
  then have ports: "load16 m (?d + 34) = fst (first_words (opts @ l4_bytes l4))"
    "load16 m (36 + ?d) = snd (first_words (opts @ l4_bytes l4))"
    using first_words_at [of m "?d + 34" "opts @ l4_bytes l4"] length_l4_bytes(1) [of l4]
    by (simp_all add: prod_eq_iff add.commute)
  have room: "\<not> ?d + of_nat n > ctx_ptr (xd_data_end ctx)" if "n \<le> 34 + ?l" for n
    using frame_room [of n "xd_data_end ctx" "xd_data ctx"] len that by (cases l4) (simp_all add: frame_bytes_def el)
  have off: "?d + 14 + 20 = ?d + 34" "?d + 34 + 20 = ?d + 54" "?d + 34 + 8 = ?d + 42" by simp_all
  show ?thesis
    using room [of 14] room [of 34] room [of 42] room [of 54] ok
    by (cases l4)
      (simp_all add: trace_packets_def Let_def hlen_defs off ip c_consts tcphdr_at_def udphdr_at_def ports flow_key_def)
qed


section \<open>Properties\<close>


text \<open>The demo frame where an XDP program sees it.\<close>

lemma demo_xdp_holds: "xdp_holds demo_mem demo_xdp demo_eth (V4 demo_ip [] (Tcp demo_tcp)) []"
proof -
  note h = demo_holds
  have len: "length (frame_bytes demo_eth (V4 demo_ip [] (Tcp demo_tcp))) = 54"
    using h by (simp add: skb_holds_def demo_skb_def)
  show ?thesis
    using h len by (simp add: xdp_holds_def skb_holds_def demo_xdp_def demo_skb_ptrs ctx_ptr_def)
qed


text \<open>C22: The three tracers agree on a packet: when the nftables parser, the iptables tracer and the flow
  tracer, each with a memory of its own, see the same IPv4 TCP or UDP packet without options, the
  key of the flow tracer has the addresses and ports of the nftables event, and the ports of the
  iptables event are the same and its address bytes are the same addresses.\<close>

theorem tracers_agree_on_flow:
  assumes "skb_holds m skb headroom eh (V4 ip [] l4) payload"
    and "skb_holds (k_mem (ie_kernel e)) (skb_at (ie_kernel e) p) headroom' eh' (V4 ip [] l4) payload'"
    and "xdp_holds m' ctx eh'' (V4 ip [] l4) payload''" and "l4_ports l4 \<noteq> None"
    and "c = tr_conn_info (fst (handle_nft_ipv4 m skb (t, err)))" and "ev = do_trace_skb e p zero_event"
  shows "snd (trace_packets m' ctx) = Some
      \<lparr>ct_src_ip = ucast (ci_src_ip c), ct_dest_ip = ucast (ci_dest_ip c),
       ct_src_port = ucast (ci_src_port c), ct_dest_port = ucast (ci_dest_port c)\<rparr> \<and>
    l4_sport (ev_l4_info ev) = ci_src_port c \<and> l4_dport (ev_l4_info ev) = ci_dest_port c \<and>
    l3_l4_proto (ev_l3_info ev) = ci_protocol c \<and>
    ntohl (le_word (take 4 (l3_saddr (ev_l3_info ev)))) = ci_src_ip c \<and>
    ntohl (le_word (take 4 (l3_daddr (ev_l3_info ev)))) = ci_dest_ip c"
proof -
  have nft: "c = tr_conn_info (nft_report (V4 ip [] l4) t)"
    unfolding assms(5) handle_nft_ipv4_packet [OF assms(1)] by simp
  note ipt = do_trace_skb_packet [OF assms(2), folded assms(6)]
  have xdp: "snd (trace_packets m' ctx) = map_option (flow_key ip) (l4_ports l4)"
    using trace_packets_packet [OF assms(3)] first_words_ports [of l4] by (cases "l4_ports l4") simp_all
  show ?thesis
    using assms(4) ipt unfolding xdp nft
    by (cases l4) (simp_all add: nft_report_def flow_key_def le_word_to_le)
qed

theorem tracers_agree_on_flow_witness:
  "l4_dport (ev_l4_info (do_trace_skb ((ipt_demo 1)\<lparr>ie_kernel := demo_kernel\<rparr>) 200 zero_event)) =
   ci_dest_port (tr_conn_info (fst (handle_nft_ipv4 demo_mem demo_skb (zero_trace_info, 1))))"
proof -
  have "k_mem (ie_kernel ((ipt_demo 1)\<lparr>ie_kernel := demo_kernel\<rparr>)) = demo_mem"
    "skb_at (ie_kernel ((ipt_demo 1)\<lparr>ie_kernel := demo_kernel\<rparr>)) 200 = demo_skb"
    by (simp_all add: demo_kernel_def)
  then have "skb_holds (k_mem (ie_kernel ((ipt_demo 1)\<lparr>ie_kernel := demo_kernel\<rparr>)))
      (skb_at (ie_kernel ((ipt_demo 1)\<lparr>ie_kernel := demo_kernel\<rparr>)) 200) [] demo_eth (V4 demo_ip [] (Tcp demo_tcp)) []"
    using demo_holds by (simp only:)
  from tracers_agree_on_flow [OF demo_holds this demo_xdp_holds _ refl refl] show ?thesis by simp
qed

end
