(* ===== verification/Unix_Sock.thy ===== *)
theory Unix_Sock
  imports Common Packet
begin

text \<open>
  \<^verbatim>\<open>ebpf/unix-sock-trace.c\<close>: capturing what is sent over Unix domain sockets whose path
  starts with a configured prefix. One packet per CPU lives in an array map and is reused
  for every message; each segment of a message is copied into it and sent through a perf
  event array. \<^verbatim>\<open>bpf_skc_to_unix_sock\<close> is a parameter.
\<close>

section \<open>Constants and state\<close>

definition UNIX_PATH_MAX :: nat where "UNIX_PATH_MAX = 108"
definition SS_MAX_SEG_SIZE :: u32 where "SS_MAX_SEG_SIZE = 51200"
definition SS_MAX_SEGS_PER_MSG :: u32 where "SS_MAX_SEGS_PER_MSG = 10"
definition SS_PACKET_F_ERR :: u32 where "SS_PACKET_F_ERR = 1"
definition SOCK_PATH_OFFSET :: u64 where "SOCK_PATH_OFFSET = 10"
definition ITER_IOVEC :: u8 where "ITER_IOVEC = 1"

record config =
  cfg_pid :: u32
  cfg_seg_size :: u32
  cfg_segs_per_msg :: u32
  cfg_sock_path :: bytes

text \<open>The default configuration; the loader may replace it. The path is \<^verbatim>\<open>/tmp/sockdump.sock\<close>.\<close>

definition CONFIG :: config where
  "CONFIG = \<lparr>cfg_pid = 0, cfg_seg_size = SS_MAX_SEG_SIZE, cfg_segs_per_msg = SS_MAX_SEGS_PER_MSG,
     cfg_sock_path = [47, 116, 109, 112, 47, 115, 111, 99, 107, 100, 117, 109, 112, 46, 115, 111, 99, 107] @
       replicate 90 0\<rparr>"

record packet =
  pkt_process :: trace_process_info
  pkt_peer_pid :: u32
  pkt_len :: u32
  pkt_flags :: u32
  pkt_comm :: bytes
  pkt_path :: bytes
  pkt_data :: bytes

record usk_state =
  packets :: "packet list"
  usk_events :: "packet list"

record iov_iter =
  it_iter_type :: u8
  it_iov_offset :: u64
  it_kvec :: ptr
  it_nr_segs :: u64

text \<open>The environment: the run, the kernel, its version, the configuration, the cast to a Unix
  socket, and the two structures no other program reads (process identifiers and the iterator
  inside a message header).\<close>

record usk_env =
  ue_ctx :: run_ctx
  ue_kernel :: kernel
  ue_version :: nat
  ue_cfg :: config
  ue_to_unix :: "ptr \<Rightarrow> ptr"
  ue_pid_nr :: "ptr \<Rightarrow> u32"
  ue_msg_iter :: "ptr \<Rightarrow> iov_iter"

definition is_kernel_ge_6_0_0 :: "nat \<Rightarrow> bool" where
  "is_kernel_ge_6_0_0 version \<longleftrightarrow> version \<ge> 6 * 65536"

section \<open>Matching the path\<close>

text \<open>\<^verbatim>\<open>__is_str_prefix(str, prefix, siz)\<close>, from index \<open>i\<close> with \<open>n\<close> iterations left.\<close>

fun is_str_prefix_loop :: "bytes \<Rightarrow> bytes \<Rightarrow> nat \<Rightarrow> nat \<Rightarrow> bool" where
  "is_str_prefix_loop str prefix i 0 = True"
| "is_str_prefix_loop str prefix i (Suc n) =
     (if prefix ! i = 0 then True
      else if str ! i \<noteq> prefix ! i then False
      else is_str_prefix_loop str prefix (Suc i) n)"

definition is_str_prefix :: "bytes \<Rightarrow> bytes \<Rightarrow> nat \<Rightarrow> bool" where
  "is_str_prefix str prefix siz = is_str_prefix_loop str prefix 0 siz"

text \<open>Element \<open>i\<close> of a byte buffer seen as an array of \<^verbatim>\<open>__u64\<close>.\<close>

definition word_of :: "bytes \<Rightarrow> nat \<Rightarrow> u64" where
  "word_of bs i = le_word (take 8 (drop (8 * i) bs))"

text \<open>The loop of \<^verbatim>\<open>__is_path_matched\<close> from word \<open>i\<close> with \<open>n\<close> words left, and what follows it.\<close>

fun is_path_matched_loop :: "bytes \<Rightarrow> bytes \<Rightarrow> nat \<Rightarrow> nat \<Rightarrow> bool" where
  "is_path_matched_loop sock_path path i 0 =
     is_str_prefix (drop (8 * i) path) (drop (8 * i) sock_path) 4"
| "is_path_matched_loop sock_path path i (Suc n) =
     (if word_of sock_path i = 0 then True
      else if word_of path i \<noteq> word_of sock_path i
        then is_str_prefix (drop (8 * i) path) (drop (8 * i) sock_path) 8
      else is_path_matched_loop sock_path path (Suc i) n)"

definition is_path_matched :: "config \<Rightarrow> bytes \<Rightarrow> bool" where
  "is_path_matched cfg path = is_path_matched_loop (cfg_sock_path cfg) path 0 (UNIX_PATH_MAX div 8)"

text \<open>The result and the path buffer after it.\<close>

definition match_path_of_usk :: "usk_env \<Rightarrow> ptr \<Rightarrow> bytes \<Rightarrow> bool \<times> bytes" where
  "match_path_of_usk e usk path =
     (let m = k_mem (ue_kernel e);
          addr = usk_addr (sk_at (ue_kernel e) usk)
      in if load32 m (addr + 4) = 0 then (False, path)
         else (let sock_path = addr + SOCK_PATH_OFFSET;
                   path = (if load8 m sock_path \<noteq> 0 then snd (probe_read_str m path sock_path)
                           else snd (probe_read_str m path (sock_path + 1)))
               in (is_path_matched (ue_cfg e) path, path)))"

definition is_sock_path_matched :: "usk_env \<Rightarrow> ptr \<Rightarrow> bytes \<Rightarrow> bool \<times> bytes" where
  "is_sock_path_matched e usk path = (if usk \<noteq> NULL then match_path_of_usk e usk path else (False, path))"

section \<open>Capturing\<close>

definition collect_data :: "usk_env \<Rightarrow> packet \<Rightarrow> ptr \<Rightarrow> u32 \<Rightarrow> packet" where
  "collect_data e pkt buf len =
     (let m = k_mem (ue_kernel e);
          seg_size = cfg_seg_size (ue_cfg e);
          n = (if len > seg_size then seg_size else len);
          copied = (if n < SS_MAX_SEG_SIZE then load_bytes m (unat n) buf
                    else load_bytes m (unat SS_MAX_SEG_SIZE) buf);
          data = overwrite (pkt_data pkt) copied
      in pkt\<lparr>pkt_flags := 0, pkt_len := len,
             pkt_data := data[unat (if n < SS_MAX_SEG_SIZE then n else SS_MAX_SEG_SIZE - 1) := 0]\<rparr>)"

text \<open>The loop over the segments: \<open>i\<close> the index, \<open>k\<close> iterations left, \<open>n\<close> the configured limit;
  the packet as left and the events sent.\<close>

fun collect_segs ::
  "usk_env \<Rightarrow> u64 \<Rightarrow> u32 \<Rightarrow> nat \<Rightarrow> nat \<Rightarrow> ptr \<Rightarrow> packet \<times> packet list \<Rightarrow> packet \<times> packet list" where
  "collect_segs e nsegs n i 0 iov st = st"
| "collect_segs e nsegs n i (Suc k) iov (pkt, out) =
     (if i \<ge> unat nsegs \<or> i \<ge> unat n then (pkt, out)
      else (let m = k_mem (ue_kernel e);
                pkt = collect_data e pkt (load64 m iov) (ucast (load64 m (iov + 8)))
            in collect_segs e nsegs n (Suc i) k (iov + 16) (pkt, out @ [pkt])))"

definition usk_iter_error :: "usk_env \<Rightarrow> iov_iter \<Rightarrow> bool" where
  "usk_iter_error e it \<longleftrightarrow>
     is_kernel_ge_6_0_0 (ue_version e) \<and> (it_iter_type it \<noteq> ITER_IOVEC \<or> it_iov_offset it \<noteq> 0) \<or>
     it_iov_offset it \<noteq> 0"

definition usk_send_msg :: "usk_env \<Rightarrow> ptr \<Rightarrow> ptr \<Rightarrow> u64 \<Rightarrow> usk_state \<Rightarrow> usk_state" where
  "usk_send_msg e sock msg len s =
     (let pid = ucast (drop_bit 32 (bpf_get_current_pid_tgid (ue_ctx e))) :: u32;
          cfg = ue_cfg e;
          k = ue_kernel e;
          cpu = cur_cpu (ue_ctx e)
      in if cfg_pid cfg \<noteq> 0 \<and> cfg_pid cfg \<noteq> pid then s
         else
           (case arr_lookup (packets s) cpu of
              None \<Rightarrow> s
            | Some pkt \<Rightarrow>
                (let put = (\<lambda>p. s\<lparr>packets := snd (arr_update (packets s) cpu p BPF_ANY)\<rparr>);
                     usk = ue_to_unix e (so_sk (socket_at k sock));
                     peer = (if usk \<noteq> NULL then ue_to_unix e (usk_peer (sk_at k usk)) else NULL);
                     (m1, path) = is_sock_path_matched e usk (pkt_path pkt);
                     (matched, path) = (if m1 then (True, path) else is_sock_path_matched e peer path);
                     pkt = pkt\<lparr>pkt_path := path\<rparr>
                 in if \<not> matched then put pkt
                    else
                      (let pkt = pkt\<lparr>pkt_process := fill_process_info (ue_ctx e),
                             pkt_peer_pid := ue_pid_nr e (sk_peer_pid (sk_at k (so_sk (socket_at k sock))))\<rparr>;
                           it = ue_msg_iter e msg
                       in if usk_iter_error e it then
                            (let pkt = pkt\<lparr>pkt_len := ucast len, pkt_flags := SS_PACKET_F_ERR\<rparr>
                             in (put pkt)\<lparr>usk_events := usk_events s @ [pkt]\<rparr>)
                          else
                            (let n = (if cfg_segs_per_msg cfg > SS_MAX_SEGS_PER_MSG then SS_MAX_SEGS_PER_MSG
                                      else cfg_segs_per_msg cfg);
                                 (pkt, sent) = collect_segs e (it_nr_segs it) n 0
                                   (unat SS_MAX_SEGS_PER_MSG) (it_kvec it) (pkt, [])
                             in (put pkt)\<lparr>usk_events := usk_events s @ sent\<rparr>)))))"

text \<open>The two kprobe entries take the arguments from the registers \<^verbatim>\<open>di\<close>, \<^verbatim>\<open>si\<close> and \<^verbatim>\<open>dx\<close>, the two
  fentry entries from the context; all four are the routine above.\<close>

definition kprobe_unix_sendmsg :: "usk_env \<Rightarrow> (string \<Rightarrow> u64) \<Rightarrow> usk_state \<Rightarrow> usk_state" where
  "kprobe_unix_sendmsg e regs s = usk_send_msg e (regs ''di'') (regs ''si'') (regs ''dx'') s"

definition fentry_unix_sendmsg :: "usk_env \<Rightarrow> (nat \<Rightarrow> u64) \<Rightarrow> usk_state \<Rightarrow> usk_state" where
  "fentry_unix_sendmsg e ctx s = usk_send_msg e (ctx 0) (ctx 1) (ctx 2) s"

section \<open>The match is a prefix test\<close>

lemma is_str_prefix_loop_take:
  assumes "prefix = s @ replicate z 0" "0 \<notin> set s" "i \<le> length s" "i + n \<le> length prefix"
  shows "is_str_prefix_loop str prefix i n \<longleftrightarrow>
    (\<forall>j. i \<le> j \<and> j < i + n \<and> j < length s \<longrightarrow> str ! j = s ! j)"
  using assms(3,4)
proof (induction n arbitrary: i)
  case (Suc n)
  show ?case
  proof (cases "i < length s")
    case True
    then have "prefix ! i = s ! i" "s ! i \<noteq> 0" using assms(1,2) by (auto simp: nth_append in_set_conv_nth)
    moreover have "(\<forall>j. i \<le> j \<and> j < i + Suc n \<and> j < length s \<longrightarrow> str ! j = s ! j) \<longleftrightarrow>
        str ! i = s ! i \<and> (\<forall>j. Suc i \<le> j \<and> j < Suc i + n \<and> j < length s \<longrightarrow> str ! j = s ! j)"
    proof -
      have "i \<le> j \<and> j < i + Suc n \<longleftrightarrow> j = i \<or> Suc i \<le> j \<and> j < Suc i + n" for j by auto
      then show ?thesis using True by (simp only: flip: conj_assoc) blast
    qed
    ultimately show ?thesis using Suc.IH [of "Suc i"] True Suc.prems by simp
  next
    case False
    then have "prefix ! i = 0" using assms(1) Suc.prems by (simp add: nth_append)
    then show ?thesis using False by auto
  qed
qed auto

lemma is_str_prefix_iff:
  assumes "prefix = s @ replicate z 0" "0 \<notin> set s" "n \<le> length prefix"
  shows "is_str_prefix str prefix n \<longleftrightarrow> (\<forall>j. j < n \<and> j < length s \<longrightarrow> str ! j = s ! j)"
  using is_str_prefix_loop_take [OF assms(1,2), of 0 n str] assms(3) by (simp add: is_str_prefix_def)

lemma le_word_inject8:
  assumes "length xs = 8" "length ys = 8"
  shows "le_word xs = (le_word ys :: u64) \<longleftrightarrow> xs = ys"
proof
  assume "le_word xs = (le_word ys :: u64)"
  then have "to_le 8 (le_word xs :: u64) = to_le 8 (le_word ys :: u64)" by simp
  then show "xs = ys"
    using to_le_le_word [where 'a = 64 and bs = xs] to_le_le_word [where 'a = 64 and bs = ys] assms by simp
qed simp

lemma word_of_eq_iff:
  assumes "8 * i + 8 \<le> length xs" "8 * i + 8 \<le> length ys"
  shows "word_of xs i = word_of ys i \<longleftrightarrow> (\<forall>j < 8. xs ! (8 * i + j) = ys ! (8 * i + j))"
proof -
  have "word_of xs i = word_of ys i \<longleftrightarrow> take 8 (drop (8 * i) xs) = take 8 (drop (8 * i) ys)"
    using assms by (simp add: word_of_def le_word_inject8)
  also have "\<dots> \<longleftrightarrow> (\<forall>j < 8. xs ! (8 * i + j) = ys ! (8 * i + j))"
    using assms by (subst list_eq_iff_nth_eq) simp
  finally show ?thesis .
qed

lemma word_of_zero_iff:
  assumes "8 * i + 8 \<le> length xs"
  shows "word_of xs i = 0 \<longleftrightarrow> (\<forall>j < 8. xs ! (8 * i + j) = 0)"
proof -
  have "le_word (replicate 8 0) = (0 :: u64)"
    by (simp add: numeral_eq_Suc)
  then have "word_of (replicate (length xs) 0) i = 0"
    using assms by (simp add: word_of_def)
  moreover have "word_of xs i = word_of (replicate (length xs) 0) i \<longleftrightarrow>
      (\<forall>j < 8. xs ! (8 * i + j) = replicate (length xs) 0 ! (8 * i + j))"
    using assms by (intro word_of_eq_iff) simp_all
  ultimately show ?thesis using assms by simp
qed

lemma is_path_matched_loop_iff:
  assumes sp: "sock_path = s @ replicate z 0" "0 \<notin> set s" "length sock_path = 108" and "length path = 108"
    and "i + n = 13"
  shows "is_path_matched_loop sock_path path i n \<longleftrightarrow>
    (\<forall>j. 8 * i \<le> j \<and> j < length s \<longrightarrow> path ! j = s ! j)"
  using assms(5)
proof (induction n arbitrary: i)
  case 0
  have drops: "drop (8 * i) sock_path = drop (8 * i) s @ replicate (z - (8 * i - length s)) 0" "0 \<notin> set (drop (8 * i) s)"
    using sp by (auto dest: in_set_dropD)
  have "is_str_prefix (drop (8 * i) path) (drop (8 * i) sock_path) 4 \<longleftrightarrow>
      (\<forall>j. j < 4 \<and> j < length s - 8 * i \<longrightarrow> path ! (8 * i + j) = s ! (8 * i + j))"
  proof -
    have "is_str_prefix (drop (8 * i) path) (drop (8 * i) sock_path) 4 \<longleftrightarrow>
        (\<forall>j. j < 4 \<and> j < length (drop (8 * i) s) \<longrightarrow> drop (8 * i) path ! j = drop (8 * i) s ! j)"
      by (rule is_str_prefix_iff [OF drops]) (use 0 sp in simp)
    moreover have "j < length s - 8 * i \<Longrightarrow> drop (8 * i) s ! j = s ! (8 * i + j)" for j by simp
    moreover have "drop (8 * i) path ! j = path ! (8 * i + j)" for j using 0 assms(4) by simp
    ultimately show ?thesis by (simp only: length_drop cong: imp_cong conj_cong)
  qed
  also have "\<dots> \<longleftrightarrow> (\<forall>j. 8 * i \<le> j \<and> j < length s \<longrightarrow> path ! j = s ! j)"
  proof (intro iffI allI impI)
    fix j assume h: "\<forall>j. j < 4 \<and> j < length s - 8 * i \<longrightarrow> path ! (8 * i + j) = s ! (8 * i + j)"
      and j: "8 * i \<le> j \<and> j < length s"
    have "length s \<le> 108" using sp by simp
    then have "j - 8 * i < 4 \<and> j - 8 * i < length s - 8 * i" using j 0 by linarith
    then show "path ! j = s ! j" using h [rule_format, of "j - 8 * i"] j by simp
  qed auto
  finally show ?case by simp
next
  case (Suc n)
  have len: "8 * i + 8 \<le> length sock_path" "8 * i + 8 \<le> length path" using Suc.prems sp assms(4) by simp_all
  have sock: "sock_path ! j = (if j < length s then s ! j else 0)" if "j < 108" for j
    using sp that by (auto simp: nth_append)
  show ?case
  proof (cases "8 * i < length s")
    case False
    then have "word_of sock_path i = 0"
      using len sp sock by (simp add: word_of_zero_iff)
    then show ?thesis using False by auto
  next
    case True
    then have "sock_path ! (8 * i + 0) \<noteq> 0" using sock sp by (auto simp: in_set_conv_nth)
    then have nz: "word_of sock_path i \<noteq> 0" using word_of_zero_iff [OF len(1)] by (metis zero_less_numeral)
    show ?thesis
    proof (cases "word_of path i = word_of sock_path i")
      case eq: True
      then have "path ! (8 * i + j) = sock_path ! (8 * i + j)" if "j < 8" for j
        using word_of_eq_iff [OF len(2,1)] that by blast
      then have same8: "path ! (8 * i + m) = s ! (8 * i + m)" if "m < 8" "8 * i + m < length s" for m
        using that sock [of "8 * i + m"] sp by simp
      have same: "path ! j = s ! j" if j: "8 * i \<le> j" "j < 8 * Suc i" "j < length s" for j
      proof -
        have "8 * i + (j - 8 * i) = j" using j(1) by simp
        with same8 [of "j - 8 * i"] j show ?thesis by simp
      qed
      have "(\<forall>j. 8 * Suc i \<le> j \<and> j < length s \<longrightarrow> path ! j = s ! j) \<longleftrightarrow>
          (\<forall>j. 8 * i \<le> j \<and> j < length s \<longrightarrow> path ! j = s ! j)"
      proof (intro iffI allI impI)
        fix j assume h: "\<forall>j. 8 * Suc i \<le> j \<and> j < length s \<longrightarrow> path ! j = s ! j"
          and j: "8 * i \<le> j \<and> j < length s"
        show "path ! j = s ! j"
          by (cases "j < 8 * Suc i") (use same h j in simp_all)
      qed simp
      with eq nz show ?thesis using Suc.IH [of "Suc i"] Suc.prems by simp
    next
      case ne: False
      have drops: "drop (8 * i) sock_path = drop (8 * i) s @ replicate z 0" "0 \<notin> set (drop (8 * i) s)"
        using sp True by (auto dest: in_set_dropD)
      have pre: "is_str_prefix (drop (8 * i) path) (drop (8 * i) sock_path) 8 \<longleftrightarrow>
          (\<forall>j. j < 8 \<and> j < length s - 8 * i \<longrightarrow> path ! (8 * i + j) = s ! (8 * i + j))"
      proof -
        have "is_str_prefix (drop (8 * i) path) (drop (8 * i) sock_path) 8 \<longleftrightarrow>
            (\<forall>j. j < 8 \<and> j < length (drop (8 * i) s) \<longrightarrow> drop (8 * i) path ! j = drop (8 * i) s ! j)"
          by (rule is_str_prefix_iff [OF drops]) (use len in simp)
        moreover have "j < length s - 8 * i \<Longrightarrow> drop (8 * i) s ! j = s ! (8 * i + j)" for j by simp
        moreover have "drop (8 * i) path ! j = path ! (8 * i + j)" for j using len by simp
        ultimately show ?thesis by (simp only: length_drop cong: imp_cong conj_cong)
      qed
      obtain k where k: "k < 8" "path ! (8 * i + k) \<noteq> sock_path ! (8 * i + k)"
        using ne word_of_eq_iff [OF len(2,1)] by blast
      have "(\<forall>j. j < 8 \<and> j < length s - 8 * i \<longrightarrow> path ! (8 * i + j) = s ! (8 * i + j)) \<longleftrightarrow>
          (\<forall>j. 8 * i \<le> j \<and> j < length s \<longrightarrow> path ! j = s ! j)"
      proof (intro iffI allI impI)
        fix j assume h: "\<forall>j. j < 8 \<and> j < length s - 8 * i \<longrightarrow> path ! (8 * i + j) = s ! (8 * i + j)"
          and j: "8 * i \<le> j \<and> j < length s"
        have klt: "8 * i + k < 108" using k(1) Suc.prems by simp
        have ks: "length s - 8 * i \<le> k"
        proof (rule ccontr)
          assume "\<not> length s - 8 * i \<le> k"
          then have kl: "k < length s - 8 * i" by simp
          with h [rule_format, of k] k(1) have "path ! (8 * i + k) = s ! (8 * i + k)" by simp
          moreover have "8 * i + k < length s" using kl by simp
          then have "sock_path ! (8 * i + k) = s ! (8 * i + k)" using sock [OF klt] by simp
          ultimately show False using k(2) by simp
        qed
        have b: "j - 8 * i < length s - 8 * i" using j by linarith
        have "8 * i + (j - 8 * i) = j" "j - 8 * i < 8" using j b ks k(1) by linarith+
        with b h [rule_format, of "j - 8 * i"] show "path ! j = s ! j" by simp
      qed auto
      with ne nz pre show ?thesis by simp
    qed
  qed
qed

end
