(* ===== verification/Unix_Claims.thy ===== *)
theory Unix_Claims
  imports Unix_Sock
begin

text \<open>
  The properties of the Unix socket capture: the word-wise comparison is a prefix test, the
  copy of a segment stays in its buffer and is terminated, and a message gives one event per
  segment up to the limits.
\<close>

section \<open>Paths\<close>

lemma is_path_matched_iff:
  assumes "cfg_sock_path cfg = s @ replicate (108 - length s) 0" "0 \<notin> set s" "length s \<le> 108"
    and "length path = 108"
  shows "is_path_matched cfg path \<longleftrightarrow> take (length s) path = s"
proof -
  have "is_path_matched cfg path \<longleftrightarrow> (\<forall>j. j < length s \<longrightarrow> path ! j = s ! j)"
    using is_path_matched_loop_iff [OF assms(1,2) _ assms(4), of 0 13] assms(1,3)
    by (simp add: is_path_matched_def UNIX_PATH_MAX_def)
  also have "\<dots> \<longleftrightarrow> take (length s) path = s"
    using assms(3,4) by (subst list_eq_iff_nth_eq) auto
  finally show ?thesis .
qed

section \<open>Segments\<close>

lemma length_collect_data:
  assumes "length (pkt_data pkt) = 51200"
  shows "length (pkt_data (collect_data e pkt buf len)) = 51200"
proof -
  define n where "n = (if len > cfg_seg_size (ue_cfg e) then cfg_seg_size (ue_cfg e) else len)"
  have "unat (if n < SS_MAX_SEG_SIZE then n else SS_MAX_SEG_SIZE) \<le> 51200"
    by (simp add: SS_MAX_SEG_SIZE_def word_less_nat_alt)
  then have "length (if n < SS_MAX_SEG_SIZE then load_bytes (k_mem (ue_kernel e)) (unat n) buf
      else load_bytes (k_mem (ue_kernel e)) (unat SS_MAX_SEG_SIZE) buf) \<le> length (pkt_data pkt)"
    using assms by (simp split: if_splits)
  then show ?thesis
    using assms
    by (cases "n < SS_MAX_SEG_SIZE") (simp_all add: collect_data_def Let_def flip: n_def)
qed

lemma collect_data_bounds:
  assumes "length (pkt_data pkt) = 51200"
    and "mem_at (k_mem (ue_kernel e)) buf seg" "length seg = unat len"
    and "n = min (length seg) (unat (cfg_seg_size (ue_cfg e)))"
  shows "length (pkt_data (collect_data e pkt buf len)) = 51200 \<and>
    take (min n 51199) (pkt_data (collect_data e pkt buf len)) = take (min n 51199) seg \<and>
    pkt_data (collect_data e pkt buf len) ! min n 51199 = 0 \<and>
    pkt_len (collect_data e pkt buf len) = len"
proof -
  let ?seg = "cfg_seg_size (ue_cfg e)"
  define w where "w = (if len > ?seg then ?seg else len)"
  have w: "unat w = n" using assms(3,4) by (auto simp: w_def word_less_nat_alt min_def)
  define c where "c = min n 51200"
  have cl: "c \<le> length seg" using assms(4) by (simp add: c_def)
  have "mem_at (k_mem (ue_kernel e)) buf (take c seg)"
    using assms(2) by (auto simp: mem_at_def)
  then have ld: "load_bytes (k_mem (ue_kernel e)) c buf = take c seg"
    using cl by (intro load_bytes_mem_at) simp_all
  have lt: "w < SS_MAX_SEG_SIZE \<longleftrightarrow> n < 51200"
    by (simp add: word_less_nat_alt SS_MAX_SEG_SIZE_def w)
  have data: "pkt_data (collect_data e pkt buf len) = (overwrite (pkt_data pkt) (take c seg))[min n 51199 := 0]"
  proof (cases "n < 51200")
    case True
    then have "c = n" "min n 51199 = n" by (simp_all add: c_def)
    then show ?thesis
      using True lt ld w by (simp add: collect_data_def Let_def flip: w_def)
  next
    case False
    then have "c = 51200" "min n 51199 = 51199" by (simp_all add: c_def)
    then show ?thesis
      using False lt ld by (simp add: collect_data_def Let_def SS_MAX_SEG_SIZE_def flip: w_def)
  qed
  have len: "length (overwrite (pkt_data pkt) (take c seg)) = 51200"
    using assms(1) cl by (simp add: c_def)
  have "take (min n 51199) (overwrite (pkt_data pkt) (take c seg)) = take (min n 51199) seg"
    using cl by (simp add: overwrite_def c_def min_def)
  then show ?thesis
    unfolding data using len by (simp add: collect_data_def Let_def)
qed

section \<open>Properties\<close>

text \<open>C9: Comparing the path eight bytes at a time, with a byte-wise comparison of the first words that
  differ and of the last four bytes, is the prefix test: for a configured path \<open>s\<close> padded with
  NULs to the size of the buffer, it holds exactly of the paths that start with \<open>s\<close>.\<close>

theorem is_path_matched_prefix:
  assumes "cfg_sock_path cfg = s @ replicate (108 - length s) 0" "0 \<notin> set s" "length s \<le> 108"
    and "length path = 108"
  shows "is_path_matched cfg path \<longleftrightarrow> take (length s) path = s"
  by (rule is_path_matched_iff [OF assms])

theorem is_path_matched_prefix_witness:
  "\<not> is_path_matched CONFIG (47 # replicate 107 0)"
proof -
  let ?s = "[47, 116, 109, 112, 47, 115, 111, 99, 107, 100, 117, 109, 112, 46, 115, 111, 99, 107] :: bytes"
  have c: "cfg_sock_path CONFIG = ?s @ replicate (108 - length ?s) 0" by (simp add: CONFIG_def)
  have "0 \<notin> set ?s" by simp
  note match = is_path_matched_prefix [OF c this, of "47 # replicate 107 0"]
  have "take (length ?s) (47 # replicate 107 0) \<noteq> ?s"
  proof
    assume eq: "take (length ?s) (47 # replicate 107 0) = ?s"
    have "take (length ?s) (47 # replicate 107 0 :: bytes) ! 1 = 0" by simp
    moreover have "?s ! 1 = 116" by simp
    ultimately show False unfolding eq by simp
  qed
  then show ?thesis using match by simp
qed

text \<open>C11: Copying a segment never writes outside the 51200-byte buffer of the packet; the copy ends in a
  NUL inside it, the bytes before the NUL are the first bytes of the segment (as many as the
  configured size allows), and the recorded length is the full length of the segment.\<close>

theorem collect_data_bounded:
  assumes "length (pkt_data pkt) = 51200"
    and "mem_at (k_mem (ue_kernel e)) buf seg" "length seg = unat len"
    and "n = min (length seg) (unat (cfg_seg_size (ue_cfg e)))"
  shows "length (pkt_data (collect_data e pkt buf len)) = 51200 \<and>
    take (min n 51199) (pkt_data (collect_data e pkt buf len)) = take (min n 51199) seg \<and>
    pkt_data (collect_data e pkt buf len) ! min n 51199 = 0 \<and>
    pkt_len (collect_data e pkt buf len) = len"
  by (rule collect_data_bounds [OF assms])

definition usk_demo :: usk_env where
  "usk_demo = \<lparr>ue_ctx = \<lparr>cur_tgid = 7, cur_pid = 8, cur_comm = [], cur_cpu = 0, ktime = of_nat\<rparr>,
     ue_kernel = no_kernel\<lparr>k_mem := (\<lambda>a. if a < 4096 then None else Some 65)\<rparr>, ue_version = 6 * 65536,
     ue_cfg = CONFIG, ue_to_unix = (\<lambda>p. p), ue_pid_nr = (\<lambda>_. 0),
     ue_msg_iter = (\<lambda>_. \<lparr>it_iter_type = 1, it_iov_offset = 0, it_kvec = 4096, it_nr_segs = 2\<rparr>)\<rparr>"

definition demo_packet :: packet where
  "demo_packet = \<lparr>pkt_process = \<lparr>pi_name = [], pi_pid = 0, pi_tgid = 0\<rparr>, pkt_peer_pid = 0, pkt_len = 0,
     pkt_flags = 0, pkt_comm = [], pkt_path = replicate 108 0, pkt_data = replicate 51200 0\<rparr>"

lemma demo_packet_data: "pkt_data demo_packet = replicate 51200 0"
  by (simp add: demo_packet_def)

theorem collect_data_bounded_witness:
  "take 3 (pkt_data (collect_data usk_demo demo_packet 4096 3)) = [65, 65, 65] \<and>
   pkt_data (collect_data usk_demo demo_packet 4096 3) ! 3 = 0"
proof -
  have "mem_at (k_mem (ue_kernel usk_demo)) 4096 [65, 65, 65]"
    by (simp add: usk_demo_def)
  moreover have "cfg_seg_size (ue_cfg usk_demo) = 51200"
    by (simp add: usk_demo_def CONFIG_def SS_MAX_SEG_SIZE_def)
  ultimately have mem_seg: "mem_at (k_mem (ue_kernel usk_demo)) 4096 [65, 65, 65]"
    "cfg_seg_size (ue_cfg usk_demo) = 51200" by simp_all
  have len3: "length ([65, 65, 65] :: bytes) = unat (3 :: u32)" by code_simp
  have "3 = min (length ([65, 65, 65] :: bytes)) (unat (cfg_seg_size (ue_cfg usk_demo)))"
    using mem_seg(2) by simp
  from collect_data_bounded [OF _ mem_seg(1) len3 this, of demo_packet] show ?thesis
    by (simp add: demo_packet_data)
qed

text \<open>A message is ignored, with no event sent, when a process is configured and it is another one,
  when the CPU has no packet, or when neither end of the socket has a path that matches; then
  only the path buffer of the packet may change.\<close>

theorem usk_send_msg_ignored:
  assumes "cfg_pid (ue_cfg e) \<noteq> 0 \<and> cfg_pid (ue_cfg e) \<noteq> cur_tgid (ue_ctx e) \<or>
    arr_lookup (packets s) (cur_cpu (ue_ctx e)) = None \<or>
    (\<forall>usk path. fst (is_sock_path_matched e usk path) = False)"
  shows "usk_events (usk_send_msg e sock msg len s) = usk_events s \<and>
    map pkt_data (packets (usk_send_msg e sock msg len s)) = map pkt_data (packets s)"
proof -
  have pid: "(ucast (drop_bit 32 (bpf_get_current_pid_tgid c)) :: u32) = cur_tgid c" for c
    unfolding pid_tgid_high by (rule bit_word_eqI) (simp add: bit_simps)
  have upd: "map pkt_data (snd (arr_update ps i p BPF_ANY)) = map pkt_data ps"
    if "arr_lookup ps i = Some q" "pkt_data p = pkt_data q" for ps i p q
    using that by (auto simp: arr_lookup_def arr_update_def map_update nth_map list_update_id split: if_splits
        intro: nth_equalityI simp: nth_list_update)
  have m: "is_sock_path_matched e usk path = (False, snd (is_sock_path_matched e usk path))"
    if "\<forall>usk path. fst (is_sock_path_matched e usk path) = False" for usk path
    using that by (metis prod.collapse)
  show ?thesis
    using assms
    by (auto simp: usk_send_msg_def Let_def pid upd m case_prod_beta split: option.split)
qed

theorem usk_send_msg_ignored_witness:
  "usk_events (usk_send_msg (usk_demo\<lparr>ue_cfg := CONFIG\<lparr>cfg_pid := 9\<rparr>\<rparr>) 1 2 3 \<lparr>packets = [demo_packet], usk_events = []\<rparr>) = []"
  using usk_send_msg_ignored [of "usk_demo\<lparr>ue_cfg := CONFIG\<lparr>cfg_pid := 9\<rparr>\<rparr>"
      "\<lparr>packets = [demo_packet], usk_events = []\<rparr>" 1 2 3]
  by (simp add: usk_demo_def)

end
