(* ===== verification/Unix_Run.thy ===== *)
theory Unix_Run
  imports Unix_Claims Runs
begin

text \<open>
  The Unix socket capture as a state machine over its four entries, on all CPUs: the packets keep
  the sizes of their fields, and the packet of a CPU is only touched by runs on that CPU.
\<close>

section \<open>Steps\<close>

datatype usk_call = Unix_Kprobe "string \<Rightarrow> u64" | Unix_Fentry "nat \<Rightarrow> u64"

fun usk_run :: "usk_env \<Rightarrow> usk_call \<Rightarrow> usk_state \<Rightarrow> usk_state" where
  "usk_run e (Unix_Kprobe regs) = kprobe_unix_sendmsg e regs"
| "usk_run e (Unix_Fentry ctx) = fentry_unix_sendmsg e ctx"

definition zero_packet :: packet where
  "zero_packet = \<lparr>pkt_process = \<lparr>pi_name = replicate MAX_PROCESS_NAME 0, pi_pid = 0, pi_tgid = 0\<rparr>, pkt_peer_pid = 0,
     pkt_len = 0, pkt_flags = 0, pkt_comm = replicate MAX_PROCESS_NAME 0, pkt_path = replicate UNIX_PATH_MAX 0,
     pkt_data = replicate (unat SS_MAX_SEG_SIZE) 0\<rparr>"

definition usk_init :: usk_state where
  "usk_init = \<lparr>packets = replicate 1024 zero_packet, usk_events = []\<rparr>"

inductive usk_reachable :: "usk_state \<Rightarrow> bool" where
  start: "usk_reachable usk_init"
| run: "usk_reachable s \<Longrightarrow> usk_reachable (usk_run e c s)"

section \<open>The invariant\<close>

definition packet_ok :: "packet \<Rightarrow> bool" where
  "packet_ok p \<longleftrightarrow> length (pkt_data p) = 51200 \<and> length (pkt_path p) = 108 \<and> length (pi_name (pkt_process p)) = 64 \<and>
     pkt_flags p \<in> {0, SS_PACKET_F_ERR}"

definition usk_inv :: "usk_state \<Rightarrow> bool" where
  "usk_inv s \<longleftrightarrow> length (packets s) = 1024 \<and> (\<forall>p \<in> set (packets s). packet_ok p) \<and> (\<forall>p \<in> set (usk_events s). packet_ok p)"

lemma usk_inv_init: "usk_inv usk_init"
  by (simp add: usk_inv_def usk_init_def packet_ok_def zero_packet_def UNIX_PATH_MAX_def SS_MAX_SEG_SIZE_def
      MAX_PROCESS_NAME_def)

lemma collect_data_fields:
  "pkt_path (collect_data e p buf len) = pkt_path p" "pkt_process (collect_data e p buf len) = pkt_process p"
  "pkt_flags (collect_data e p buf len) = 0"
  by (simp_all add: collect_data_def Let_def)

lemma packet_ok_collect: "packet_ok p \<Longrightarrow> packet_ok (collect_data e p buf len)"
  unfolding packet_ok_def collect_data_fields by (intro conjI length_collect_data; simp)

lemma packets_ok_collect_segs:
  assumes "packet_ok p" "\<forall>q \<in> set out. packet_ok q"
  shows "packet_ok (fst (collect_segs e nsegs n i k iov (p, out))) \<and>
    (\<forall>q \<in> set (snd (collect_segs e nsegs n i k iov (p, out))). packet_ok q)"
  using assms
proof (induction k arbitrary: i iov p out)
  case (Suc k)
  define p' where "p' = collect_data e p (load64 (k_mem (ue_kernel e)) iov) (ucast (load64 (k_mem (ue_kernel e)) (iov + 8)))"
  have ok: "packet_ok p'" "\<forall>q \<in> set (out @ [p']). packet_ok q"
    using packet_ok_collect [OF Suc.prems(1)] Suc.prems(2) by (auto simp: p'_def)
  have "collect_segs e nsegs n i (Suc k) iov (p, out) =
      (if i \<ge> unat nsegs \<or> i \<ge> unat n then (p, out) else collect_segs e nsegs n (Suc i) k (iov + 16) (p', out @ [p']))"
    unfolding p'_def by (simp only: collect_segs.simps Let_def)
  then show ?case using Suc.prems Suc.IH [OF ok] by (simp del: collect_segs.simps)
qed simp

lemma length_match_path [simp]: "length (snd (is_sock_path_matched e usk path)) = length path"
  by (simp add: is_sock_path_matched_def match_path_of_usk_def Let_def)

text \<open>A run changes at most the packet of its CPU, and sends well-formed packets.\<close>

definition usk_step :: "u32 \<Rightarrow> usk_state \<Rightarrow> usk_state \<Rightarrow> bool" where
  "usk_step cpu s s' \<longleftrightarrow> s' = s \<or>
     (\<exists>p sent. unat cpu < length (packets s) \<and> packet_ok p \<and> (\<forall>q \<in> set sent. packet_ok q) \<and>
       s' = s\<lparr>packets := (packets s)[unat cpu := p], usk_events := usk_events s @ sent\<rparr>)"

lemma usk_stepI:
  "unat cpu < length (packets s) \<Longrightarrow> packet_ok p \<Longrightarrow> \<forall>q \<in> set sent. packet_ok q \<Longrightarrow>
   usk_step cpu s (s\<lparr>packets := (packets s)[unat cpu := p], usk_events := usk_events s @ sent\<rparr>)"
  unfolding usk_step_def by blast

lemma length_process_name [simp]: "length (pi_name (fill_process_info c)) = 64"
  by (simp add: fill_process_info_def bpf_get_current_comm_def Let_def MAX_PROCESS_NAME_def)

lemma usk_send_step:
  assumes "usk_inv s"
  shows "usk_step (cur_cpu (ue_ctx e)) s (usk_send_msg e sock msg len s)"
proof (cases "arr_lookup (packets s) (cur_cpu (ue_ctx e))")
  case None
  then show ?thesis by (simp add: usk_send_msg_def Let_def usk_step_def)
next
  case (Some pkt)
  let ?cpu = "cur_cpu (ue_ctx e)"
  have cpu: "unat ?cpu < length (packets s)" and "pkt \<in> set (packets s)"
    using Some by (auto simp: arr_lookup_def split: if_splits)
  then have pkt: "packet_ok pkt" using assms by (simp add: usk_inv_def)
  have put: "snd (arr_update (packets s) ?cpu p BPF_ANY) = (packets s)[unat ?cpu := p]" for p
    using cpu by (simp add: arr_update_def)
  define segs where "segs p = collect_segs e (it_nr_segs (ue_msg_iter e msg))
      (if cfg_segs_per_msg (ue_cfg e) > SS_MAX_SEGS_PER_MSG then SS_MAX_SEGS_PER_MSG else cfg_segs_per_msg (ue_cfg e)) 0
      (unat SS_MAX_SEGS_PER_MSG) (it_kvec (ue_msg_iter e msg)) (p, [])" for p
  define path where "path = (let (m1, path) = is_sock_path_matched e (ue_to_unix e (so_sk (socket_at (ue_kernel e) sock))) (pkt_path pkt)
    in if m1 then (True, path) else is_sock_path_matched e
      (if ue_to_unix e (so_sk (socket_at (ue_kernel e) sock)) \<noteq> NULL
       then ue_to_unix e (usk_peer (sk_at (ue_kernel e) (ue_to_unix e (so_sk (socket_at (ue_kernel e) sock))))) else NULL) path)"
  have plen: "length (snd path) = 108"
    using pkt by (auto simp: path_def packet_ok_def case_prod_beta)
  define p0 where "p0 = pkt\<lparr>pkt_path := snd path\<rparr>"
  have p0: "packet_ok p0" using pkt plen by (simp add: p0_def packet_ok_def)
  define p1 where "p1 = p0\<lparr>pkt_process := fill_process_info (ue_ctx e),
      pkt_peer_pid := ue_pid_nr e (sk_peer_pid (sk_at (ue_kernel e) (so_sk (socket_at (ue_kernel e) sock))))\<rparr>"
  have p1: "packet_ok p1" using p0 by (simp add: p1_def packet_ok_def)
  define p2 where "p2 = p1\<lparr>pkt_len := ucast len, pkt_flags := SS_PACKET_F_ERR\<rparr>"
  have p2: "packet_ok p2" using p1 by (simp add: p2_def packet_ok_def)
  have run: "usk_send_msg e sock msg len s =
      (if cfg_pid (ue_cfg e) \<noteq> 0 \<and> cfg_pid (ue_cfg e) \<noteq> ucast (drop_bit 32 (bpf_get_current_pid_tgid (ue_ctx e))) then s
       else if \<not> fst path then s\<lparr>packets := (packets s)[unat ?cpu := p0]\<rparr>
       else if usk_iter_error e (ue_msg_iter e msg)
       then s\<lparr>packets := (packets s)[unat ?cpu := p2], usk_events := usk_events s @ [p2]\<rparr>
       else s\<lparr>packets := (packets s)[unat ?cpu := fst (segs p1)], usk_events := usk_events s @ snd (segs p1)\<rparr>)"
    unfolding usk_send_msg_def Let_def Some option.case put
    by (simp add: path_def p0_def p1_def p2_def segs_def case_prod_beta)
  have segs: "packet_ok (fst (segs p1))" "\<forall>q \<in> set (snd (segs p1)). packet_ok q"
    using packets_ok_collect_segs [OF p1, of "[]"] by (simp_all add: segs_def)
  have "s\<lparr>packets := (packets s)[unat ?cpu := p0]\<rparr> =
      s\<lparr>packets := (packets s)[unat ?cpu := p0], usk_events := usk_events s @ []\<rparr>" by simp
  then have "usk_step ?cpu s (s\<lparr>packets := (packets s)[unat ?cpu := p0]\<rparr>)"
    using usk_stepI [OF cpu p0, of "[]"] by simp
  moreover have "usk_step ?cpu s s" by (simp add: usk_step_def)
  ultimately show ?thesis
    unfolding run using usk_stepI [OF cpu p2, of "[p2]"] usk_stepI [OF cpu segs] p2 by simp
qed

lemma usk_run_step: "usk_inv s \<Longrightarrow> usk_step (cur_cpu (ue_ctx e)) s (usk_run e c s)"
  by (cases c) (simp_all add: kprobe_unix_sendmsg_def fentry_unix_sendmsg_def usk_send_step)

lemma usk_step_inv: "usk_step cpu s s' \<Longrightarrow> usk_inv s \<Longrightarrow> usk_inv s'"
  unfolding usk_step_def usk_inv_def by (auto dest!: subsetD [OF set_update_subset_insert])

lemma usk_step_other:
  assumes "usk_step cpu s s'" "cpu \<noteq> k"
  shows "arr_lookup (packets s') k = arr_lookup (packets s) k"
proof -
  have "unat cpu \<noteq> unat k" using assms(2) by (simp add: word_unat_eq_iff)
  with assms(1) show ?thesis by (auto simp: usk_step_def arr_lookup_def)
qed

interpretation usk: owned_events usk_run usk_inv "\<lambda>e. cur_cpu (ue_ctx e)" "\<lambda>s. arr_lookup (packets s)"
  by unfold_locales (auto intro: usk_step_inv usk_run_step usk_step_other [OF usk_run_step])

lemma usk_reachable_inv_holds: "usk_reachable s \<Longrightarrow> usk_inv s"
  by (induction rule: usk_reachable.induct) (auto intro: usk_inv_init usk.run_inv)

section \<open>Properties\<close>

text \<open>C10: In every reachable state, CPUs 0 to 1023 each have a packet with a data buffer of 51200 bytes and a
  path buffer of 108, and every packet that was sent has them too, with flags that are 0 or the error
  flag. Whatever runs on other CPUs, the packet of a CPU stays as it is. For a CPU from 1024 on the
  array has no packet, and a message sent there changes and sends nothing.\<close>

theorem usk_packets_keep_shape:
  assumes "usk_reachable s" and "list_all (\<lambda>(e, c). cur_cpu (ue_ctx e) \<noteq> cpu) calls"
    and "s' = runs usk_run calls s"
  shows "arr_lookup (packets s') cpu = arr_lookup (packets s) cpu \<and>
    (unat cpu < 1024 \<longrightarrow> (\<exists>p. arr_lookup (packets s) cpu = Some p \<and> packet_ok p)) \<and>
    (1024 \<le> unat cpu \<longrightarrow> arr_lookup (packets s) cpu = None \<and>
       (\<forall>e c. cur_cpu (ue_ctx e) = cpu \<longrightarrow> usk_run e c s' = s')) \<and>
    (\<forall>q \<in> set (usk_events s'). packet_ok q)"
proof -
  have inv: "usk_inv s" using usk_reachable_inv_holds [OF assms(1)] .
  have inv': "usk_inv s'" using usk.runs_inv [OF inv] by (simp add: assms(3))
  have same: "arr_lookup (packets s') cpu = arr_lookup (packets s) cpu"
    using usk.runs_other [OF inv assms(2)] by (simp add: assms(3))
  have "\<exists>p. arr_lookup (packets s) cpu = Some p \<and> packet_ok p" if "unat cpu < 1024"
    using inv that by (auto simp: arr_lookup_def usk_inv_def)
  moreover have none: "arr_lookup (packets s) cpu = None" if "1024 \<le> unat cpu"
    using inv that by (simp add: arr_lookup_def usk_inv_def)
  moreover have "usk_run e c s' = s'" if "1024 \<le> unat cpu" "cur_cpu (ue_ctx e) = cpu" for e c
    using none [OF that(1)] same that(2)
    by (cases c) (simp_all add: kprobe_unix_sendmsg_def fentry_unix_sendmsg_def usk_send_msg_def Let_def)
  ultimately show ?thesis using same inv' by (simp add: usk_inv_def)
qed

theorem usk_packets_keep_shape_witness:
  "\<exists>p. arr_lookup (packets (usk_run usk_demo (Unix_Fentry (\<lambda>_. 64)) usk_init)) 3 = Some p \<and> packet_ok p"
proof -
  have "cur_cpu (ue_ctx usk_demo) \<noteq> 3" by (simp add: usk_demo_def)
  then show ?thesis
    using usk_packets_keep_shape [OF usk_reachable.start, of 3 "[(usk_demo, Unix_Fentry (\<lambda>_. 64))]", OF _ refl] by auto
qed

end
