(* ===== verification/Unix_Message.thy ===== *)
theory Unix_Message
  imports Unix_Run
begin

text \<open>
  The Unix socket capture from end to end: a message whose segments lie in memory behind an array of
  \<^verbatim>\<open>struct iovec\<close>, sent over a socket one end of which is bound to a name, is found in the events.
\<close>

section \<open>Matching a name in memory\<close>

lemma str_scan_name:
  "mem_at m a (name @ [0]) \<Longrightarrow> 0 \<notin> set name \<Longrightarrow> length name < n \<Longrightarrow> str_scan m n a = Some (name @ [0])"
proof (induction name arbitrary: a n)
  case Nil
  then show ?case by (cases n) simp_all
next
  case (Cons b name)
  then show ?case by (cases n) auto
qed

lemma probe_read_str_name:
  "mem_at m a (name @ [0]) \<Longrightarrow> 0 \<notin> set name \<Longrightarrow> length name < length dst \<Longrightarrow>
   snd (probe_read_str m dst a) = name @ 0 # drop (Suc (length name)) dst"
  by (simp add: probe_read_str_def str_scan_name overwrite_def)

text \<open>The socket is bound to a name: a path, or with a NUL before it an abstract name.\<close>

definition bears :: "usk_env \<Rightarrow> ptr \<Rightarrow> bytes \<Rightarrow> bool" where
  "bears e usk name \<longleftrightarrow>
     (let m = k_mem (ue_kernel e); addr = usk_addr (sk_at (ue_kernel e) usk)
      in usk \<noteq> NULL \<and> load32 m (addr + 4) \<noteq> 0 \<and> 0 \<notin> set name \<and> length name < 108 \<and>
         (name \<noteq> [] \<and> mem_at m (addr + 10) (name @ [0]) \<or> mem_at m (addr + 10) (0 # name @ [0])))"

lemma match_path_name:
  assumes "bears e usk name" "length path = 108"
  shows "match_path_of_usk e usk path =
    (is_path_matched (ue_cfg e) (name @ 0 # drop (Suc (length name)) path), name @ 0 # drop (Suc (length name)) path)"
proof -
  let ?m = "k_mem (ue_kernel e)" and ?a = "usk_addr (sk_at (ue_kernel e) usk) + 10"
  have "(if load8 ?m ?a \<noteq> 0 then snd (probe_read_str ?m path ?a) else snd (probe_read_str ?m path (?a + 1))) =
      name @ 0 # drop (Suc (length name)) path"
  proof (cases "mem_at ?m ?a (0 # name @ [0])")
    case True
    then show ?thesis using assms load_mem_at(1) [of ?m ?a 0]
      by (simp add: bears_def Let_def probe_read_str_name)
  next
    case False
    then obtain b rest where name: "name = b # rest" and at: "mem_at ?m ?a (name @ [0])"
      using assms(1) by (cases name) (auto simp: bears_def Let_def)
    then have "load8 ?m ?a = b" "b \<noteq> 0"
      using assms(1) load_mem_at(1) [of ?m ?a b] by (auto simp: bears_def Let_def)
    then show ?thesis using probe_read_str_name [OF at] assms by (simp add: bears_def Let_def)
  qed
  then show ?thesis
    using assms(1) by (simp add: match_path_of_usk_def Let_def SOCK_PATH_OFFSET_def bears_def)
qed

lemma matches_prefix:
  assumes "cfg_sock_path cfg = pre @ replicate (108 - length pre) 0" "0 \<notin> set pre" "length pre \<le> 108"
    and "0 \<notin> set name" "length name < 108" "length path = 108"
  shows "is_path_matched cfg (name @ 0 # drop (Suc (length name)) path) \<longleftrightarrow> take (length pre) name = pre"
proof -
  have "is_path_matched cfg (name @ 0 # drop (Suc (length name)) path) \<longleftrightarrow>
      take (length pre) (name @ 0 # drop (Suc (length name)) path) = pre"
    using assms by (intro is_path_matched_iff) simp_all
  also have "\<dots> \<longleftrightarrow> take (length pre) name = pre"
  proof (cases "length pre \<le> length name")
    case False
    then have "0 \<in> set (take (length pre) (name @ 0 # drop (Suc (length name)) path))"
      by (cases "length pre - length name") simp_all
    moreover have "length (take (length pre) name) \<noteq> length pre" using False by simp
    ultimately show ?thesis using assms(2) by metis
  qed simp
  finally show ?thesis .
qed

lemma is_sock_path_matched_name:
  assumes "bears e usk name" "length path = 108"
    and "cfg_sock_path (ue_cfg e) = pre @ replicate (108 - length pre) 0" "0 \<notin> set pre" "length pre \<le> 108"
  shows "fst (is_sock_path_matched e usk path) \<longleftrightarrow> take (length pre) name = pre"
  using match_path_name [OF assms(1,2)] matches_prefix [OF assms(3-5) _ _ assms(2), of name] assms(1)
  by (simp add: is_sock_path_matched_def bears_def Let_def)

text \<open>What an end of a connection is bound to, if anything, and whether that is what is looked for.\<close>

fun named :: "usk_env \<Rightarrow> ptr \<Rightarrow> bytes option \<Rightarrow> bool" where
  "named e usk None \<longleftrightarrow> usk = NULL \<or> load32 (k_mem (ue_kernel e)) (usk_addr (sk_at (ue_kernel e) usk) + 4) = 0"
| "named e usk (Some name) \<longleftrightarrow> bears e usk name"

fun wanted :: "bytes \<Rightarrow> bytes option \<Rightarrow> bool" where
  "wanted pre None \<longleftrightarrow> False"
| "wanted pre (Some name) \<longleftrightarrow> take (length pre) name = pre"

lemma is_sock_path_matched_named:
  assumes "named e usk n" "length path = 108"
    and "cfg_sock_path (ue_cfg e) = pre @ replicate (108 - length pre) 0" "0 \<notin> set pre" "length pre \<le> 108"
  shows "fst (is_sock_path_matched e usk path) \<longleftrightarrow> wanted pre n"
  using assms is_sock_path_matched_name [OF _ assms(2-5), of usk]
  by (cases n) (auto simp: is_sock_path_matched_def match_path_of_usk_def Let_def)

section \<open>The segments of a message\<close>

fun iovecs_at :: "bytemem \<Rightarrow> ptr \<Rightarrow> (ptr \<times> bytes) list \<Rightarrow> bool" where
  "iovecs_at m iov [] \<longleftrightarrow> True"
| "iovecs_at m iov ((base, seg) # segs) \<longleftrightarrow>
     mem_at m iov (to_le 8 base @ to_le 8 (of_nat (length seg) :: u64)) \<and> mem_at m base seg \<and>
     length seg < 2 ^ 32 \<and> iovecs_at m (iov + 16) segs"

text \<open>The bytes of a segment an event has.\<close>

definition payload :: "usk_env \<Rightarrow> packet \<Rightarrow> bytes" where
  "payload e p = take (min (min (unat (pkt_len p)) (unat (cfg_seg_size (ue_cfg e)))) 51199) (pkt_data p)"

definition same_message :: "packet \<Rightarrow> packet \<Rightarrow> bool" where
  "same_message p q \<longleftrightarrow> pkt_process q = pkt_process p \<and> pkt_peer_pid q = pkt_peer_pid p \<and> pkt_path q = pkt_path p"

lemma collect_data_payload:
  assumes "length (pkt_data p) = 51200" "mem_at (k_mem (ue_kernel e)) base seg" "length seg < 2 ^ 32"
  shows "payload e (collect_data e p base (of_nat (length seg))) =
      take (min (unat (cfg_seg_size (ue_cfg e))) 51199) seg \<and>
    unat (pkt_len (collect_data e p base (of_nat (length seg)))) = length seg"
proof -
  have len: "unat (of_nat (length seg) :: u32) = length seg" using assms(3) by (simp add: unsigned_of_nat take_bit_nat_eq_self)
  let ?n = "min (length seg) (unat (cfg_seg_size (ue_cfg e)))"
  note collect_data_bounds [OF assms(1,2) len [symmetric] refl]
  moreover have "take (min (length seg) x) seg = take x seg" for x by (simp add: min_def)
  ultimately show ?thesis by (simp add: payload_def len min.assoc)
qed

lemma collect_segs_payload:
  assumes "length (pkt_data p) = 51200" "iovecs_at (k_mem (ue_kernel e)) iov segs" "unat nsegs = i + length segs"
  shows "\<exists>new. snd (collect_segs e nsegs n i k iov (p, out)) = out @ new \<and>
    map (payload e) new = map (\<lambda>(base, seg). take (min (unat (cfg_seg_size (ue_cfg e))) 51199) seg)
      (take (min k (unat n - i)) segs) \<and>
    map (\<lambda>q. unat (pkt_len q)) new = map (\<lambda>(base, seg). length seg) (take (min k (unat n - i)) segs) \<and>
    (\<forall>q \<in> set new. pkt_flags q = 0 \<and> same_message p q)"
  using assms
proof (induction k arbitrary: i iov p out segs)
  case (Suc k)
  show ?case
  proof (cases "segs = [] \<or> i \<ge> unat n")
    case True
    then show ?thesis using Suc.prems(3) by (intro exI [of _ "[]"]) auto
  next
    case False
    then obtain base seg rest where segs: "segs = (base, seg) # rest" by (cases segs) auto
    let ?m = "k_mem (ue_kernel e)"
    have at: "mem_at ?m base seg" "length seg < 2 ^ 32" "iovecs_at ?m (iov + 16) rest"
      "load64 ?m iov = base" "load64 ?m (iov + 8) = of_nat (length seg)"
      using Suc.prems(2) segs by (simp_all add: load_mem_at)
    have len: "ucast (of_nat (length seg) :: u64) = (of_nat (length seg) :: u32)"
      using at(2) by (simp add: unsigned_of_nat take_bit_nat_eq_self)
    define p' where "p' = collect_data e p base (of_nat (length seg))"
    have p': "length (pkt_data p') = 51200" using Suc.prems(1) by (simp add: p'_def length_collect_data)
    obtain new where new: "snd (collect_segs e nsegs n (Suc i) k (iov + 16) (p', out @ [p'])) = (out @ [p']) @ new"
      "map (payload e) new = map (\<lambda>(base, seg). take (min (unat (cfg_seg_size (ue_cfg e))) 51199) seg)
        (take (min k (unat n - Suc i)) rest)"
      "map (\<lambda>q. unat (pkt_len q)) new = map (\<lambda>(base, seg). length seg) (take (min k (unat n - Suc i)) rest)"
      "\<forall>q \<in> set new. pkt_flags q = 0 \<and> same_message p' q"
      using Suc.IH [OF p' at(3), of "Suc i" "out @ [p']"] Suc.prems(3) segs by auto
    have run: "collect_segs e nsegs n i (Suc k) iov (p, out) =
        collect_segs e nsegs n (Suc i) k (iov + 16) (p', out @ [p'])"
      using False Suc.prems(3) segs by (simp add: Let_def at(4,5) len p'_def)
    have step: "unat n - i = Suc (unat n - Suc i)" using False by (simp add: Suc_diff_Suc)
    have same: "same_message p p'" "\<And>q. same_message p' q \<Longrightarrow> same_message p q" "pkt_flags p' = 0"
      by (simp_all add: same_message_def p'_def collect_data_def Let_def)
    show ?thesis
      unfolding run step segs
      using new same collect_data_payload [OF Suc.prems(1) at(1,2), folded p'_def]
      by (intro exI [of _ "p' # new"]) simp
  qed
qed simp

text \<open>The events of a message are those of its segments, up to the limits.\<close>

lemma collect_segs_message:
  assumes "length (pkt_data p) = 51200" "iovecs_at (k_mem (ue_kernel e)) iov segs" "unat nsegs = length segs"
  shows "let lim = min 10 (unat (cfg_segs_per_msg (ue_cfg e))); cap = min (unat (cfg_seg_size (ue_cfg e))) 51199;
      sent = snd (collect_segs e nsegs
        (if cfg_segs_per_msg (ue_cfg e) > SS_MAX_SEGS_PER_MSG then SS_MAX_SEGS_PER_MSG else cfg_segs_per_msg (ue_cfg e))
        0 (unat SS_MAX_SEGS_PER_MSG) iov (p, []))
    in map (payload e) sent = map (\<lambda>(base, seg). take cap seg) (take lim segs) \<and>
       map (\<lambda>q. unat (pkt_len q)) sent = map (\<lambda>(base, seg). length seg) (take lim segs) \<and>
       (\<forall>q \<in> set sent. pkt_flags q = 0) \<and>
       (length segs \<le> lim \<and> (\<forall>(base, seg) \<in> set segs. length seg \<le> cap) \<longrightarrow>
          concat (map (payload e) sent) = concat (map snd segs))"
proof -
  define n where "n = (if cfg_segs_per_msg (ue_cfg e) > SS_MAX_SEGS_PER_MSG then SS_MAX_SEGS_PER_MSG
    else cfg_segs_per_msg (ue_cfg e))"
  define lim where "lim = min 10 (unat (cfg_segs_per_msg (ue_cfg e)))"
  define cap where "cap = min (unat (cfg_seg_size (ue_cfg e))) 51199"
  define sent where "sent = snd (collect_segs e nsegs n 0 (unat SS_MAX_SEGS_PER_MSG) iov (p, []))"
  have lim: "min (unat SS_MAX_SEGS_PER_MSG) (unat n - 0) = lim"
    by (auto simp: lim_def n_def SS_MAX_SEGS_PER_MSG_def word_less_nat_alt)
  have sent: "map (payload e) sent = map (\<lambda>(base, seg). take cap seg) (take lim segs)"
    "map (\<lambda>q. unat (pkt_len q)) sent = map (\<lambda>(base, seg). length seg) (take lim segs)"
    "\<forall>q \<in> set sent. pkt_flags q = 0"
    using collect_segs_payload [of p e iov segs nsegs 0 n "unat SS_MAX_SEGS_PER_MSG" "[]", unfolded lim, folded cap_def]
      assms
    by (auto simp: sent_def)
  have "concat (map (payload e) sent) = concat (map snd segs)"
    if "length segs \<le> lim" "\<forall>(base, seg) \<in> set segs. length seg \<le> cap"
  proof -
    have "map (\<lambda>(base, seg). take cap seg) segs = map snd segs" using that(2) by (auto intro: map_cong)
    then show ?thesis using that(1) by (simp only: sent(1) take_all)
  qed
  then show ?thesis
    unfolding Let_def n_def [symmetric] lim_def [symmetric] cap_def [symmetric] sent_def [symmetric] using sent by blast
qed

lemma collect_segs_process:
  "pkt_process p = c \<Longrightarrow> list_all (\<lambda>q. pkt_process q = c) out \<Longrightarrow>
   list_all (\<lambda>q. pkt_process q = c) (snd (collect_segs e nsegs n i k iov (p, out)))"
proof (induction k arbitrary: i iov p out)
  case (Suc k)
  let ?m = "k_mem (ue_kernel e)"
  let ?p = "collect_data e p (load64 ?m iov) (ucast (load64 ?m (iov + 8)))"
  have "pkt_process ?p = c" using Suc.prems(1) by (simp add: collect_data_def Let_def)
  then show ?case
    using Suc.prems Suc.IH [of ?p "out @ [?p]" "Suc i" "iov + 16"] by (simp add: Let_def)
qed simp

text \<open>The events of a message that passes the filter and has a packet.\<close>

lemma usk_send_msg_events:
  assumes "arr_lookup (packets s) (cur_cpu (ue_ctx e)) = Some pkt"
    and "cfg_pid (ue_cfg e) = 0 \<or> cfg_pid (ue_cfg e) = cur_tgid (ue_ctx e)"
    and "length (pkt_path pkt) = 108" "length (pkt_data pkt) = 51200"
    and "cfg_sock_path (ue_cfg e) = pre @ replicate (108 - length pre) 0" "0 \<notin> set pre" "length pre \<le> 108"
    and "usk = ue_to_unix e (so_sk (socket_at (ue_kernel e) sock))"
    and "named e usk name"
    and "named e (if usk = NULL then NULL else ue_to_unix e (usk_peer (sk_at (ue_kernel e) usk))) peer_name"
  shows "\<exists>p. length (pkt_data p) = 51200 \<and> pkt_process p = fill_process_info (ue_ctx e) \<and>
    usk_events (usk_send_msg e sock msg len s) = usk_events s @
      (if \<not> (wanted pre name \<or> wanted pre peer_name) then []
       else if usk_iter_error e (ue_msg_iter e msg) then [p\<lparr>pkt_len := ucast len, pkt_flags := SS_PACKET_F_ERR\<rparr>]
       else snd (collect_segs e (it_nr_segs (ue_msg_iter e msg))
         (if cfg_segs_per_msg (ue_cfg e) > SS_MAX_SEGS_PER_MSG then SS_MAX_SEGS_PER_MSG else cfg_segs_per_msg (ue_cfg e))
         0 (unat SS_MAX_SEGS_PER_MSG) (it_kvec (ue_msg_iter e msg)) (p, [])))"
proof -
  let ?peer = "if usk = NULL then NULL else ue_to_unix e (usk_peer (sk_at (ue_kernel e) usk))"
  obtain m1 path1 where own: "is_sock_path_matched e usk (pkt_path pkt) = (m1, path1)" by fastforce
  have path1: "length path1 = 108" "m1 = wanted pre name"
    using length_match_path [of e usk "pkt_path pkt"] is_sock_path_matched_named [OF assms(9) assms(3) assms(5-7)]
    by (simp_all add: own assms(3))
  obtain m2 path2 where peer: "is_sock_path_matched e ?peer path1 = (m2, path2)" by fastforce
  have m2: "m2 = wanted pre peer_name"
    using is_sock_path_matched_named [OF assms(10) path1(1) assms(5-7)] by (simp add: peer)
  define p where "p = pkt\<lparr>pkt_path := if m1 then path1 else path2, pkt_process := fill_process_info (ue_ctx e),
      pkt_peer_pid := ue_pid_nr e (sk_peer_pid (sk_at (ue_kernel e) (so_sk (socket_at (ue_kernel e) sock))))\<rparr>"
  define it where "it = ue_msg_iter e msg"
  define n where "n = (if cfg_segs_per_msg (ue_cfg e) > SS_MAX_SEGS_PER_MSG then SS_MAX_SEGS_PER_MSG
    else cfg_segs_per_msg (ue_cfg e))"
  have pid: "(ucast (drop_bit 32 (bpf_get_current_pid_tgid c)) :: u32) = cur_tgid c" for c
    unfolding pid_tgid_high by (rule bit_word_eqI) (simp add: bit_simps)
  have pid_ok: "(cfg_pid (ue_cfg e) \<noteq> 0 \<and> cfg_pid (ue_cfg e) \<noteq> cur_tgid (ue_ctx e)) = False" using assms(2) by blast
  have "usk_events (usk_send_msg e sock msg len s) = usk_events s @
      (if \<not> (m1 \<or> m2) then []
       else if usk_iter_error e it then [p\<lparr>pkt_len := ucast len, pkt_flags := SS_PACKET_F_ERR\<rparr>]
       else snd (collect_segs e (it_nr_segs it) n 0 (unat SS_MAX_SEGS_PER_MSG) (it_kvec it) (p, [])))"
    using own peer
    by (cases "usk = NULL"; cases m1; cases "usk_iter_error e it")
      (simp_all add: usk_send_msg_def Let_def pid pid_ok assms(1) own case_prod_beta p_def flip: assms(8) it_def n_def)
  moreover have "length (pkt_data p) = 51200" "pkt_process p = fill_process_info (ue_ctx e)"
    using assms(4) by (simp_all add: p_def)
  ultimately show ?thesis unfolding path1(2) m2 it_def n_def by blast
qed

section \<open>Properties\<close>

text \<open>C12: What a message sent over a Unix socket leaves in the events. Let the configured path be at most 108
  bytes and padded with NULs, and let each end of the connection be absent, unbound, or bound to a readable,
  NUL-terminated name shorter than 108 bytes. The message is captured if the sender passes the filter on
  the process, runs on one of the CPUs 0 to 1023, and one of the ends has a name that starts with the
  configured path; otherwise nothing is sent. If its iterator is refused (not a plain array of segments, on
  kernels from 6.0 on, or partly consumed), one event with the error flag and the length of the
  message is sent. Otherwise, for segments that are readable and shorter than 4 GB, there is one event for
  each of the first ones, at most ten and at most as many as configured, in their order, with the length
  of the segment and its bytes up to the configured size and to 51199; and when the message keeps these limits, the
  bytes of the events are the message.\<close>

theorem usk_message_reassembled:
  assumes "usk_reachable s"
    and "cfg_sock_path (ue_cfg e) = pre @ replicate (108 - length pre) 0" "0 \<notin> set pre" "length pre \<le> 108"
    and "usk = ue_to_unix e (so_sk (socket_at (ue_kernel e) sock))"
    and "named e usk name"
    and "named e (if usk = NULL then NULL else ue_to_unix e (usk_peer (sk_at (ue_kernel e) usk))) peer_name"
    and "it = ue_msg_iter e msg"
    and "lim = min 10 (unat (cfg_segs_per_msg (ue_cfg e)))" "cap = min (unat (cfg_seg_size (ue_cfg e))) 51199"
    and "captured \<longleftrightarrow> (cfg_pid (ue_cfg e) = 0 \<or> cfg_pid (ue_cfg e) = cur_tgid (ue_ctx e)) \<and>
      unat (cur_cpu (ue_ctx e)) < 1024 \<and> (wanted pre name \<or> wanted pre peer_name)"
  shows "\<exists>sent. usk_events (usk_send_msg e sock msg len s) = usk_events s @ sent \<and>
    (\<forall>q \<in> set sent. pkt_process q = fill_process_info (ue_ctx e)) \<and>
    (\<not> captured \<longrightarrow> sent = []) \<and>
    (captured \<and> usk_iter_error e it \<longrightarrow>
       (\<exists>q. sent = [q] \<and> pkt_flags q = SS_PACKET_F_ERR \<and> pkt_len q = ucast len)) \<and>
    (\<forall>segs. captured \<and> \<not> usk_iter_error e it \<and> iovecs_at (k_mem (ue_kernel e)) (it_kvec it) segs \<and>
         unat (it_nr_segs it) = length segs \<longrightarrow>
       map (payload e) sent = map (\<lambda>(base, seg). take cap seg) (take lim segs) \<and>
       map (\<lambda>q. unat (pkt_len q)) sent = map (\<lambda>(base, seg). length seg) (take lim segs) \<and>
       (\<forall>q \<in> set sent. pkt_flags q = 0) \<and>
       (length segs \<le> lim \<and> (\<forall>(base, seg) \<in> set segs. length seg \<le> cap) \<longrightarrow>
          concat (map (payload e) sent) = concat (map snd segs)))"
proof -
  have inv: "usk_inv s" by (rule usk_reachable_inv_holds [OF assms(1)])
  have pid: "(ucast (drop_bit 32 (bpf_get_current_pid_tgid c)) :: u32) = cur_tgid c" for c
    unfolding pid_tgid_high by (rule bit_word_eqI) (simp add: bit_simps)
  show ?thesis
  proof (cases "(cfg_pid (ue_cfg e) = 0 \<or> cfg_pid (ue_cfg e) = cur_tgid (ue_ctx e)) \<and> unat (cur_cpu (ue_ctx e)) < 1024")
    case False
    then have "usk_send_msg e sock msg len s = s"
      using inv by (auto simp: usk_send_msg_def Let_def pid arr_lookup_def usk_inv_def)
    with False show ?thesis using assms(11) by (intro exI [of _ "[]"]) auto
  next
    case pass: True
    then obtain pkt where pkt: "arr_lookup (packets s) (cur_cpu (ue_ctx e)) = Some pkt" "packet_ok pkt"
      using inv by (auto simp: arr_lookup_def usk_inv_def)
    have len: "length (pkt_path pkt) = 108" "length (pkt_data pkt) = 51200" using pkt(2) by (simp_all add: packet_ok_def)
    define m where "m \<longleftrightarrow> wanted pre name \<or> wanted pre peer_name"
    obtain p where events: "length (pkt_data p) = 51200" "pkt_process p = fill_process_info (ue_ctx e)"
      "usk_events (usk_send_msg e sock msg len s) = usk_events s @
        (if \<not> m then [] else if usk_iter_error e it then [p\<lparr>pkt_len := ucast len, pkt_flags := SS_PACKET_F_ERR\<rparr>]
         else snd (collect_segs e (it_nr_segs it)
           (if cfg_segs_per_msg (ue_cfg e) > SS_MAX_SEGS_PER_MSG then SS_MAX_SEGS_PER_MSG else cfg_segs_per_msg (ue_cfg e))
           0 (unat SS_MAX_SEGS_PER_MSG) (it_kvec it) (p, [])))"
      using usk_send_msg_events [OF pkt(1) pass [THEN conjunct1] len assms(2-7), of msg len]
      unfolding assms(8) m_def by (elim exE conjE)
    have cap: "captured \<longleftrightarrow> m" using pass assms(11) by (simp add: m_def)
    define segs_sent where "segs_sent = snd (collect_segs e (it_nr_segs it)
           (if cfg_segs_per_msg (ue_cfg e) > SS_MAX_SEGS_PER_MSG then SS_MAX_SEGS_PER_MSG else cfg_segs_per_msg (ue_cfg e))
           0 (unat SS_MAX_SEGS_PER_MSG) (it_kvec it) (p, []))"
    have process: "\<forall>q \<in> set segs_sent. pkt_process q = fill_process_info (ue_ctx e)"
      using collect_segs_process [where out = "[]", OF events(2)] by (simp add: segs_sent_def list_all_iff)
    have segs: "map (payload e) segs_sent = map (\<lambda>(base, seg). take cap seg) (take lim segs) \<and>
       map (\<lambda>q. unat (pkt_len q)) segs_sent = map (\<lambda>(base, seg). length seg) (take lim segs) \<and>
       (\<forall>q \<in> set segs_sent. pkt_flags q = 0) \<and>
       (length segs \<le> lim \<and> (\<forall>(base, seg) \<in> set segs. length seg \<le> cap) \<longrightarrow>
          concat (map (payload e) segs_sent) = concat (map snd segs))"
      if "iovecs_at (k_mem (ue_kernel e)) (it_kvec it) segs" "unat (it_nr_segs it) = length segs" for segs
      using collect_segs_message [OF events(1) that, folded assms(9,10)]
      unfolding Let_def segs_sent_def [symmetric] .
    note ev = events(3) [folded segs_sent_def]
    show ?thesis
    proof (cases "m \<and> \<not> usk_iter_error e it")
      case True
      with ev have "usk_events (usk_send_msg e sock msg len s) = usk_events s @ segs_sent" by simp
      then show ?thesis using True cap process segs by blast
    next
      case False
      with ev events(2) cap show ?thesis
        by (intro exI [of _ "if m then [p\<lparr>pkt_len := ucast len, pkt_flags := SS_PACKET_F_ERR\<rparr>] else []"]) auto
    qed
  qed
qed

text \<open>Two segments, sent to a socket that is bound to the default path.\<close>

definition message_mem :: bytemem where
  "message_mem = bytes_mem 4096
     ([0, 0, 0, 0] @ to_le 4 (21 :: u32) @ [1, 0] @
      [47, 116, 109, 112, 47, 115, 111, 99, 107, 100, 117, 109, 112, 46, 115, 111, 99, 107] @ [0] @
      (to_le 8 (4157 :: u64) @ to_le 8 (of_nat (length ([72, 73] :: bytes)) :: u64)) @
      (to_le 8 (4159 :: u64) @ to_le 8 (of_nat (length ([33] :: bytes)) :: u64)) @ [72, 73] @ [33])"

definition message_demo :: usk_env where
  "message_demo = usk_demo\<lparr>ue_kernel := no_kernel\<lparr>k_mem := message_mem,
     k_socket := [64 \<mapsto> zero_socket\<lparr>so_sk := 100\<rparr>],
     k_sock := [100 \<mapsto> zero_sock\<lparr>usk_peer := 200\<rparr>, 200 \<mapsto> zero_sock\<lparr>usk_addr := 4096\<rparr>]\<rparr>,
     ue_msg_iter := (\<lambda>_. \<lparr>it_iter_type = 1, it_iov_offset = 0, it_kvec = 4125, it_nr_segs = 2\<rparr>)\<rparr>"

lemma message_mem_at:
  "mem_at message_mem 4100 (to_le 4 (21 :: u32))"
  "mem_at message_mem 4106 ([47, 116, 109, 112, 47, 115, 111, 99, 107, 100, 117, 109, 112, 46, 115, 111, 99, 107] @ [0])"
  "iovecs_at message_mem 4125 [(4157, [72, 73]), (4159, [33])]"
proof -
  note at = mem_at_bytes_mem [of 4096
     "[0, 0, 0, 0] @ to_le 4 (21 :: u32) @ [1, 0] @
      [47, 116, 109, 112, 47, 115, 111, 99, 107, 100, 117, 109, 112, 46, 115, 111, 99, 107] @ [0] @
      (to_le 8 (4157 :: u64) @ to_le 8 (of_nat (length ([72, 73] :: bytes)) :: u64)) @
      (to_le 8 (4159 :: u64) @ to_le 8 (of_nat (length ([33] :: bytes)) :: u64)) @ [72, 73] @ [33]", folded message_mem_def]
  show "mem_at message_mem 4100 (to_le 4 (21 :: u32))"
    using at by simp
  show "mem_at message_mem 4106 ([47, 116, 109, 112, 47, 115, 111, 99, 107, 100, 117, 109, 112, 46, 115, 111, 99, 107] @ [0])"
    using at by simp
  show "iovecs_at message_mem 4125 [(4157, [72, 73]), (4159, [33])]"
    using at by simp
qed

theorem usk_message_reassembled_witness:
  "concat (map (payload message_demo) (usk_events (usk_send_msg message_demo 64 0 3 usk_init))) = [72, 73, 33]"
proof -
  let ?name = "[47, 116, 109, 112, 47, 115, 111, 99, 107, 100, 117, 109, 112, 46, 115, 111, 99, 107] :: bytes"
  let ?it = "\<lparr>it_iter_type = 1, it_iov_offset = 0, it_kvec = 4125, it_nr_segs = 2\<rparr>"
  have mem: "k_mem (ue_kernel message_demo) = message_mem" by (simp add: message_demo_def)
  have sk: "so_sk (socket_at (ue_kernel message_demo) 64) = 100" "usk_addr (sk_at (ue_kernel message_demo) 100) = 0"
    "usk_peer (sk_at (ue_kernel message_demo) 100) = 200" "usk_addr (sk_at (ue_kernel message_demo) 200) = 4096"
    "ue_to_unix message_demo p = p" "ue_msg_iter message_demo 0 = ?it" for p
    by (simp_all add: message_demo_def usk_demo_def zero_defs)
  have cfg: "ue_cfg message_demo = CONFIG" "cur_cpu (ue_ctx message_demo) = 0" by (simp_all add: message_demo_def usk_demo_def)
  have path: "cfg_sock_path CONFIG = ?name @ replicate (108 - length ?name) 0" "cfg_pid CONFIG = 0"
    "cfg_seg_size CONFIG = 51200" "cfg_segs_per_msg CONFIG = 10"
    by (simp_all add: CONFIG_def SS_MAX_SEG_SIZE_def SS_MAX_SEGS_PER_MSG_def)
  have "message_mem 4 = None" by (simp add: message_mem_def bytes_mem_def)
  then have "load32 message_mem 4 = 0"
    by (simp add: load32_def probe_read_fault numeral_eq_Suc)
  then have own: "named message_demo 100 None" by (simp add: mem sk)
  have "load32 message_mem 4100 = 21" by (rule load_mem_at(3) [OF message_mem_at(1)])
  then have peer: "named message_demo 200 (Some ?name)"
    using message_mem_at(2) by (simp add: mem sk bears_def Let_def)
  have it: "\<not> usk_iter_error message_demo ?it" by (simp add: usk_iter_error_def ITER_IOVEC_def)
  obtain sent where "usk_events (usk_send_msg message_demo 64 0 3 usk_init) = usk_events usk_init @ sent"
    "concat (map (payload message_demo) sent) = [72, 73, 33]"
  proof -
    have segs: "iovecs_at message_mem 4125 [(4157, [72, 73]), (4159, [33])]" by (rule message_mem_at(3))
    have no_pid: "cfg_pid (ue_cfg message_demo) = 0" "unat (cur_cpu (ue_ctx message_demo)) < 1024"
      by (simp_all add: cfg path)
    obtain sent where sent: "usk_events (usk_send_msg message_demo 64 0 3 usk_init) = usk_events usk_init @ sent"
      "\<forall>segs. True \<and> \<not> usk_iter_error message_demo ?it \<and>
           iovecs_at (k_mem (ue_kernel message_demo)) (it_kvec ?it) segs \<and> unat (it_nr_segs ?it) = length segs \<longrightarrow>
         map (payload message_demo) sent = map (\<lambda>(base, seg). take 51199 seg) (take 10 segs) \<and>
         map (\<lambda>q. unat (pkt_len q)) sent = map (\<lambda>(base, seg). length seg) (take 10 segs) \<and>
         (\<forall>q \<in> set sent. pkt_flags q = 0) \<and>
         (length segs \<le> 10 \<and> (\<forall>(base, seg) \<in> set segs. length seg \<le> 51199) \<longrightarrow>
            concat (map (payload message_demo) sent) = concat (map snd segs))"
      using usk_message_reassembled [OF usk_reachable.start, where e = message_demo and sock = 64 and msg = 0 and
          len = 3 and pre = ?name and name = None and peer_name = "Some ?name" and usk = 100 and it = ?it and
          lim = 10 and cap = 51199 and captured = True]
        own peer no_pid by (simp add: sk cfg path del: named.simps) blast
    have "concat (map (payload message_demo) sent) = [72, 73, 33]"
      using sent(2) [rule_format, of "[(4157, [72, 73]), (4159, [33])]"] it segs mem by simp
    with sent(1) show ?thesis by (rule that)
  qed
  then show ?thesis by (simp add: usk_init_def)
qed

end
