(* ===== verification/Core_Read.thy ===== *)
theory Core_Read
  imports Packet
begin

text \<open>
  \<^verbatim>\<open>bpf/bpf_core_read.h\<close>: relocatable reads. A field relocation is what the loader fills in for
  \<^verbatim>\<open>__builtin_preserve_field_info\<close> (a record of five numbers here); the bit-field macros
  compute with it. \<^verbatim>\<open>BPF_CORE_READ\<close> and its variants chase a list of accessors, each the name of a
  field, through pointers in memory; the layouts of the structures, the compiler's and the running
  kernel's, are parameters.
\<close>

section \<open>Field, type and enum queries\<close>

datatype bpf_field_info_kind =
    BPF_FIELD_BYTE_OFFSET | BPF_FIELD_BYTE_SIZE | BPF_FIELD_EXISTS | BPF_FIELD_SIGNED
  | BPF_FIELD_LSHIFT_U64 | BPF_FIELD_RSHIFT_U64

datatype bpf_type_id_kind = BPF_TYPE_ID_LOCAL | BPF_TYPE_ID_TARGET

datatype bpf_type_info_kind = BPF_TYPE_EXISTS | BPF_TYPE_SIZE | BPF_TYPE_MATCHES

datatype bpf_enum_value_kind = BPF_ENUMVAL_EXISTS | BPF_ENUMVAL_VALUE

text \<open>The compiler's builtins are parameters: \<open>field_info\<close>, \<open>btf_type_id\<close>, \<open>type_info\<close>, \<open>enum_value\<close>.\<close>

definition bpf_core_field_exists :: "('f \<Rightarrow> bpf_field_info_kind \<Rightarrow> u32) \<Rightarrow> 'f \<Rightarrow> u32" where
  "bpf_core_field_exists field_info field = field_info field BPF_FIELD_EXISTS"

definition bpf_core_field_size :: "('f \<Rightarrow> bpf_field_info_kind \<Rightarrow> u32) \<Rightarrow> 'f \<Rightarrow> u32" where
  "bpf_core_field_size field_info field = field_info field BPF_FIELD_BYTE_SIZE"

definition bpf_core_field_offset :: "('f \<Rightarrow> bpf_field_info_kind \<Rightarrow> u32) \<Rightarrow> 'f \<Rightarrow> u32" where
  "bpf_core_field_offset field_info field = field_info field BPF_FIELD_BYTE_OFFSET"

definition bpf_core_type_id_local :: "('t \<Rightarrow> bpf_type_id_kind \<Rightarrow> u32) \<Rightarrow> 't \<Rightarrow> u32" where
  "bpf_core_type_id_local btf_type_id ty = btf_type_id ty BPF_TYPE_ID_LOCAL"

definition bpf_core_type_id_kernel :: "('t \<Rightarrow> bpf_type_id_kind \<Rightarrow> u32) \<Rightarrow> 't \<Rightarrow> u32" where
  "bpf_core_type_id_kernel btf_type_id ty = btf_type_id ty BPF_TYPE_ID_TARGET"

definition bpf_core_type_exists :: "('t \<Rightarrow> bpf_type_info_kind \<Rightarrow> u32) \<Rightarrow> 't \<Rightarrow> u32" where
  "bpf_core_type_exists type_info ty = type_info ty BPF_TYPE_EXISTS"

definition bpf_core_type_matches :: "('t \<Rightarrow> bpf_type_info_kind \<Rightarrow> u32) \<Rightarrow> 't \<Rightarrow> u32" where
  "bpf_core_type_matches type_info ty = type_info ty BPF_TYPE_MATCHES"

definition bpf_core_type_size :: "('t \<Rightarrow> bpf_type_info_kind \<Rightarrow> u32) \<Rightarrow> 't \<Rightarrow> u32" where
  "bpf_core_type_size type_info ty = type_info ty BPF_TYPE_SIZE"

definition bpf_core_enum_value_exists :: "('e \<Rightarrow> bpf_enum_value_kind \<Rightarrow> u64) \<Rightarrow> 'e \<Rightarrow> u64" where
  "bpf_core_enum_value_exists enum_value v = enum_value v BPF_ENUMVAL_EXISTS"

definition bpf_core_enum_value :: "('e \<Rightarrow> bpf_enum_value_kind \<Rightarrow> u64) \<Rightarrow> 'e \<Rightarrow> u64" where
  "bpf_core_enum_value enum_value v = enum_value v BPF_ENUMVAL_VALUE"

section \<open>Bit-fields\<close>

record field_relo =
  fr_byte_offset :: nat
  fr_byte_size :: nat
  fr_signed :: bool
  fr_lshift :: nat
  fr_rshift :: nat

text \<open>\<^verbatim>\<open>__CORE_BITFIELD_PROBE_READ\<close> into a zeroed 64-bit variable: into its first bytes, or its last
  ones on a big-endian target; the variable's bytes in memory order, and its value.\<close>

definition CORE_BITFIELD_PROBE_READ :: "bool \<Rightarrow> bytemem \<Rightarrow> ptr \<Rightarrow> field_relo \<Rightarrow> bytes" where
  "CORE_BITFIELD_PROBE_READ big m src r =
     (let bs = snd (probe_read m (fr_byte_size r) (src + of_nat (fr_byte_offset r)))
      in if big then write_at (8 - fr_byte_size r) bs (replicate 8 0)
         else overwrite (replicate 8 0) bs)"

definition val_of :: "bool \<Rightarrow> bytes \<Rightarrow> u64" where
  "val_of big bs = le_word (if big then rev bs else bs)"

definition BPF_CORE_READ_BITFIELD_PROBED :: "bool \<Rightarrow> bytemem \<Rightarrow> ptr \<Rightarrow> field_relo \<Rightarrow> u64" where
  "BPF_CORE_READ_BITFIELD_PROBED big m s r =
     (let val = val_of big (CORE_BITFIELD_PROBE_READ big m s r);
          val = push_bit (fr_lshift r) val
      in if fr_signed r then signed_drop_bit (fr_rshift r) val else drop_bit (fr_rshift r) val)"

definition load_sized :: "bytemem \<Rightarrow> nat \<Rightarrow> ptr \<Rightarrow> u64" where
  "load_sized m sz p =
     (if sz = 1 then ucast (load8 m p)
      else if sz = 2 then ucast (load16 m p)
      else if sz = 4 then ucast (load32 m p)
      else if sz = 8 then load64 m p
      else 0)"

definition BPF_CORE_READ_BITFIELD :: "bytemem \<Rightarrow> ptr \<Rightarrow> field_relo \<Rightarrow> u64" where
  "BPF_CORE_READ_BITFIELD m s r =
     (let p = s + of_nat (fr_byte_offset r);
          val = load_sized m (fr_byte_size r) p;
          val = push_bit (fr_lshift r) val
      in if fr_signed r then signed_drop_bit (fr_rshift r) val else drop_bit (fr_rshift r) val)"

text \<open>A store of the low bytes of a value; sizes other than 1, 2, 4 and 8 store nothing.\<close>

definition store_bytes :: "bytemem \<Rightarrow> ptr \<Rightarrow> bytes \<Rightarrow> bytemem" where
  "store_bytes m p bs = (\<lambda>a. if unat (a - p) < length bs then Some (bs ! unat (a - p)) else m a)"

definition store_sized :: "bytemem \<Rightarrow> nat \<Rightarrow> ptr \<Rightarrow> u64 \<Rightarrow> bytemem" where
  "store_sized m sz p val =
     (if sz \<in> {1, 2, 4, 8} then store_bytes m p (to_le sz val) else m)"

definition BPF_CORE_WRITE_BITFIELD :: "bytemem \<Rightarrow> ptr \<Rightarrow> field_relo \<Rightarrow> u64 \<Rightarrow> bytemem" where
  "BPF_CORE_WRITE_BITFIELD m s r nval =
     (let p = s + of_nat (fr_byte_offset r);
          rpad = fr_rshift r - fr_lshift r;
          val = load_sized m (fr_byte_size r) p;
          mask = drop_bit (fr_lshift r) (push_bit (fr_rshift r) (- 1));
          val = (val AND NOT mask) OR (push_bit rpad nval AND mask)
      in store_sized m (fr_byte_size r) p val)"

section \<open>Macro arguments\<close>

text \<open>\<^verbatim>\<open>___narg\<close> counts up to ten arguments by the position of a number behind them; \<^verbatim>\<open>___empty\<close>
  tells no argument (\<^verbatim>\<open>0\<close>) from some (\<^verbatim>\<open>N\<close>); \<^verbatim>\<open>___last\<close>, \<^verbatim>\<open>___nolast\<close> and \<^verbatim>\<open>___arrow\<close> have one macro
  per number of arguments.\<close>

definition core_nth :: "'a list \<Rightarrow> 'a option" where
  "core_nth xs = (if 11 < length xs then Some (xs ! 11) else None)"

definition core_narg :: "nat list \<Rightarrow> nat option" where
  "core_narg args = core_nth (0 # args @ [10, 9, 8, 7, 6, 5, 4, 3, 2, 1, 0])"

definition core_empty :: "bool list \<Rightarrow> bool option" where
  "core_empty args = core_nth (False # args @ replicate 10 False @ [True])"

definition core_last :: "'a list \<Rightarrow> 'a option" where
  "core_last xs = (if 1 \<le> length xs \<and> length xs \<le> 10 then Some (last xs) else None)"

definition core_nolast :: "'a list \<Rightarrow> 'a list option" where
  "core_nolast xs = (if 2 \<le> length xs \<and> length xs \<le> 10 then Some (butlast xs) else None)"

datatype 'a access = Base 'a | Arrow "'a access" 'a

definition core_arrow :: "'a list \<Rightarrow> 'a access option" where
  "core_arrow xs =
     (if 1 \<le> length xs \<and> length xs \<le> 10 then Some (foldl Arrow (Base (hd xs)) (tl xs)) else None)"

section \<open>Chasing pointers\<close>

text \<open>
  An accessor is the name of a field. Where it is in its structure depends on the structure's
  layout: the compiler knows the one of its own headers, the loader the one of the running kernel.
  \<^verbatim>\<open>&((T * )p)->f\<close> is an address expression; compiled as it stands it uses the compiler's layout,
  inside \<^verbatim>\<open>__builtin_preserve_access_index\<close> the offset in the instruction is replaced by the one of
  the running kernel when the program is loaded.
\<close>

type_synonym 'f layout = "'f \<Rightarrow> nat"

datatype 'f field_addr = Field_Addr ptr 'f

fun addr_in :: "'f layout \<Rightarrow> 'f field_addr \<Rightarrow> ptr" where
  "addr_in lay (Field_Addr p f) = p + of_nat (lay f)"

text \<open>One \<^verbatim>\<open>___read\<close> of a pointer, and the recursion that leaves the last pointer in \<^verbatim>\<open>__t\<close>.\<close>

type_synonym 'f reader = "nat \<Rightarrow> 'f field_addr \<Rightarrow> int \<times> bytes"

definition read_ptr :: "'f reader \<Rightarrow> ptr \<Rightarrow> 'f \<Rightarrow> ptr" where
  "read_ptr fn t accessor = le_word (snd (fn 8 (Field_Addr t accessor)))"

function (sequential) rd_p :: "'f reader \<Rightarrow> ptr \<Rightarrow> 'f list \<Rightarrow> ptr" where
  "rd_p fn src [] = src"
| "rd_p fn src [a] = read_ptr fn src a"
| "rd_p fn src args = (let t = rd_p fn src (butlast args) in read_ptr fn t (last args))"
  by pat_completeness auto
termination by (relation "measure (\<lambda>(fn, src, args). length args)") auto

declare rd_p.simps [simp del]

text \<open>\<^verbatim>\<open>___core_read\<close>: with one accessor a single read of \<^verbatim>\<open>fn\<close>, with more the pointers first.\<close>

definition core_read :: "('f field_addr \<Rightarrow> 'r) \<Rightarrow> 'f reader \<Rightarrow> ptr \<Rightarrow> 'f \<Rightarrow> 'f list \<Rightarrow> 'r" where
  "core_read fn fn_ptr src a rest =
     (if rest = [] then fn (Field_Addr src a)
      else fn (Field_Addr (rd_p fn_ptr src (butlast (a # rest))) (last rest)))"

text \<open>The relocated readers take the layout of the running kernel (\<open>ker\<close>), on kernel or user memory.
  The plain helpers they wrap are called on the address the compiler computed, in its own layout
  (\<open>loc\<close>).\<close>

definition bpf_core_read :: "'f layout \<Rightarrow> bytemem \<Rightarrow> 'f reader" where
  "bpf_core_read ker m sz src = probe_read m sz (addr_in ker src)"

definition bpf_core_read_user :: "'f layout \<Rightarrow> bytemem \<Rightarrow> 'f reader" where
  "bpf_core_read_user ker um sz src = probe_read um sz (addr_in ker src)"

definition bpf_core_read_str :: "'f layout \<Rightarrow> bytemem \<Rightarrow> bytes \<Rightarrow> 'f field_addr \<Rightarrow> int \<times> bytes" where
  "bpf_core_read_str ker m dst src = probe_read_str m dst (addr_in ker src)"

definition bpf_core_read_user_str :: "'f layout \<Rightarrow> bytemem \<Rightarrow> bytes \<Rightarrow> 'f field_addr \<Rightarrow> int \<times> bytes" where
  "bpf_core_read_user_str ker um dst src = probe_read_str um dst (addr_in ker src)"

definition plain_read :: "'f layout \<Rightarrow> bytemem \<Rightarrow> 'f reader" where
  "plain_read loc m sz src = probe_read m sz (addr_in loc src)"

definition plain_read_str :: "'f layout \<Rightarrow> bytemem \<Rightarrow> bytes \<Rightarrow> 'f field_addr \<Rightarrow> int \<times> bytes" where
  "plain_read_str loc m dst src = probe_read_str m dst (addr_in loc src)"

definition BPF_CORE_READ_INTO :: "'f layout \<Rightarrow> bytemem \<Rightarrow> nat \<Rightarrow> ptr \<Rightarrow> 'f \<Rightarrow> 'f list \<Rightarrow> int \<times> bytes" where
  "BPF_CORE_READ_INTO ker m sz = core_read (bpf_core_read ker m sz) (bpf_core_read ker m)"

definition BPF_CORE_READ_USER_INTO :: "'f layout \<Rightarrow> bytemem \<Rightarrow> nat \<Rightarrow> ptr \<Rightarrow> 'f \<Rightarrow> 'f list \<Rightarrow> int \<times> bytes" where
  "BPF_CORE_READ_USER_INTO ker um sz = core_read (bpf_core_read_user ker um sz) (bpf_core_read_user ker um)"

definition BPF_PROBE_READ_INTO :: "'f layout \<Rightarrow> bytemem \<Rightarrow> nat \<Rightarrow> ptr \<Rightarrow> 'f \<Rightarrow> 'f list \<Rightarrow> int \<times> bytes" where
  "BPF_PROBE_READ_INTO loc m sz = core_read (plain_read loc m sz) (plain_read loc m)"

definition BPF_PROBE_READ_USER_INTO :: "'f layout \<Rightarrow> bytemem \<Rightarrow> nat \<Rightarrow> ptr \<Rightarrow> 'f \<Rightarrow> 'f list \<Rightarrow> int \<times> bytes" where
  "BPF_PROBE_READ_USER_INTO loc um sz = core_read (plain_read loc um sz) (plain_read loc um)"

definition BPF_CORE_READ_STR_INTO ::
  "'f layout \<Rightarrow> bytemem \<Rightarrow> bytes \<Rightarrow> ptr \<Rightarrow> 'f \<Rightarrow> 'f list \<Rightarrow> int \<times> bytes" where
  "BPF_CORE_READ_STR_INTO ker m dst = core_read (bpf_core_read_str ker m dst) (bpf_core_read ker m)"

definition BPF_CORE_READ_USER_STR_INTO ::
  "'f layout \<Rightarrow> bytemem \<Rightarrow> bytes \<Rightarrow> ptr \<Rightarrow> 'f \<Rightarrow> 'f list \<Rightarrow> int \<times> bytes" where
  "BPF_CORE_READ_USER_STR_INTO ker um dst = core_read (bpf_core_read_user_str ker um dst) (bpf_core_read_user ker um)"

definition BPF_PROBE_READ_STR_INTO ::
  "'f layout \<Rightarrow> bytemem \<Rightarrow> bytes \<Rightarrow> ptr \<Rightarrow> 'f \<Rightarrow> 'f list \<Rightarrow> int \<times> bytes" where
  "BPF_PROBE_READ_STR_INTO loc m dst = core_read (plain_read_str loc m dst) (plain_read loc m)"

definition BPF_PROBE_READ_USER_STR_INTO ::
  "'f layout \<Rightarrow> bytemem \<Rightarrow> bytes \<Rightarrow> ptr \<Rightarrow> 'f \<Rightarrow> 'f list \<Rightarrow> int \<times> bytes" where
  "BPF_PROBE_READ_USER_STR_INTO loc um dst = core_read (plain_read_str loc um dst) (plain_read loc um)"

text \<open>The value forms: the storage the read fills.\<close>

definition BPF_CORE_READ :: "'f layout \<Rightarrow> bytemem \<Rightarrow> nat \<Rightarrow> ptr \<Rightarrow> 'f \<Rightarrow> 'f list \<Rightarrow> bytes" where
  "BPF_CORE_READ ker m sz src a rest = snd (BPF_CORE_READ_INTO ker m sz src a rest)"

definition BPF_CORE_READ_USER :: "'f layout \<Rightarrow> bytemem \<Rightarrow> nat \<Rightarrow> ptr \<Rightarrow> 'f \<Rightarrow> 'f list \<Rightarrow> bytes" where
  "BPF_CORE_READ_USER ker um sz src a rest = snd (BPF_CORE_READ_USER_INTO ker um sz src a rest)"

definition BPF_PROBE_READ :: "'f layout \<Rightarrow> bytemem \<Rightarrow> nat \<Rightarrow> ptr \<Rightarrow> 'f \<Rightarrow> 'f list \<Rightarrow> bytes" where
  "BPF_PROBE_READ loc m sz src a rest = snd (BPF_PROBE_READ_INTO loc m sz src a rest)"

definition BPF_PROBE_READ_USER :: "'f layout \<Rightarrow> bytemem \<Rightarrow> nat \<Rightarrow> ptr \<Rightarrow> 'f \<Rightarrow> 'f list \<Rightarrow> bytes" where
  "BPF_PROBE_READ_USER loc um sz src a rest = snd (BPF_PROBE_READ_USER_INTO loc um sz src a rest)"

section \<open>Facts about bit-fields\<close>

text \<open>What the loader promises of the relocation of a field of \<open>w\<close> bits at bit \<open>pos\<close> of its storage.\<close>

definition field_at :: "field_relo \<Rightarrow> nat \<Rightarrow> nat \<Rightarrow> bool" where
  "field_at r pos w \<longleftrightarrow>
     fr_byte_size r \<in> {1, 2, 4, 8} \<and> 0 < w \<and> pos + w \<le> 8 * fr_byte_size r \<and>
     fr_lshift r = 64 - (pos + w) \<and> fr_rshift r = 64 - w"

lemma le_word_zeros: "le_word (replicate n 0) = (0 :: u64)"
  by (induction n) simp_all

lemma load_sized_le:
  "sz \<in> {1, 2, 4, 8} \<Longrightarrow> load_sized m sz p = le_word (load_bytes m sz p)"
  by (rule bit_word_eqI)
    (auto simp: load_sized_def load8_def load16_def load32_def load64_def load_bytes_def bit_simps bit_le_word
      dest: bit_imp_le_length)

lemma load_bytes_store:
  assumes "length bs \<le> 2 ^ 64"
  shows "load_bytes (store_bytes m p bs) (length bs) p = bs"
proof -
  have "unat (of_nat i :: u64) = i" if "i < length bs" for i
    using that assms by (simp add: unat_of_nat take_bit_nat_eq_self)
  then have "mem_at (store_bytes m p bs) p bs"
    by (simp add: mem_at_def store_bytes_def)
  then show ?thesis by (simp add: load_bytes_mem_at)
qed

lemma load_sized_store:
  assumes "sz \<in> {1, 2, 4, 8}"
  shows "load_sized (store_sized m sz p v) sz p = take_bit (8 * sz) v"
proof -
  have "length (to_le sz v) = sz" by simp
  then have "load_bytes (store_bytes m p (to_le sz v)) sz p = to_le sz v"
    using load_bytes_store [of "to_le sz v" m p] assms by auto
  then show ?thesis
    using assms by (simp add: load_sized_le store_sized_def)
      (rule bit_word_eqI; auto simp: bit_le_word bit_simps to_le_def dest: bit_imp_le_length)
qed

text \<open>Extraction: shifting left by the bits above the field and back right.\<close>

lemma extract_unsigned:
  assumes "0 < w" "pos + w \<le> 64"
  shows "drop_bit (64 - w) (push_bit (64 - (pos + w)) (v :: u64)) = take_bit w (drop_bit pos v)"
proof (rule bit_word_eqI)
  fix n assume "n < LENGTH(64)"
  have "64 - w + n - (64 - (pos + w)) = pos + n" "64 - w + n \<ge> 64 - (pos + w)" using assms by simp_all
  then show "bit (drop_bit (64 - w) (push_bit (64 - (pos + w)) v)) n = bit (take_bit w (drop_bit pos v)) n"
    using assms by (auto simp: bit_simps add.commute [of n pos])
qed

lemma extract_signed:
  assumes "0 < w" "pos + w \<le> 64"
  shows "signed_drop_bit (64 - w) (push_bit (64 - (pos + w)) (v :: u64)) =
    signed_take_bit (w - 1) (drop_bit pos v)"
proof (rule bit_word_eqI)
  fix n assume n: "n < LENGTH(64)"
  show "bit (signed_drop_bit (64 - w) (push_bit (64 - (pos + w)) v)) n =
      bit (signed_take_bit (w - 1) (drop_bit pos v)) n"
  proof (cases "n < w")
    case True
    then have e: "64 - w + n - (64 - (pos + w)) = pos + n" "64 - (pos + w) \<le> 64 - w + n" "min (w - 1) n = n"
      "64 - w + n < 64" using assms by auto
    then show ?thesis
      using True assms n by (auto simp: bit_simps bit_signed_drop_bit_iff) (use e in \<open>auto simp: min_def add.commute [of n pos]\<close>)
  next
    case False
    then have e: "63 - (64 - (pos + w)) = pos + (w - 1)" "64 - (pos + w) \<le> 63" "min n (w - 1) = w - 1"
      "64 - (64 - w) \<le> n" using assms by auto
    show ?thesis using False assms n e by (auto simp: bit_simps bit_signed_drop_bit_iff)
  qed
qed

lemma field_value:
  assumes "field_at r pos w"
  shows "(let v = push_bit (fr_lshift r) (x :: u64)
          in if fr_signed r then signed_drop_bit (fr_rshift r) v else drop_bit (fr_rshift r) v) =
    (if fr_signed r then signed_take_bit (w - 1) (drop_bit pos x) else take_bit w (drop_bit pos x))"
  using assms extract_unsigned [of w pos x] extract_signed [of w pos x]
  by (auto simp: field_at_def)

text \<open>The value a write stores: the field's bits from the new value, the others kept.\<close>

lemma write_bits:
  assumes "0 < w" "pos + w \<le> 64" "n < 64"
  shows "bit ((old AND NOT (drop_bit (64 - (pos + w)) (push_bit (64 - w) (- 1)))) OR
      (push_bit (64 - w - (64 - (pos + w))) nv AND drop_bit (64 - (pos + w)) (push_bit (64 - w) (- 1)))) n \<longleftrightarrow>
    (if pos \<le> n \<and> n < pos + w then bit (nv :: u64) (n - pos) else bit (old :: u64) n)"
proof -
  have mask: "bit (drop_bit (64 - (pos + w)) (push_bit (64 - w) (- 1 :: u64))) n \<longleftrightarrow> pos \<le> n \<and> n < pos + w"
    using assms by (auto simp: bit_simps)
  have "64 - w - (64 - (pos + w)) = pos" using assms by simp
  then show ?thesis
    using assms mask by (simp add: bit_simps) blast
qed

lemma core_write_load:
  assumes "field_at r pos w" "n < 64"
  shows "bit (load_sized (BPF_CORE_WRITE_BITFIELD m s r nv) (fr_byte_size r) (s + of_nat (fr_byte_offset r))) n \<longleftrightarrow>
    (if pos \<le> n \<and> n < pos + w then bit nv (n - pos)
     else bit (load_sized m (fr_byte_size r) (s + of_nat (fr_byte_offset r))) n)"
proof -
  let ?p = "s + of_nat (fr_byte_offset r)"
  have sz: "fr_byte_size r \<in> {1, 2, 4, 8}" and w: "0 < w" "pos + w \<le> 8 * fr_byte_size r" "pos + w \<le> 64"
    using assms(1) by (auto simp: field_at_def)
  have old: "bit (load_sized m (fr_byte_size r) ?p) n \<Longrightarrow> n < 8 * fr_byte_size r"
    using sz by (auto simp: load_sized_le bit_le_word)
  have shifts: "fr_lshift r = 64 - (pos + w)" "fr_rshift r = 64 - w" using assms(1) by (simp_all add: field_at_def)
  show ?thesis
    unfolding BPF_CORE_WRITE_BITFIELD_def Let_def load_sized_store [OF sz] shifts bit_take_bit_iff
      write_bits [OF w(1,3) assms(2)]
    using old w(2) by auto
qed

lemma store_sized_outside: "sz \<le> unat (a - p) \<Longrightarrow> store_sized m sz p v a = m a"
  by (simp add: store_sized_def store_bytes_def)

text \<open>C26: Reading back a bit-field that was written gives the low bits of the value, sign-extended for a
  signed field; the other bits of its storage and all other memory are as before.\<close>

theorem core_bitfield_roundtrip:
  assumes "field_at r pos w"
  shows "BPF_CORE_READ_BITFIELD (BPF_CORE_WRITE_BITFIELD m s r nv) s r =
      (if fr_signed r then signed_take_bit (w - 1) nv else take_bit w nv) \<and>
    (\<forall>n < 64. n < pos \<or> pos + w \<le> n \<longrightarrow>
       bit (load_sized (BPF_CORE_WRITE_BITFIELD m s r nv) (fr_byte_size r) (s + of_nat (fr_byte_offset r))) n =
       bit (load_sized m (fr_byte_size r) (s + of_nat (fr_byte_offset r))) n) \<and>
    (\<forall>a. fr_byte_size r \<le> unat (a - (s + of_nat (fr_byte_offset r))) \<longrightarrow>
       BPF_CORE_WRITE_BITFIELD m s r nv a = m a)"
proof -
  let ?m = "BPF_CORE_WRITE_BITFIELD m s r nv"
  let ?x = "load_sized ?m (fr_byte_size r) (s + of_nat (fr_byte_offset r))"
  have w: "0 < w" "pos + w \<le> 64" using assms by (auto simp: field_at_def)
  have low: "take_bit w (drop_bit pos ?x) = take_bit w nv"
    by (rule bit_word_eqI) (use w in \<open>auto simp: bit_simps core_write_load [OF assms]\<close>)
  have sign: "signed_take_bit (w - 1) v = signed_take_bit (w - 1) (take_bit w v)" for v :: u64
    by (rule bit_word_eqI) (use w in \<open>auto simp: bit_simps min_def\<close>)
  have "signed_take_bit (w - 1) (drop_bit pos ?x) = signed_take_bit (w - 1) nv"
    using low sign by metis
  moreover have "BPF_CORE_READ_BITFIELD ?m s r =
      (if fr_signed r then signed_take_bit (w - 1) (drop_bit pos ?x) else take_bit w (drop_bit pos ?x))"
    unfolding BPF_CORE_READ_BITFIELD_def field_value [OF assms, symmetric] by (simp only: Let_def)
  moreover have "?m a = m a" if "fr_byte_size r \<le> unat (a - (s + of_nat (fr_byte_offset r)))" for a
    using that by (simp only: BPF_CORE_WRITE_BITFIELD_def Let_def store_sized_outside)
  ultimately show ?thesis
    using low by (auto simp: core_write_load [OF assms])
qed

theorem core_bitfield_roundtrip_witness:
  "BPF_CORE_READ_BITFIELD (BPF_CORE_WRITE_BITFIELD (\<lambda>_. Some 255) 4096
     \<lparr>fr_byte_offset = 2, fr_byte_size = 1, fr_signed = False, fr_lshift = 58, fr_rshift = 61\<rparr> 5) 4096
     \<lparr>fr_byte_offset = 2, fr_byte_size = 1, fr_signed = False, fr_lshift = 58, fr_rshift = 61\<rparr> = 5"
proof -
  have "field_at \<lparr>fr_byte_offset = 2, fr_byte_size = 1, fr_signed = False, fr_lshift = 58, fr_rshift = 61\<rparr> 3 3"
    by (simp add: field_at_def)
  from core_bitfield_roundtrip [OF this, of "\<lambda>_. Some 255" 4096 5] show ?thesis
    by (simp add: take_bit_eq_mod)
qed

text \<open>C27: Where the storage of the field can be read, the probing form and the direct form of the bit-field
  read are the same on a little-endian target: the \<open>w\<close> bits at \<open>pos\<close> of the storage, sign-extended
  for a signed field. Where it cannot, the probing form gives 0.\<close>

theorem core_bitfield_reads_agree:
  assumes "field_at r pos w"
  shows "BPF_CORE_READ_BITFIELD_PROBED False m s r = BPF_CORE_READ_BITFIELD m s r \<and>
    BPF_CORE_READ_BITFIELD m s r =
      (let x = load_sized m (fr_byte_size r) (s + of_nat (fr_byte_offset r))
       in if fr_signed r then signed_take_bit (w - 1) (drop_bit pos x) else take_bit w (drop_bit pos x)) \<and>
    (m (s + of_nat (fr_byte_offset r)) = None \<longrightarrow> BPF_CORE_READ_BITFIELD_PROBED False m s r = 0)"
proof -
  let ?p = "s + of_nat (fr_byte_offset r)"
  have sz: "fr_byte_size r \<in> {1, 2, 4, 8}" using assms by (simp add: field_at_def)
  then have le8: "fr_byte_size r \<le> 8" by auto
  have pad: "le_word (overwrite (replicate 8 0) bs) = (le_word bs :: u64)" if "length bs \<le> 8" for bs
    using that by (intro bit_word_eqI) (auto simp: bit_le_word overwrite_def nth_append)
  have val: "val_of False (CORE_BITFIELD_PROBE_READ False m s r) = load_sized m (fr_byte_size r) ?p"
    using sz le8 by (simp add: val_of_def CORE_BITFIELD_PROBE_READ_def Let_def pad load_sized_le load_bytes_def)
  have eq: "BPF_CORE_READ_BITFIELD_PROBED False m s r = BPF_CORE_READ_BITFIELD m s r"
    unfolding BPF_CORE_READ_BITFIELD_PROBED_def BPF_CORE_READ_BITFIELD_def val Let_def ..
  have "load_sized m (fr_byte_size r) ?p = 0" if "m ?p = None"
    using that sz probe_read_fault [of m ?p "fr_byte_size r"]
    by (auto simp: load_sized_le load_bytes_def le_word_zeros)
  then have "BPF_CORE_READ_BITFIELD m s r = 0" if "m ?p = None"
    using that by (simp add: BPF_CORE_READ_BITFIELD_def Let_def signed_drop_bit_0)
  then show ?thesis
    unfolding eq using field_value [OF assms, of "load_sized m (fr_byte_size r) ?p"]
    by (simp add: BPF_CORE_READ_BITFIELD_def Let_def)
qed

theorem core_bitfield_reads_agree_witness:
  "BPF_CORE_READ_BITFIELD_PROBED False (\<lambda>_. Some 165) 4096
     \<lparr>fr_byte_offset = 0, fr_byte_size = 1, fr_signed = False, fr_lshift = 56, fr_rshift = 60\<rparr> = 10"
proof -
  have "field_at \<lparr>fr_byte_offset = 0, fr_byte_size = 1, fr_signed = False, fr_lshift = 56, fr_rshift = 60\<rparr> 4 4"
    by (simp add: field_at_def)
  moreover have "load_sized (\<lambda>_. Some 165) 1 4096 = 165" by code_simp
  ultimately show ?thesis
    using core_bitfield_reads_agree [of "\<lparr>fr_byte_offset = 0, fr_byte_size = 1, fr_signed = False,
      fr_lshift = 56, fr_rshift = 60\<rparr>" 4 4 "\<lambda>_. Some 165" 4096]
    by (simp add: take_bit_eq_mod drop_bit_eq_div)
qed

section \<open>Facts about the accessor chain\<close>

lemma core_narg_length:
  assumes "length args \<le> 10"
  shows "core_narg args = Some (length args)"
proof -
  have down: "[10, 9, 8, 7, 6, 5, 4, 3, 2, 1, 0] = map (\<lambda>i. 10 - i) [0..<11]"
    by (simp add: upt_rec)
  have "(0 # args @ map (\<lambda>i. 10 - i) [0..<11]) ! 11 = length args"
    using assms by (simp add: nth_append)
  then show ?thesis using assms by (simp add: core_narg_def core_nth_def flip: down)
qed

lemma core_empty_iff:
  assumes "length args \<le> 10"
  shows "core_empty args = Some (args = [])"
proof (cases args)
  case (Cons x xs)
  then have "(False # args @ replicate 10 False @ [True]) ! 11 = False"
    using assms by (simp add: nth_append)
  then show ?thesis using Cons assms by (simp add: core_empty_def core_nth_def)
qed (simp add: core_empty_def core_nth_def nth_append)

text \<open>The argument macros do what their names say for up to ten arguments: they count, tell whether
  there is none, split off the last, and build the access path whose base is the first.\<close>

theorem core_argument_macros:
  assumes "length args \<le> 10"
  shows "core_narg args = Some (length args) \<and>
    core_empty flags = (if length flags \<le> 10 then Some (flags = []) else core_empty flags) \<and>
    (args \<noteq> [] \<longrightarrow> core_last args = Some (last args) \<and>
       core_arrow args = Some (foldl Arrow (Base (hd args)) (tl args))) \<and>
    (2 \<le> length args \<longrightarrow> (\<exists>xs x. core_nolast args = Some xs \<and> core_last args = Some x \<and> args = xs @ [x]))"
  using assms core_narg_length [OF assms] core_empty_iff [of flags]
  by (cases args rule: rev_cases) (auto simp: core_last_def core_nolast_def core_arrow_def Suc_le_eq)

theorem core_argument_macros_witness:
  "core_narg [7, 8, 9] = Some 3 \<and> core_last [7, 8, 9 :: nat] = Some 9"
  using core_argument_macros [of "[7, 8, 9]" "[]"] by simp

text \<open>The chain as the comment of \<^verbatim>\<open>BPF_CORE_READ\<close> describes it, one dereference after the other.\<close>

definition deref_chain :: "'f layout \<Rightarrow> bytemem \<Rightarrow> ptr \<Rightarrow> 'f list \<Rightarrow> ptr" where
  "deref_chain lay m = foldl (\<lambda>t a. load64 m (t + of_nat (lay a)))"

lemma rd_p_chain: "rd_p (\<lambda>sz x. probe_read m sz (addr_in lay x)) src as = deref_chain lay m src as"
proof (induction as arbitrary: src rule: rev_induct)
  case (snoc a as)
  let ?fn = "\<lambda>sz x. probe_read m sz (addr_in lay x)"
  have "rd_p ?fn src (as @ [a]) = read_ptr ?fn (rd_p ?fn src as) a"
    by (cases as; cases "tl as") (auto simp: rd_p.simps Let_def butlast_append)
  then show ?case
    using snoc.IH by (simp add: deref_chain_def read_ptr_def load64_def)
qed (simp add: rd_p.simps deref_chain_def)

lemma core_read_chain:
  "core_read fn (\<lambda>sz x. probe_read m sz (addr_in lay x)) src a rest =
     fn (Field_Addr (deref_chain lay m src (butlast (a # rest))) (last (a # rest)))"
  by (simp add: core_read_def rd_p_chain) (simp add: deref_chain_def)

lemma reader_eqs:
  "bpf_core_read ker m = (\<lambda>sz x. probe_read m sz (addr_in ker x))"
  "bpf_core_read_user ker m = (\<lambda>sz x. probe_read m sz (addr_in ker x))"
  "plain_read ker m = (\<lambda>sz x. probe_read m sz (addr_in ker x))"
  "bpf_core_read_str ker m dst = (\<lambda>x. probe_read_str m dst (addr_in ker x))"
  "bpf_core_read_user_str ker m dst = (\<lambda>x. probe_read_str m dst (addr_in ker x))"
  "plain_read_str ker m dst = (\<lambda>x. probe_read_str m dst (addr_in ker x))"
  by (simp_all add: fun_eq_iff bpf_core_read_def bpf_core_read_user_def plain_read_def
      bpf_core_read_str_def bpf_core_read_user_str_def plain_read_str_def)

lemma read_forms:
  fixes lay :: "'f layout"
  defines "at \<equiv> \<lambda>m src a rest. deref_chain lay m src (butlast (a # rest)) + of_nat (lay (last (a # rest)))"
  shows "BPF_CORE_READ_INTO lay m sz src a rest = probe_read m sz (at m src a rest)"
    "BPF_CORE_READ_USER_INTO lay m sz src a rest = probe_read m sz (at m src a rest)"
    "BPF_PROBE_READ_INTO lay m sz src a rest = probe_read m sz (at m src a rest)"
    "BPF_PROBE_READ_USER_INTO lay m sz src a rest = probe_read m sz (at m src a rest)"
    "BPF_CORE_READ_STR_INTO lay m dst src a rest = probe_read_str m dst (at m src a rest)"
    "BPF_CORE_READ_USER_STR_INTO lay m dst src a rest = probe_read_str m dst (at m src a rest)"
    "BPF_PROBE_READ_STR_INTO lay m dst src a rest = probe_read_str m dst (at m src a rest)"
    "BPF_PROBE_READ_USER_STR_INTO lay m dst src a rest = probe_read_str m dst (at m src a rest)"
  by (simp_all only: BPF_CORE_READ_INTO_def BPF_CORE_READ_USER_INTO_def BPF_PROBE_READ_INTO_def
      BPF_PROBE_READ_USER_INTO_def BPF_CORE_READ_STR_INTO_def BPF_CORE_READ_USER_STR_INTO_def
      BPF_PROBE_READ_STR_INTO_def BPF_PROBE_READ_USER_STR_INTO_def reader_eqs core_read_chain
      addr_in.simps at_def)

text \<open>Objects by the names of their fields, without offsets: what the field of the object at a pointer
  holds, if it is there; that memory has them in some layout; and a path through pointer fields.\<close>

type_synonym 'f objects = "ptr \<Rightarrow> 'f \<Rightarrow> bytes option"

definition laid_out :: "'f layout \<Rightarrow> 'f objects \<Rightarrow> bytemem \<Rightarrow> bool" where
  "laid_out lay obs m \<longleftrightarrow> (\<forall>p f bs. obs p f = Some bs \<longrightarrow> mem_at m (p + of_nat (lay f)) bs)"

fun follow :: "'f objects \<Rightarrow> ptr \<Rightarrow> 'f list \<Rightarrow> ptr option" where
  "follow obs p [] = Some p"
| "follow obs p (f # fs) =
     (case obs p f of
        None \<Rightarrow> None
      | Some bs \<Rightarrow> if length bs = 8 then follow obs (le_word bs) fs else None)"

lemma deref_chain_follow:
  assumes "laid_out lay obs m" "follow obs p fs = Some q"
  shows "deref_chain lay m p fs = q"
  using assms(2)
proof (induction fs arbitrary: p)
  case (Cons f fs)
  then obtain bs where bs: "obs p f = Some bs" "length bs = 8" "follow obs (le_word bs) fs = Some q"
    by (auto split: option.splits if_splits)
  then have "probe_read m 8 (p + of_nat (lay f)) = (0, bs)"
    using assms(1) probe_read_mem_at [of m "p + of_nat (lay f)" bs] by (auto simp: laid_out_def)
  then have "load64 m (p + of_nat (lay f)) = le_word bs" by (simp add: load64_def)
  then show ?case using Cons.IH [OF bs(3)] by (simp add: deref_chain_def)
qed (simp add: deref_chain_def)

lemma deref_chain_cong:
  "(\<And>f. f \<in> set fs \<Longrightarrow> loc f = ker f) \<Longrightarrow> deref_chain loc m p fs = deref_chain ker m p fs"
  by (induction fs arbitrary: p) (simp_all add: deref_chain_def)

text \<open>C24: Let memory hold objects in the layout of the running kernel, and let the accessors lead from the
  source through pointer fields to a field with the bytes \<open>bs\<close>. Then the relocated reads, of kernel
  and user memory, return 0 and these bytes, whatever layout the program was compiled for, and the
  string form reads from the place of the field. The plain forms do the same if the compiler's layout
  has the accessors of the chain at the kernel's offsets; in general they read where the chain leads in
  the compiler's layout, so that with one accessor they miss the field by the distance it has moved.\<close>

theorem core_read_follows_chain:
  assumes "laid_out ker obs m" "follow obs src (butlast (a # rest)) = Some q"
    and "obs q (last (a # rest)) = Some bs"
  shows "BPF_CORE_READ_INTO ker m (length bs) src a rest = (0, bs) \<and>
    BPF_CORE_READ_USER_INTO ker m (length bs) src a rest = (0, bs) \<and>
    BPF_CORE_READ ker m (length bs) src a rest = bs \<and>
    BPF_CORE_READ_STR_INTO ker m dst src a rest = probe_read_str m dst (q + of_nat (ker (last (a # rest)))) \<and>
    ((\<forall>f \<in> set (a # rest). loc f = ker f) \<longrightarrow>
       BPF_PROBE_READ_INTO loc m (length bs) src a rest = (0, bs) \<and>
       BPF_PROBE_READ_USER_INTO loc m (length bs) src a rest = (0, bs) \<and>
       BPF_PROBE_READ_STR_INTO loc m dst src a rest =
         probe_read_str m dst (q + of_nat (ker (last (a # rest))))) \<and>
    BPF_PROBE_READ_INTO loc m (length bs) src a rest =
      probe_read m (length bs)
        (foldl (\<lambda>t f. load64 m (t + of_nat (loc f))) src (butlast (a # rest)) + of_nat (loc (last (a # rest)))) \<and>
    (rest = [] \<longrightarrow> BPF_PROBE_READ_INTO loc m (length bs) src a rest =
       probe_read m (length bs) (q + of_nat (ker a) + (of_nat (loc a) - of_nat (ker a))))"
proof -
  let ?z = "last (a # rest)"
  have q: "deref_chain ker m src (butlast (a # rest)) = q" by (rule deref_chain_follow [OF assms(1,2)])
  have bs: "probe_read m (length bs) (q + of_nat (ker ?z)) = (0, bs)"
    using assms(1,3) by (intro probe_read_mem_at) (simp add: laid_out_def)
  have loc: "deref_chain loc m src (butlast (a # rest)) = q \<and> loc ?z = ker ?z"
    if "\<forall>f \<in> set (a # rest). loc f = ker f"
    using that q deref_chain_cong [of "butlast (a # rest)" loc ker m src] last_in_set [of "a # rest"]
    by (metis in_set_butlastD list.distinct(1))
  have one: "q = src" if "rest = []" using assms(2) that by simp
  show ?thesis
    unfolding read_forms BPF_CORE_READ_def q bs using loc bs one
    by (auto simp: deref_chain_def)
qed

text \<open>A kernel that has moved a field from offset 8 to 16: the relocated read returns its byte 7, the
  plain one the byte at the old offset.\<close>

theorem core_read_follows_chain_witness:
  "let m = (\<lambda>a. if a = 4112 then Some 7 else if a = 4104 then Some 9 else None)
   in BPF_CORE_READ_INTO (\<lambda>_. 16) m 1 4096 () [] = (0, [7]) \<and>
      BPF_PROBE_READ_INTO (\<lambda>_. 8) m 1 4096 () [] = (0, [9])"
proof -
  define m :: bytemem where "m = (\<lambda>a. if a = 4112 then Some 7 else if a = 4104 then Some 9 else None)"
  define obs :: "unit objects" where "obs = (\<lambda>p f. if p = 4096 then Some [7] else None)"
  have "laid_out (\<lambda>_. 16) obs m" by (simp add: laid_out_def obs_def m_def mem_at_def)
  moreover have "probe_read m 1 4104 = (0, [9])" by (simp add: probe_read_def m_def)
  ultimately show ?thesis
    using core_read_follows_chain [of "\<lambda>_. 16" obs m 4096 "()" "[]" 4096 "[7]" "[]" "\<lambda>_. 8"]
    by (simp add: obs_def flip: m_def)
qed

text \<open>With the first page unmapped a null pointer stays one.\<close>

lemma low_address:
  assumes "\<forall>x. unat x < 4096 \<longrightarrow> m x = None" and "n < 4096"
  shows "m (of_nat n :: u64) = None"
  using assms by (simp add: unat_of_nat take_bit_nat_eq_self)

lemma deref_chain_null:
  assumes "\<forall>x. unat x < 4096 \<longrightarrow> m x = None" and "\<forall>a \<in> set as. ker a < 4096"
  shows "deref_chain ker m 0 as = 0"
proof -
  have "load64 m (of_nat n) = 0" if "n < 4096" for n
    using low_address [OF assms(1) that] probe_read_fault [of m "of_nat n" 8]
    by (simp add: load64_def le_word_zeros)
  then show ?thesis using assms(2) by (induction as) (simp_all add: deref_chain_def)
qed

lemma probe_read_bad: "fst (probe_read m n p) \<noteq> 0 \<Longrightarrow> snd (probe_read m n p) = replicate n 0"
  by (auto simp: probe_read_def Let_def split: if_splits)

text \<open>C25: Let the first page of memory be unmapped. When the read of one of the pointers of the chain fails,
  and the fields the chain names behind it, the last one included, are at offsets below 4096 of their
  structures, the relocated read of a non-empty field fails with \<open>EFAULT\<close> and leaves zeroes, in the
  value form too, and the string form fails and zeroes its non-empty buffer.\<close>

theorem core_read_broken_chain:
  assumes "\<forall>x. unat x < 4096 \<longrightarrow> m x = None"
    and "a # rest = pre @ b # post @ [z]" and "\<forall>f \<in> set (post @ [z]). ker f < 4096"
    and "fst (probe_read m 8 (deref_chain ker m src pre + of_nat (ker b))) \<noteq> 0"
    and "0 < sz" "dst \<noteq> []"
  shows "BPF_CORE_READ_INTO ker m sz src a rest = (- EFAULT, replicate sz 0) \<and>
    BPF_CORE_READ ker m sz src a rest = replicate sz 0 \<and>
    BPF_CORE_READ_STR_INTO ker m dst src a rest = (- EFAULT, replicate (length dst) 0)"
proof -
  have split: "butlast (a # rest) = pre @ b # post" "last (a # rest) = z" by (simp_all add: assms(2) butlast_append)
  have "load64 m (deref_chain ker m src pre + of_nat (ker b)) = 0"
    using probe_read_bad [OF assms(4)] by (simp add: load64_def le_word_zeros)
  then have "deref_chain ker m src (pre @ b # post) = deref_chain ker m 0 post"
    by (simp add: deref_chain_def)
  then have null: "deref_chain ker m src (pre @ b # post) = 0"
    using deref_chain_null [OF assms(1), of post ker] assms(3) by simp
  have "m (of_nat (ker z)) = None" using low_address [OF assms(1)] assms(3) by simp
  moreover from this have "probe_read_str m dst (of_nat (ker z)) = (- EFAULT, replicate (length dst) 0)"
    using assms(6) by (cases dst) (simp_all add: probe_read_str_def)
  ultimately show ?thesis
    using probe_read_fault [OF _ assms(5), of m "of_nat (ker z)"]
    by (simp only: BPF_CORE_READ_def read_forms split null add_0_left snd_conv)
qed

theorem core_read_broken_chain_witness:
  "BPF_CORE_READ_INTO (\<lambda>n. n) (\<lambda>_. None) 4 4096 8 [16] = (- EFAULT, [0, 0, 0, 0])"
proof -
  have "fst (probe_read (\<lambda>_. None) 8 (4104 :: u64)) \<noteq> 0" by (simp add: probe_read_fault EFAULT_def)
  then show ?thesis
    using core_read_broken_chain [of "\<lambda>_. None" 8 "[16]" "[]" 8 "[]" 16 "\<lambda>n. n" 4096 4 "[0]"]
    by (simp add: numeral_eq_Suc deref_chain_def)
qed

end
