(* ===== verification/Ipt_Module.thy ===== *)
theory Ipt_Module
  imports Ipt_Trace "HOL-Library.Multiset"
begin

text \<open>
  \<^verbatim>\<open>kernel/iptables-trace.c\<close>: the kernel module that attaches three programs to the iptables
  functions through kprobes. The kernel's registration and program calls are parameters (what
  they return may depend on the calls so far); the module's state keeps a log of the calls it
  made, and the resource protocol of those calls is an abstract specification that the log is
  checked against.
\<close>

section \<open>State\<close>

text \<open>The five probe structures, and the calls into the kernel that are recorded.\<close>

datatype probe = Krp_Ipt | Krp_Ip6t | Kp_Ipt | Kp_Ip6t | Kp_Log

datatype kcall =
    Get_Prog string ptr
  | Put_Prog ptr
  | Register probe int
  | Unregister probe

datatype handler = Prehandler_Entry | Prehandler_Trace | Handler_Exit

record kapi =
  bpf_prog_get_type_path :: "string \<Rightarrow> ptr"
  register_result :: "kcall list \<Rightarrow> probe \<Rightarrow> int"

record module =
  bpf_prog_entry_path :: string
  bpf_prog_exit_path :: string
  bpf_prog_trace_path :: string
  version_gte_5_16 :: int
  have_ip6t_do_table :: int
  ipt_bpf_prog_entry :: ptr
  ipt_bpf_prog_exit :: ptr
  ipt_bpf_prog_trace :: ptr
  md_handlers :: "probe \<Rightarrow> handler option"
  md_calls :: "kcall list"

definition MAX_SYMBOL_LEN :: nat where "MAX_SYMBOL_LEN = 64"

fun probe_symbol :: "probe \<Rightarrow> string" where
  "probe_symbol Krp_Ipt = ''ipt_do_table''"
| "probe_symbol Kp_Ipt = ''ipt_do_table''"
| "probe_symbol Krp_Ip6t = ''ip6t_do_table''"
| "probe_symbol Kp_Ip6t = ''ip6t_do_table''"
| "probe_symbol Kp_Log = ''nf_log_trace''"

text \<open>The module as loaded, for its four parameters.\<close>

definition module_loaded :: "string \<Rightarrow> string \<Rightarrow> string \<Rightarrow> int \<Rightarrow> module" where
  "module_loaded entry_path exit_path trace_path version =
     \<lparr>bpf_prog_entry_path = entry_path, bpf_prog_exit_path = exit_path, bpf_prog_trace_path = trace_path,
      version_gte_5_16 = version, have_ip6t_do_table = 0, ipt_bpf_prog_entry = 0, ipt_bpf_prog_exit = 0,
      ipt_bpf_prog_trace = 0, md_handlers = (\<lambda>_. None), md_calls = []\<rparr>"

section \<open>Calls into the kernel\<close>

definition kcall :: "kcall \<Rightarrow> module \<Rightarrow> module" where
  "kcall c m = m\<lparr>md_calls := md_calls m @ [c]\<rparr>"

definition register_probe :: "kapi \<Rightarrow> probe \<Rightarrow> module \<Rightarrow> int \<times> module" where
  "register_probe api p m =
     (let ret = register_result api (md_calls m) p in (ret, kcall (Register p ret) m))"

text \<open>Error pointers are the last 4095 addresses; \<^verbatim>\<open>PTR_ERR_OR_ZERO\<close> is their (negative) value.\<close>

definition ptr_is_err :: "ptr \<Rightarrow> bool" where
  "ptr_is_err p \<longleftrightarrow> p \<ge> - 4095"

definition ptr_err_or_zero :: "ptr \<Rightarrow> int" where
  "ptr_err_or_zero p = (if ptr_is_err p then sint p else 0)"

definition bpf_check_path :: "kapi \<Rightarrow> string \<Rightarrow> module \<Rightarrow> ptr \<times> int \<times> module" where
  "bpf_check_path api path m =
     (let prog = bpf_prog_get_type_path api path
      in (prog, ptr_err_or_zero prog, kcall (Get_Prog path prog) m))"

definition unregister_ip6t_do_tables :: "bool \<Rightarrow> module \<Rightarrow> module" where
  "unregister_ip6t_do_tables is_kretprobe m =
     (if have_ip6t_do_table m = 0 then m
      else if is_kretprobe then kcall (Unregister Krp_Ip6t) m
      else kcall (Unregister Kp_Ip6t) m)"

definition register_ip6t_do_tables :: "kapi \<Rightarrow> bool \<Rightarrow> module \<Rightarrow> int \<times> module" where
  "register_ip6t_do_tables api is_kretprobe m =
     (if have_ip6t_do_table m = 0 then (0, m)
      else if is_kretprobe then register_probe api Krp_Ip6t m
      else register_probe api Kp_Ip6t m)"

section \<open>Handlers\<close>

text \<open>A probe handler runs its program on the registers; the program (\<open>run\<close>, a parameter) has a
  result, which is ignored, and a state of its own. The entry handler then sets the trace bit of
  the packet, the trace handler clears the second argument of the traced function. \<open>traced\<close> is
  the set of packets with the bit; every handler returns 0.\<close>

type_synonym 's prog = "saved_regs \<Rightarrow> 's \<Rightarrow> int \<times> 's"

definition run_bpf_prog_entry :: "'s prog \<Rightarrow> saved_regs \<Rightarrow> 's \<Rightarrow> bool \<times> 's" where
  "run_bpf_prog_entry run regs s = (let (r, s) = run regs s in (r \<noteq> 0, s))"

definition run_bpf_prog_exit :: "'s prog \<Rightarrow> saved_regs \<Rightarrow> 's \<Rightarrow> bool \<times> 's" where
  "run_bpf_prog_exit run regs s = (let (r, s) = run regs s in (r \<noteq> 0, s))"

definition run_bpf_prog_trace :: "'s prog \<Rightarrow> saved_regs \<Rightarrow> 's \<Rightarrow> bool \<times> 's" where
  "run_bpf_prog_trace run regs s = (let (r, s) = run regs s in (r \<noteq> 0, s))"

definition kprobe_prehandler_entry ::
  "'s prog \<Rightarrow> module \<Rightarrow> saved_regs \<Rightarrow> 's \<times> ptr set \<Rightarrow> int \<times> 's \<times> ptr set" where
  "kprobe_prehandler_entry run m regs st =
     (let (s, traced) = st;
          (_, s) = run_bpf_prog_entry run regs s;
          skb = (if version_gte_5_16 m \<noteq> 0 then regs ''si'' else regs ''di'')
      in (0, s, insert skb traced))"

definition kretprobe_handler_exit :: "'s prog \<Rightarrow> saved_regs \<Rightarrow> 's \<Rightarrow> int \<times> 's" where
  "kretprobe_handler_exit run regs s = (let (_, s) = run_bpf_prog_exit run regs s in (0, s))"

definition kprobe_prehandler_trace :: "'s prog \<Rightarrow> saved_regs \<Rightarrow> 's \<Rightarrow> int \<times> saved_regs \<times> 's" where
  "kprobe_prehandler_trace run regs s =
     (let (_, s) = run_bpf_prog_trace run regs s in (0, regs(''si'' := 0), s))"

section \<open>Loading and unloading\<close>

definition L_put_bpf_progs :: "int \<Rightarrow> module \<Rightarrow> int \<times> module" where
  "L_put_bpf_progs ret m =
     (let m = kcall (Put_Prog (ipt_bpf_prog_entry m)) m;
          m = kcall (Put_Prog (ipt_bpf_prog_exit m)) m;
          m = kcall (Put_Prog (ipt_bpf_prog_trace m)) m
      in (ret, m))"

definition L_unregister_kretprobes :: "int \<Rightarrow> module \<Rightarrow> int \<times> module" where
  "L_unregister_kretprobes ret m =
     (let m = kcall (Unregister Krp_Ipt) m;
          m = unregister_ip6t_do_tables True m
      in L_put_bpf_progs ret m)"

text \<open>The three parts of \<^verbatim>\<open>ipt_trace_init\<close>: the programs, the return probes, the entry probes.\<close>

definition init_kprobes :: "kapi \<Rightarrow> module \<Rightarrow> int \<times> module" where
  "init_kprobes api m =
     (let (ret, m) = register_probe api Kp_Ipt m
      in if ret < 0 then L_unregister_kretprobes ret m
         else (let (ret, m) = register_ip6t_do_tables api False m
               in if ret < 0 then L_unregister_kretprobes ret (kcall (Unregister Kp_Ipt) m)
                  else (let (ret, m) = register_probe api Kp_Log m
                        in if ret < 0
                           then L_unregister_kretprobes ret
                                  (unregister_ip6t_do_tables False (kcall (Unregister Kp_Ipt) m))
                           else (0, m))))"

definition init_kretprobes :: "kapi \<Rightarrow> module \<Rightarrow> int \<times> module" where
  "init_kretprobes api m =
     (let (ret, m) = register_probe api Krp_Ipt m
      in if ret < 0 then L_put_bpf_progs ret m
         else (let (ret, m) = register_probe api Krp_Ip6t m
               in if ret < 0 \<and> ret \<noteq> - ENOENT then L_put_bpf_progs ret (kcall (Unregister Krp_Ipt) m)
                  else init_kprobes api (m\<lparr>have_ip6t_do_table := (if ret = 0 then 1 else 0)\<rparr>)))"

definition set_handlers :: "module \<Rightarrow> module" where
  "set_handlers m =
     m\<lparr>md_handlers := (md_handlers m)(Kp_Ipt \<mapsto> Prehandler_Entry, Kp_Ip6t \<mapsto> Prehandler_Entry,
        Kp_Log \<mapsto> Prehandler_Trace, Krp_Ipt \<mapsto> Handler_Exit, Krp_Ip6t \<mapsto> Handler_Exit)\<rparr>"

definition ipt_trace_init :: "kapi \<Rightarrow> module \<Rightarrow> int \<times> module" where
  "ipt_trace_init api m =
     (let (prog, ret, m) = bpf_check_path api (bpf_prog_entry_path m) m;
          m = m\<lparr>ipt_bpf_prog_entry := prog\<rparr>
      in if ret \<noteq> 0 then (ret, m)
         else (let (prog, ret, m) = bpf_check_path api (bpf_prog_exit_path m) m;
                   m = m\<lparr>ipt_bpf_prog_exit := prog\<rparr>
               in if ret \<noteq> 0 then (ret, kcall (Put_Prog (ipt_bpf_prog_entry m)) m)
                  else (let (prog, ret, m) = bpf_check_path api (bpf_prog_trace_path m) m;
                            m = m\<lparr>ipt_bpf_prog_trace := prog\<rparr>
                        in if ret \<noteq> 0
                           then (let m = kcall (Put_Prog (ipt_bpf_prog_entry m)) m
                                 in (ret, kcall (Put_Prog (ipt_bpf_prog_exit m)) m))
                           else init_kretprobes api (set_handlers m))))"

definition ipt_trace_exit :: "module \<Rightarrow> module" where
  "ipt_trace_exit m =
     (let m = kcall (Unregister Kp_Ipt) m;
          m = unregister_ip6t_do_tables False m;
          m = kcall (Unregister Kp_Log) m;
          m = kcall (Unregister Krp_Ipt) m;
          m = unregister_ip6t_do_tables True m
      in snd (L_put_bpf_progs 0 m))"

section \<open>The resource protocol\<close>

text \<open>What the calls promise: a successful registration (0) makes a probe registered, and only a
  registered probe may be unregistered; a program that was got without an error has a reference
  more, and only a reference that is held may be put. \<open>None\<close> is a violation.\<close>

type_synonym held = "probe set \<times> ptr multiset"

fun resource_step :: "kcall \<Rightarrow> held \<Rightarrow> held option" where
  "resource_step (Get_Prog path p) (probes, progs) =
     Some (probes, if ptr_is_err p then progs else add_mset p progs)"
| "resource_step (Put_Prog p) (probes, progs) =
     (if p \<in># progs then Some (probes, progs - {#p#}) else None)"
| "resource_step (Register p ret) (probes, progs) =
     (if p \<in> probes then None else Some (if ret = 0 then insert p probes else probes, progs))"
| "resource_step (Unregister p) (probes, progs) =
     (if p \<in> probes then Some (probes - {p}, progs) else None)"

fun resource_run :: "kcall list \<Rightarrow> held \<Rightarrow> held option" where
  "resource_run [] h = Some h"
| "resource_run (c # cs) h =
     (case resource_step c h of None \<Rightarrow> None | Some h' \<Rightarrow> resource_run cs h')"

abbreviation held_after :: "module \<Rightarrow> held option" where
  "held_after m \<equiv> resource_run (md_calls m) ({}, {#})"

lemma resource_run_append:
  "resource_run (cs @ ds) h = (case resource_run cs h of None \<Rightarrow> None | Some h' \<Rightarrow> resource_run ds h')"
  by (induction cs arbitrary: h) (simp_all split: option.split)

lemma held_after_kcall [simp]:
  "held_after (kcall c m) = (case held_after m of None \<Rightarrow> None | Some h \<Rightarrow> resource_step c h)"
  by (simp add: kcall_def resource_run_append split: option.split)

lemma kcall_fields [simp]:
  "have_ip6t_do_table (kcall c m) = have_ip6t_do_table m"
  "ipt_bpf_prog_entry (kcall c m) = ipt_bpf_prog_entry m"
  "ipt_bpf_prog_exit (kcall c m) = ipt_bpf_prog_exit m"
  "ipt_bpf_prog_trace (kcall c m) = ipt_bpf_prog_trace m"
  "bpf_prog_entry_path (kcall c m) = bpf_prog_entry_path m"
  "bpf_prog_exit_path (kcall c m) = bpf_prog_exit_path m"
  "bpf_prog_trace_path (kcall c m) = bpf_prog_trace_path m"
  "md_handlers (kcall c m) = md_handlers m"
  by (simp_all add: kcall_def)

lemma have_update [simp]: "md_calls (m\<lparr>have_ip6t_do_table := h\<rparr>) = md_calls m"
  by simp

section \<open>Loading and unloading against the protocol\<close>

abbreviation module_progs :: "module \<Rightarrow> ptr multiset" where
  "module_progs m \<equiv> {#ipt_bpf_prog_entry m, ipt_bpf_prog_exit m, ipt_bpf_prog_trace m#}"

definition kretprobes :: "module \<Rightarrow> probe set" where
  "kretprobes m = insert Krp_Ipt (if have_ip6t_do_table m = 0 then {} else {Krp_Ip6t})"

definition all_probes :: "module \<Rightarrow> probe set" where
  "all_probes m = kretprobes m \<union> {Kp_Ipt, Kp_Log} \<union> (if have_ip6t_do_table m = 0 then {} else {Kp_Ip6t})"

lemma put_progs_held:
  assumes "held_after m = Some (P, module_progs m)"
  shows "held_after (snd (L_put_bpf_progs ret m)) = Some (P, {#})"
  using assms by (simp add: L_put_bpf_progs_def Let_def)

lemma fst_put_progs [simp]: "fst (L_put_bpf_progs ret m) = ret"
  by (simp add: L_put_bpf_progs_def Let_def)

lemma unregister_kretprobes_held:
  assumes "held_after m = Some (kretprobes m, module_progs m)"
  shows "held_after (snd (L_unregister_kretprobes ret m)) = Some ({}, {#})"
proof -
  let ?m = "unregister_ip6t_do_tables True (kcall (Unregister Krp_Ipt) m)"
  have "held_after ?m = Some ({}, module_progs ?m)"
    using assms by (auto simp: unregister_ip6t_do_tables_def kretprobes_def)
  then show ?thesis by (simp add: L_unregister_kretprobes_def Let_def put_progs_held)
qed

lemma fst_unregister_kretprobes [simp]: "fst (L_unregister_kretprobes ret m) = ret"
  by (simp add: L_unregister_kretprobes_def Let_def)

definition api_ok :: "kapi \<Rightarrow> bool" where
  "api_ok api \<longleftrightarrow> (\<forall>calls p. register_result api calls p \<le> 0)"

lemma api_ok_ret: "api_ok api \<Longrightarrow> \<not> register_result api calls p < 0 \<Longrightarrow> register_result api calls p = 0"
  unfolding api_ok_def by (meson antisym_conv2 nle_le order_less_le)

definition load_outcome :: "int \<times> module \<Rightarrow> bool" where
  "load_outcome r \<longleftrightarrow>
     fst r = 0 \<and> held_after (snd r) = Some (all_probes (snd r), module_progs (snd r)) \<or>
     fst r < 0 \<and> held_after (snd r) = Some ({}, {#})"

lemma init_kprobes_outcome:
  assumes api: "api_ok api" and held: "held_after m = Some (kretprobes m, module_progs m)"
  shows "load_outcome (init_kprobes api m)"
proof (cases "register_result api (md_calls m) Kp_Ipt < 0")
  case True
  let ?m = "kcall (Register Kp_Ipt (register_result api (md_calls m) Kp_Ipt)) m"
  have "held_after ?m = Some (kretprobes ?m, module_progs ?m)"
    using held True by (auto simp: kretprobes_def)
  from unregister_kretprobes_held [OF this] True show ?thesis
    by (simp add: init_kprobes_def register_probe_def Let_def load_outcome_def)
next
  case False
  define m1 where "m1 = kcall (Register Kp_Ipt 0) m"
  have r1: "register_probe api Kp_Ipt m = (0, m1)"
    using api_ok_ret [OF api False] by (simp add: register_probe_def Let_def m1_def)
  have k1: "kretprobes m1 = kretprobes m" by (simp add: m1_def kretprobes_def)
  have held1: "held_after m1 = Some (insert Kp_Ipt (kretprobes m1), module_progs m1)"
    using held unfolding k1 by (simp add: m1_def) (simp add: kretprobes_def)
  obtain ret m2 where r2: "register_ip6t_do_tables api False m1 = (ret, m2)" by fastforce
  have cases2: "ret = 0 \<and> held_after m2 = Some (insert Kp_Ipt (all_probes m2 - {Kp_Log, Kp_Ipt}), module_progs m2) \<or>
      ret < 0 \<and> held_after m2 = Some (insert Kp_Ipt (kretprobes m2), module_progs m2)"
    using r2 held1 api_ok_ret [OF api, of "md_calls m1" Kp_Ip6t]
    by (cases "register_result api (md_calls m1) Kp_Ip6t < 0")
      (auto simp: register_ip6t_do_tables_def register_probe_def Let_def all_probes_def kretprobes_def
        split: if_splits)
  have rest: "init_kprobes api m =
      (if ret < 0 then L_unregister_kretprobes ret (kcall (Unregister Kp_Ipt) m2)
       else (let (ret, m) = register_probe api Kp_Log m2
             in if ret < 0
                then L_unregister_kretprobes ret (unregister_ip6t_do_tables False (kcall (Unregister Kp_Ipt) m))
                else (0, m)))"
    by (simp add: init_kprobes_def r1 r2)
  show ?thesis
  proof (cases "ret < 0")
    case True
    let ?m = "kcall (Unregister Kp_Ipt) m2"
    have "held_after ?m = Some (kretprobes ?m, module_progs ?m)"
      using cases2 True by (auto simp: kretprobes_def)
    from unregister_kretprobes_held [OF this] True show ?thesis
      by (simp add: rest load_outcome_def)
  next
    case neg: False
    with cases2 have held2: "held_after m2 = Some (insert Kp_Ipt (all_probes m2 - {Kp_Log, Kp_Ipt}), module_progs m2)"
      by simp
    show ?thesis
    proof (cases "register_result api (md_calls m2) Kp_Log < 0")
      case True
      let ?m3 = "kcall (Register Kp_Log (register_result api (md_calls m2) Kp_Log)) m2"
      let ?m = "unregister_ip6t_do_tables False (kcall (Unregister Kp_Ipt) ?m3)"
      have "held_after ?m = Some (kretprobes ?m, module_progs ?m)"
        using held2 True
        by (auto simp: unregister_ip6t_do_tables_def kretprobes_def all_probes_def)
      from unregister_kretprobes_held [OF this] True neg show ?thesis
        by (simp add: rest register_probe_def Let_def load_outcome_def)
    next
      case False
      let ?m = "kcall (Register Kp_Log 0) m2"
      have "held_after ?m = Some (all_probes ?m, module_progs ?m)"
        using held2 by (auto simp: all_probes_def kretprobes_def)
      with api_ok_ret [OF api False] neg show ?thesis
        by (simp add: rest register_probe_def Let_def load_outcome_def)
    qed
  qed
qed

lemma init_kretprobes_outcome:
  assumes api: "api_ok api" and held: "held_after m = Some ({}, module_progs m)"
  shows "load_outcome (init_kretprobes api m)"
proof (cases "register_result api (md_calls m) Krp_Ipt < 0")
  case True
  let ?m = "kcall (Register Krp_Ipt (register_result api (md_calls m) Krp_Ipt)) m"
  have "held_after ?m = Some ({}, module_progs ?m)" using held True by simp
  from put_progs_held [OF this] True show ?thesis
    by (simp add: init_kretprobes_def register_probe_def Let_def load_outcome_def)
next
  case False
  define m1 where "m1 = kcall (Register Krp_Ipt 0) m"
  have r1: "register_probe api Krp_Ipt m = (0, m1)"
    using api_ok_ret [OF api False] by (simp add: register_probe_def Let_def m1_def)
  have held1: "held_after m1 = Some ({Krp_Ipt}, module_progs m1)" using held by (simp add: m1_def)
  define ret where "ret = register_result api (md_calls m1) Krp_Ip6t"
  define m2 where "m2 = kcall (Register Krp_Ip6t ret) m1"
  have r2: "register_probe api Krp_Ip6t m1 = (ret, m2)"
    by (simp add: register_probe_def ret_def m2_def Let_def)
  have rest: "init_kretprobes api m =
      (if ret < 0 \<and> ret \<noteq> - ENOENT then L_put_bpf_progs ret (kcall (Unregister Krp_Ipt) m2)
       else init_kprobes api (m2\<lparr>have_ip6t_do_table := (if ret = 0 then 1 else 0)\<rparr>))"
    by (simp add: init_kretprobes_def r1 r2)
  have held2: "held_after m2 = Some (if ret = 0 then {Krp_Ip6t, Krp_Ipt} else {Krp_Ipt}, module_progs m2)"
    using held1 by (simp add: m2_def)
  show ?thesis
  proof (cases "ret < 0 \<and> ret \<noteq> - ENOENT")
    case True
    let ?m = "kcall (Unregister Krp_Ipt) m2"
    have "held_after ?m = Some ({}, module_progs ?m)" using held2 True by simp
    from put_progs_held [OF this] True show ?thesis by (simp add: rest load_outcome_def)
  next
    case False
    let ?m = "m2\<lparr>have_ip6t_do_table := (if ret = 0 then 1 else 0)\<rparr>"
    have "held_after ?m = Some (kretprobes ?m, module_progs ?m)"
      using held2 by (auto simp: kretprobes_def)
    from init_kprobes_outcome [OF api this] False show ?thesis by (simp only: rest if_False)
  qed
qed

lemma ptr_err_negative:
  assumes "ptr_is_err p"
  shows "ptr_err_or_zero p < 0"
proof -
  have "bit p 63"
  proof (rule ccontr)
    assume no: "\<not> bit p 63"
    have "take_bit 63 p = p"
    proof (intro bit_word_eqI)
      fix n assume "n < LENGTH(64)"
      then show "bit (take_bit 63 p) n = bit p n"
        using no by (cases "n = 63") (auto simp: bit_simps)
    qed
    then have "unat p < 2 ^ 63" by (metis take_bit_nat_less_exp unsigned_take_bit_eq)
    then show False using assms by (simp add: ptr_is_err_def word_le_nat_alt)
  qed
  then have "sint p < 0" using bit_last_iff [of p] by simp
  then show ?thesis using assms by (simp add: ptr_err_or_zero_def)
qed

lemma ptr_err_or_zero_0 [simp]: "ptr_err_or_zero p = 0 \<longleftrightarrow> \<not> ptr_is_err p"
  using ptr_err_negative [of p] by (auto simp: ptr_err_or_zero_def)

lemma ipt_trace_init_outcome:
  assumes api: "api_ok api" and fresh: "md_calls m = []"
  shows "load_outcome (ipt_trace_init api m)"
proof -
  let ?p = "bpf_prog_get_type_path api"
  let ?entry = "?p (bpf_prog_entry_path m)" and ?exit = "?p (bpf_prog_exit_path m)"
    and ?trace = "?p (bpf_prog_trace_path m)"
  define m1 where "m1 = (kcall (Get_Prog (bpf_prog_entry_path m) ?entry) m)\<lparr>ipt_bpf_prog_entry := ?entry\<rparr>"
  define m2 where "m2 = (kcall (Get_Prog (bpf_prog_exit_path m) ?exit) m1)\<lparr>ipt_bpf_prog_exit := ?exit\<rparr>"
  define m3 where "m3 = (kcall (Get_Prog (bpf_prog_trace_path m) ?trace) m2)\<lparr>ipt_bpf_prog_trace := ?trace\<rparr>"
  have held0: "held_after m = Some ({}, {#})" using fresh by simp
  have held1: "held_after m1 = Some ({}, if ptr_is_err ?entry then {#} else {#?entry#})"
    using held0 by (simp add: m1_def)
  have init: "ipt_trace_init api m =
    (if ptr_is_err ?entry then (ptr_err_or_zero ?entry, m1)
     else if ptr_is_err ?exit then (ptr_err_or_zero ?exit, kcall (Put_Prog ?entry) m2)
     else if ptr_is_err ?trace
       then (ptr_err_or_zero ?trace, kcall (Put_Prog ?exit) (kcall (Put_Prog ?entry) m3))
     else init_kretprobes api (set_handlers m3))"
    by (simp add: ipt_trace_init_def bpf_check_path_def Let_def m1_def m2_def m3_def kcall_def)
  show ?thesis
  proof (cases "ptr_is_err ?entry")
    case True
    then show ?thesis using held1 by (simp add: init load_outcome_def ptr_err_negative)
  next
    case e1: False
    have held2: "held_after m2 = Some ({}, if ptr_is_err ?exit then {#?entry#} else {#?exit, ?entry#})"
      using held1 e1 by (simp add: m2_def)
    show ?thesis
    proof (cases "ptr_is_err ?exit")
      case True
      then show ?thesis using held2 e1 by (simp add: init load_outcome_def ptr_err_negative)
    next
      case e2: False
      have held3: "held_after m3 = Some ({}, if ptr_is_err ?trace then {#?exit, ?entry#} else {#?trace, ?exit, ?entry#})"
        using held2 e2 by (simp add: m3_def)
      show ?thesis
      proof (cases "ptr_is_err ?trace")
        case True
        then show ?thesis using held3 e1 e2 by (simp add: init load_outcome_def ptr_err_negative)
      next
        case e3: False
        have "held_after (set_handlers m3) = Some ({}, module_progs (set_handlers m3))"
          using held3 e3 by (simp add: set_handlers_def m3_def m2_def m1_def add_mset_commute)
        from init_kretprobes_outcome [OF api this] e1 e2 e3 show ?thesis by (simp only: init if_False)
      qed
    qed
  qed
qed

section \<open>Properties\<close>

text \<open>C28: Let the registration of a probe return 0 or a negative error. Loading the module either
  succeeds, returns 0 and holds exactly the probes it needs (those of \<^verbatim>\<open>ip6t_do_table\<close> only if the
  kernel has that function) and a reference to each of the three programs; or it fails with a negative
  code and has released everything it had acquired. In neither case did it release something it did
  not hold or register a probe twice.\<close>

theorem ipt_trace_init_all_or_nothing:
  assumes "\<forall>calls p. register_result api calls p \<le> 0"
  shows "(let (ret, m) = ipt_trace_init api (module_loaded entry_path exit_path trace_path version)
    in ret = 0 \<and> held_after m = Some (all_probes m, module_progs m) \<or>
       ret < 0 \<and> held_after m = Some ({}, {#}))"
  using ipt_trace_init_outcome [of api "module_loaded entry_path exit_path trace_path version"] assms
  by (simp add: api_ok_def module_loaded_def load_outcome_def case_prod_beta)

text \<open>A kernel without \<^verbatim>\<open>ip6t_do_table\<close>, on which the last registration fails.\<close>

definition demo_api :: kapi where
  "demo_api = \<lparr>bpf_prog_get_type_path = (\<lambda>_. 4096),
     register_result = (\<lambda>calls p. if p = Krp_Ip6t then - 2 else if p = Kp_Log then - 22 else 0)\<rparr>"

theorem ipt_trace_init_all_or_nothing_witness:
  "(let (ret, m) = ipt_trace_init demo_api (module_loaded ''a'' ''b'' ''c'' 1)
    in ret = 0 \<and> held_after m = Some (all_probes m, module_progs m) \<or>
       ret < 0 \<and> held_after m = Some ({}, {#}))"
  by (rule ipt_trace_init_all_or_nothing) (simp add: demo_api_def)

text \<open>C29: Let the registration of a probe return 0 or a negative error. Unloading a module whose loading has
  succeeded releases every probe and every program reference it held, none twice.\<close>

theorem ipt_trace_exit_releases_all:
  assumes "\<forall>calls p. register_result api calls p \<le> 0"
    and "ipt_trace_init api (module_loaded entry_path exit_path trace_path version) = (0, m)"
  shows "held_after (ipt_trace_exit m) = Some ({}, {#})"
proof -
  have "load_outcome (0, m)"
    using ipt_trace_init_outcome [of api "module_loaded entry_path exit_path trace_path version"] assms
    by (simp add: api_ok_def module_loaded_def)
  then have held: "held_after m = Some (all_probes m, module_progs m)"
    by (simp add: load_outcome_def)
  let ?m = "unregister_ip6t_do_tables True (kcall (Unregister Krp_Ipt) (kcall (Unregister Kp_Log)
    (unregister_ip6t_do_tables False (kcall (Unregister Kp_Ipt) m))))"
  have "held_after ?m = Some ({}, module_progs ?m)"
    using held by (auto simp: unregister_ip6t_do_tables_def all_probes_def kretprobes_def)
  from put_progs_held [OF this] show ?thesis by (simp add: ipt_trace_exit_def Let_def)
qed

definition good_api :: kapi where
  "good_api = \<lparr>bpf_prog_get_type_path = (\<lambda>_. 4096), register_result = (\<lambda>calls p. 0)\<rparr>"

theorem ipt_trace_exit_releases_all_witness:
  "held_after (ipt_trace_exit (snd (ipt_trace_init good_api (module_loaded ''a'' ''b'' ''c'' 1)))) = Some ({}, {#})"
proof -
  have "fst (ipt_trace_init good_api (module_loaded ''a'' ''b'' ''c'' 1)) = 0"
    by (simp add: ipt_trace_init_def bpf_check_path_def Let_def good_api_def ptr_err_or_zero_def ptr_is_err_def
        init_kretprobes_def init_kprobes_def register_probe_def register_ip6t_do_tables_def)
  then show ?thesis
    by (intro ipt_trace_exit_releases_all [of good_api "''a''" "''b''" "''c''" 1])
      (simp add: good_api_def, metis prod.collapse)
qed

end
