(* ===== verification/Ethtool.thy ===== *)
theory Ethtool
  imports Common Ipt_Trace Runs
begin

text \<open>
  \<^verbatim>\<open>ethtool-trace.c\<close>: who configures which device, over the ioctl and over the netlink interface.
  The ioctl probe sends its event at once; the netlink path is split over three probes that
  share one event per CPU, kept in a per-CPU array with a single element.
\<close>

section \<open>State\<close>

definition ETHTOOL_PERQUEUE :: u32 where "ETHTOOL_PERQUEUE = 0x4b"
definition EVENT_TYPE_IOCTL :: u8 where "EVENT_TYPE_IOCTL = 1"
definition EVENT_TYPE_GENL :: u8 where "EVENT_TYPE_GENL = 2"

record eth_event =
  et_process :: trace_process_info
  et_type :: u8
  et_genlhdr_cmd :: u8
  et_ethcmd :: u16
  et_ifname :: bytes
  et_req :: ptr

definition zero_eth_event :: eth_event where
  "zero_eth_event =
     \<lparr>et_process = \<lparr>pi_name = replicate MAX_PROCESS_NAME 0, pi_pid = 0, pi_tgid = 0\<rparr>, et_type = 0,
      et_genlhdr_cmd = 0, et_ethcmd = 0, et_ifname = replicate IFNAMSIZ 0, et_req = 0\<rparr>"

text \<open>The events sent: all of the structure, or (\<^verbatim>\<open>SIZEOF_EVENT\<close>) what comes before its last field.\<close>

datatype eth_output = Whole eth_event | Up_To_Req eth_event

record eth_state =
  events_cache :: "u32 \<Rightarrow> eth_event list"
  eth_events :: "eth_output list"

definition eth_init :: eth_state where
  "eth_init = \<lparr>events_cache = (\<lambda>_. [zero_eth_event]), eth_events = []\<rparr>"

text \<open>The environment of a run. User memory, the command of a netlink request and the device of a
  parsed request are reads of structures of the kernel or of the caller.\<close>

record eth_env =
  ee_ctx :: run_ctx
  ee_kernel :: kernel
  ee_user :: bytemem
  ee_genl_cmd :: "ptr \<Rightarrow> u8"
  ee_req_dev :: "ptr \<Rightarrow> ptr"
  ee_perf_ok :: bool

abbreviation ee_cpu :: "eth_env \<Rightarrow> u32" where
  "ee_cpu e \<equiv> cur_cpu (ee_ctx e)"

section \<open>The cached event\<close>

definition cache_put :: "eth_env \<Rightarrow> eth_event list \<Rightarrow> eth_state \<Rightarrow> eth_state" where
  "cache_put e a s = s\<lparr>events_cache := (events_cache s)(ee_cpu e := a)\<rparr>"

text \<open>A store through the pointer a lookup of key 0 gave.\<close>

definition cache_store :: "eth_env \<Rightarrow> eth_event \<Rightarrow> eth_state \<Rightarrow> eth_state" where
  "cache_store e ev s = cache_put e ((events_cache s (ee_cpu e))[0 := ev]) s"

definition get_or_init_event :: "eth_env \<Rightarrow> eth_state \<Rightarrow> eth_event option \<times> eth_state" where
  "get_or_init_event e s =
     (case arr_lookup (events_cache s (ee_cpu e)) 0 of
        Some ev \<Rightarrow> (Some ev, s)
      | None \<Rightarrow>
          (let s = cache_put e (snd (arr_update (events_cache s (ee_cpu e)) 0 zero_eth_event BPF_NOEXIST)) s
           in (arr_lookup (events_cache s (ee_cpu e)) 0, s)))"

definition get_event :: "eth_env \<Rightarrow> eth_state \<Rightarrow> eth_event option" where
  "get_event e s = arr_lookup (events_cache s (ee_cpu e)) 0"

definition get_and_del_event :: "eth_env \<Rightarrow> eth_state \<Rightarrow> eth_event option \<times> eth_state" where
  "get_and_del_event e s =
     (case arr_lookup (events_cache s (ee_cpu e)) 0 of
        None \<Rightarrow> (None, s)
      | Some ev \<Rightarrow> (Some ev, cache_put e (snd (arr_delete (events_cache s (ee_cpu e)) 0)) s))"

section \<open>Probes\<close>

text \<open>The second read stores the sub-command in \<^verbatim>\<open>cmd\<close>, and the assignment then overwrites it with the
  result of the helper.\<close>

definition get_ethcmd :: "bytemem \<Rightarrow> ptr \<Rightarrow> u32" where
  "get_ethcmd um useraddr =
     (let cmd = load32 um useraddr
      in if cmd = ETHTOOL_PERQUEUE then word_of_int (fst (probe_read um 4 (useraddr + 4))) else cmd)"

definition dev_ethtool :: "eth_env \<Rightarrow> ptr \<Rightarrow> ptr \<Rightarrow> ptr \<Rightarrow> eth_state \<Rightarrow> eth_state" where
  "dev_ethtool e net ifr useraddr s =
     (let ev = zero_eth_event\<lparr>et_type := EVENT_TYPE_IOCTL, et_ethcmd := ucast (get_ethcmd (ee_user e) useraddr)\<rparr>;
          ev = ev\<lparr>et_ifname := snd (probe_read_str (k_mem (ee_kernel e)) (et_ifname ev) ifr)\<rparr>;
          ev = ev\<lparr>et_process := fill_process_info (ee_ctx e)\<rparr>
      in s\<lparr>eth_events := bpf_perf_event_output (ee_perf_ok e) (Whole ev) (eth_events s)\<rparr>)"

definition kp_dev_ethtool :: "eth_env \<Rightarrow> saved_regs \<Rightarrow> eth_state \<Rightarrow> eth_state" where
  "kp_dev_ethtool e regs = dev_ethtool e (regs ''di'') (regs ''si'') (regs ''dx'')"

definition get_dev_name :: "eth_env \<Rightarrow> eth_event \<Rightarrow> ptr \<Rightarrow> eth_event" where
  "get_dev_name e ev req =
     (let dev = ee_req_dev e req
      in if dev \<noteq> NULL then ev\<lparr>et_ifname := copy_str (et_ifname ev) (nd_name (dev_at (ee_kernel e) dev))\<rparr>
         else ev)"

definition kp_ethnl_doit :: "eth_env \<Rightarrow> saved_regs \<Rightarrow> eth_state \<Rightarrow> eth_state" where
  "kp_ethnl_doit e regs s =
     (let info = regs ''si'';
          cmd = ee_genl_cmd e info;
          (found, s) = get_or_init_event e s
      in case found of
           None \<Rightarrow> s
         | Some ev \<Rightarrow>
             cache_store e (ev\<lparr>et_type := EVENT_TYPE_GENL, et_genlhdr_cmd := cmd, et_req := NULL\<rparr>) s)"

definition kp_ethnl_dev :: "eth_env \<Rightarrow> saved_regs \<Rightarrow> eth_state \<Rightarrow> eth_state" where
  "kp_ethnl_dev e regs s =
     (case get_event e s of
        None \<Rightarrow> s
      | Some ev \<Rightarrow> cache_store e (ev\<lparr>et_req := regs ''di''\<rparr>) s)"

definition krp_ethnl_dev :: "eth_env \<Rightarrow> eth_state \<Rightarrow> eth_state" where
  "krp_ethnl_dev e s =
     (let (found, s) = get_and_del_event e s
      in case found of
           None \<Rightarrow> s
         | Some ev \<Rightarrow>
             (let ev = (if et_req ev \<noteq> NULL then get_dev_name e ev (et_req ev) else ev);
                  ev = ev\<lparr>et_process := fill_process_info (ee_ctx e)\<rparr>;
                  s = cache_store e ev s
              in s\<lparr>eth_events := bpf_perf_event_output (ee_perf_ok e) (Up_To_Req ev) (eth_events s)\<rparr>))"

section \<open>Runs\<close>

datatype eth_call = Dev_Ethtool saved_regs | Doit saved_regs | Parse_Dev saved_regs | Parse_Dev_Return

fun eth_run :: "eth_env \<Rightarrow> eth_call \<Rightarrow> eth_state \<Rightarrow> eth_state" where
  "eth_run e (Dev_Ethtool regs) = kp_dev_ethtool e regs"
| "eth_run e (Doit regs) = kp_ethnl_doit e regs"
| "eth_run e (Parse_Dev regs) = kp_ethnl_dev e regs"
| "eth_run e Parse_Dev_Return = krp_ethnl_dev e"

inductive eth_reachable :: "eth_state \<Rightarrow> bool" where
  start: "eth_reachable eth_init"
| run: "eth_reachable s \<Longrightarrow> eth_reachable (eth_run e c s)"

text \<open>Every CPU has exactly one cached event, so that no branch for a missing one is ever taken.\<close>

definition eth_inv :: "eth_state \<Rightarrow> bool" where
  "eth_inv s \<longleftrightarrow> (\<forall>cpu. length (events_cache s cpu) = 1)"

lemma arr_lookup_single [simp]: "length a = 1 \<Longrightarrow> arr_lookup a 0 = Some (a ! 0)"
  by (simp add: arr_lookup_def)

lemma eth_inv_single: "eth_inv s \<Longrightarrow> arr_lookup (events_cache s cpu) 0 = Some (events_cache s cpu ! 0)"
  by (simp add: eth_inv_def)

lemma cache_put_del [simp]: "cache_put e (events_cache s (ee_cpu e)) s = s"
  by (simp add: cache_put_def)

lemma get_and_del_inv:
  "eth_inv s \<Longrightarrow> get_and_del_event e s = (Some (events_cache s (ee_cpu e) ! 0), s)"
  by (simp add: get_and_del_event_def eth_inv_single arr_delete_def)

lemma get_or_init_inv:
  "eth_inv s \<Longrightarrow> get_or_init_event e s = (Some (events_cache s (ee_cpu e) ! 0), s)"
  by (simp add: get_or_init_event_def eth_inv_single)

lemma get_event_inv: "eth_inv s \<Longrightarrow> get_event e s = Some (events_cache s (ee_cpu e) ! 0)"
  by (simp add: get_event_def eth_inv_single)

lemmas eth_cache_simps = get_and_del_inv get_or_init_inv get_event_inv

lemma cache_store_inv [intro]: "eth_inv s \<Longrightarrow> eth_inv (cache_store e ev s)"
  by (simp add: cache_store_def cache_put_def eth_inv_def)

lemma eth_inv_events [simp]: "eth_inv (s\<lparr>eth_events := out\<rparr>) = eth_inv s"
  by (simp add: eth_inv_def)

lemma cache_store_read [simp]:
  "eth_inv s \<Longrightarrow> events_cache (cache_store e ev s) (ee_cpu e) ! 0 = ev"
  "cpu \<noteq> ee_cpu e \<Longrightarrow> events_cache (cache_store e ev s) cpu = events_cache s cpu"
  "eth_events (cache_store e ev s) = eth_events s"
  by (simp_all add: cache_store_def cache_put_def eth_inv_def)

lemma eth_run_inv: "eth_inv s \<Longrightarrow> eth_inv (eth_run e c s)"
  by (cases c) (auto simp: kp_dev_ethtool_def dev_ethtool_def kp_ethnl_doit_def kp_ethnl_dev_def
      krp_ethnl_dev_def Let_def eth_cache_simps)

lemma eth_reachable_inv: "eth_reachable s \<Longrightarrow> eth_inv s"
proof (induction rule: eth_reachable.induct)
  case start
  show ?case by (simp add: eth_init_def eth_inv_def)
next
  case (run s e c)
  then show ?case by (intro eth_run_inv)
qed

lemma eth_run_other_cpu:
  "eth_inv s \<Longrightarrow> cpu \<noteq> ee_cpu e \<Longrightarrow> events_cache (eth_run e c s) cpu = events_cache s cpu"
  by (cases c) (auto simp: kp_dev_ethtool_def dev_ethtool_def kp_ethnl_doit_def kp_ethnl_dev_def
      krp_ethnl_dev_def Let_def eth_cache_simps)

text \<open>The cached event belongs to the CPU the probe runs on.\<close>

interpretation eth: owned_events eth_run eth_inv ee_cpu events_cache
  by unfold_locales (auto intro: eth_run_inv eth_run_other_cpu)

section \<open>Properties\<close>

text \<open>Every CPU always has exactly one cached event, so the branches for a missing event are never
  taken, and getting the event in order to delete it leaves it in place.\<close>

theorem eth_cache_never_empty:
  assumes "eth_reachable s"
  shows "length (events_cache s cpu) = 1 \<and>
    get_or_init_event e s = (get_event e s, s) \<and> get_event e s \<noteq> None \<and>
    get_and_del_event e s = (get_event e s, s)"
  using eth_reachable_inv [OF assms] by (simp add: eth_cache_simps) (simp add: eth_inv_def)

theorem eth_cache_never_empty_witness:
  "length (events_cache eth_init 3) = 1"
  using eth_cache_never_empty [OF eth_reachable.start] by blast

definition eth_demo :: eth_env where
  "eth_demo = \<lparr>ee_ctx = \<lparr>cur_tgid = 7, cur_pid = 8, cur_comm = [], cur_cpu = 0, ktime = of_nat\<rparr>,
     ee_kernel = no_kernel, ee_user = (\<lambda>a. if a = 64 then Some 75 else Some 0), ee_genl_cmd = (\<lambda>_. 5),
     ee_req_dev = (\<lambda>_. 1), ee_perf_ok = True\<rparr>"

text \<open>For the per-queue command the sub-command is never reported: the result is the return code of the
  read, 0 if the memory can be read and the negative error otherwise. Every other command is
  reported as it is.\<close>

theorem get_ethcmd_loses_subcommand:
  "get_ethcmd um useraddr =
     (if load32 um useraddr \<noteq> ETHTOOL_PERQUEUE then load32 um useraddr
      else if \<exists>i < 4. um (useraddr + 4 + of_nat i) = None then - 14 else 0)"
proof -
  have "fst (probe_read um 4 (useraddr + 4)) =
      (if \<exists>i < 4. um (useraddr + 4 + of_nat i) = None then - EFAULT else 0)"
    by (force simp: probe_read_def Let_def image_iff)
  then show ?thesis by (simp only: get_ethcmd_def Let_def) (auto simp: EFAULT_def)
qed

end
