(* ===== verification/Eth_History.thy ===== *)
theory Eth_History
  imports Ethtool
begin

text \<open>
  The ethtool tracer over whole runs: what the last probe of a request reports is determined by the
  probes that came before it on its CPU, those of earlier requests too.
\<close>

section \<open>The history of a CPU\<close>

fun is_doit :: "eth_call \<Rightarrow> bool" where
  "is_doit (Doit regs) \<longleftrightarrow> True"
| "is_doit _ \<longleftrightarrow> False"

fun is_netlink :: "eth_call \<Rightarrow> bool" where
  "is_netlink (Doit regs) \<longleftrightarrow> True"
| "is_netlink (Parse_Dev regs) \<longleftrightarrow> True"
| "is_netlink _ \<longleftrightarrow> False"

text \<open>The command of the last request that began on the CPU, and the device request that was parsed after
  it, if one was.\<close>

definition last_cmd :: "(eth_env \<times> eth_call) list \<Rightarrow> u32 \<Rightarrow> u8 option" where
  "last_cmd calls cpu =
     (let own = filter (\<lambda>(e, c). ee_cpu e = cpu \<and> is_doit c) calls
      in if own = [] then None else (case last own of (e, Doit regs) \<Rightarrow> Some (ee_genl_cmd e (regs ''si'')) | _ \<Rightarrow> None))"

definition last_req :: "(eth_env \<times> eth_call) list \<Rightarrow> u32 \<Rightarrow> ptr" where
  "last_req calls cpu =
     (let own = filter (\<lambda>(e, c). ee_cpu e = cpu \<and> is_netlink c) calls
      in if own = [] then NULL else (case last own of (e, Parse_Dev regs) \<Rightarrow> regs ''di'' | _ \<Rightarrow> NULL))"

text \<open>The name a buffer shows, up to the NUL; and the name after the returns on the CPU, the newest call first:
  that of the device of the request that was parsed before the return, or what the buffer showed if
  there is none.\<close>

definition shown :: "bytes \<Rightarrow> bytes" where
  "shown bs = takeWhile (\<lambda>b. b \<noteq> 0) bs"

definition return_name :: "eth_env \<Rightarrow> ptr \<Rightarrow> bytes \<Rightarrow> bytes" where
  "return_name e req old =
     (if req = NULL \<or> ee_req_dev e req = NULL then old
      else take 15 (shown (nd_name (dev_at (ee_kernel e) (ee_req_dev e req)))))"

fun names_back :: "(eth_env \<times> eth_call) list \<Rightarrow> u32 \<Rightarrow> bytes" where
  "names_back [] cpu = []"
| "names_back ((e, c) # earlier) cpu =
     (if c = Parse_Dev_Return \<and> ee_cpu e = cpu
      then return_name e (last_req (rev earlier) cpu) (names_back earlier cpu)
      else names_back earlier cpu)"

definition last_name :: "(eth_env \<times> eth_call) list \<Rightarrow> u32 \<Rightarrow> bytes" where
  "last_name calls cpu = names_back (rev calls) cpu"

lemma last_name_snoc:
  "last_name (calls @ [(e, c)]) cpu =
     (if c = Parse_Dev_Return \<and> ee_cpu e = cpu then return_name e (last_req calls cpu) (last_name calls cpu)
      else last_name calls cpu)"
  by (simp add: last_name_def)

text \<open>Device names are arrays of 16 bytes.\<close>

definition named_devs :: "eth_env \<Rightarrow> bool" where
  "named_devs e \<longleftrightarrow> (\<forall>p. length (nd_name (dev_at (ee_kernel e) p)) = 16)"

lemma str_scan_mem_at:
  "mem_at m a src \<Longrightarrow> str_scan m (length src) a = Some (if 0 \<in> set src then shown src @ [0] else src)"
  by (induction src arbitrary: a) (auto simp: shown_def)

lemma shown_none: "0 \<notin> set bs \<Longrightarrow> shown bs = bs"
  unfolding shown_def by (rule takeWhile_eq_all_conv [THEN iffD2]) auto

lemma shown_append_0: "0 \<notin> set xs \<Longrightarrow> shown (xs @ 0 # ys) = xs"
  by (induction xs) (auto simp: shown_def)

lemma shown_copy_str:
  assumes "length src = 16" "length dst = 16"
  shows "shown (copy_str dst src) = take 15 (shown src)"
proof -
  define m :: bytemem where "m = (\<lambda>a. if unat a < length src then Some (src ! unat a) else None)"
  have "mem_at m 0 src"
    using assms(1) by (simp add: mem_at_def m_def unat_of_nat take_bit_nat_eq_self)
  then have scan: "str_scan m (length dst) 0 = Some (if 0 \<in> set src then shown src @ [0] else src)"
    using str_scan_mem_at [of m 0 src] assms by simp
  have clean: "0 \<notin> set (shown src)" by (auto simp: shown_def dest: set_takeWhileD)
  show ?thesis
  proof (cases "0 \<in> set src")
    case True
    have "length (shown src) < 16"
    proof (rule ccontr)
      assume "\<not> length (shown src) < 16"
      moreover have "length (shown src) \<le> 16" using assms(1) length_takeWhile_le [of _ src] by (simp add: shown_def)
      ultimately have "shown src = src"
        using assms(1) takeWhile_eq_take [of "\<lambda>b. b \<noteq> 0" src] by (simp add: shown_def)
      then show False using True clean by simp
    qed
    then show ?thesis
      using True clean by (simp add: copy_str_def probe_read_str_def scan overwrite_def shown_append_0 flip: m_def)
  next
    case False
    then have src: "shown src = src" by (rule shown_none)
    have "src \<noteq> []" using assms(1) by auto
    then have "last src \<noteq> 0" using False by (metis last_in_set)
    then have "copy_str dst src = butlast src @ 0 # drop 16 dst"
      using False assms \<open>src \<noteq> []\<close>
      unfolding copy_str_def m_def [symmetric] probe_read_str_def scan
      by (simp add: overwrite_def Let_def)
    moreover have "0 \<notin> set (butlast src)" using False by (auto dest: in_set_butlastD)
    ultimately show ?thesis using assms(1) by (simp add: shown_append_0 src butlast_conv_take)
  qed
qed

section \<open>The cached event as a function of the history\<close>

type_synonym eth_view = "u8 \<times> u8 \<times> ptr \<times> bytes"

definition eth_fields :: "eth_state \<Rightarrow> u32 \<Rightarrow> eth_view" where
  "eth_fields s cpu =
     (let ev = events_cache s cpu ! 0 in (et_type ev, et_genlhdr_cmd ev, et_req ev, shown (et_ifname ev)))"

fun fields_run :: "eth_env \<Rightarrow> eth_call \<Rightarrow> (u32 \<Rightarrow> eth_view) \<Rightarrow> (u32 \<Rightarrow> eth_view)" where
  "fields_run e (Doit regs) f =
     (case f (ee_cpu e) of (ty, cmd, req, name) \<Rightarrow>
        f(ee_cpu e := (EVENT_TYPE_GENL, ee_genl_cmd e (regs ''si''), NULL, name)))"
| "fields_run e (Parse_Dev regs) f =
     (case f (ee_cpu e) of (ty, cmd, req, name) \<Rightarrow> f(ee_cpu e := (ty, cmd, regs ''di'', name)))"
| "fields_run e Parse_Dev_Return f =
     (case f (ee_cpu e) of (ty, cmd, req, name) \<Rightarrow> f(ee_cpu e := (ty, cmd, req, return_name e req name)))"
| "fields_run e (Dev_Ethtool regs) f = f"

lemma last_cmd_snoc:
  "last_cmd (calls @ [(e, c)]) cpu =
     (case c of Doit regs \<Rightarrow> if ee_cpu e = cpu then Some (ee_genl_cmd e (regs ''si'')) else last_cmd calls cpu
      | _ \<Rightarrow> last_cmd calls cpu)"
  by (cases c) (simp_all add: last_cmd_def)

lemma last_req_snoc:
  "last_req (calls @ [(e, c)]) cpu =
     (case c of Doit regs \<Rightarrow> if ee_cpu e = cpu then NULL else last_req calls cpu
      | Parse_Dev regs \<Rightarrow> if ee_cpu e = cpu then regs ''di'' else last_req calls cpu
      | _ \<Rightarrow> last_req calls cpu)"
  by (cases c) (simp_all add: last_req_def)

lemma fields_history:
  "runs fields_run calls (\<lambda>_. (0, 0, NULL, [])) cpu =
     (case last_cmd calls cpu of None \<Rightarrow> 0 | Some _ \<Rightarrow> EVENT_TYPE_GENL, case last_cmd calls cpu of None \<Rightarrow> 0 | Some cmd \<Rightarrow> cmd,
      last_req calls cpu, last_name calls cpu)"
proof (induction calls rule: rev_induct)
  case (snoc a calls)
  obtain e c where a: "a = (e, c)" by (cases a)
  show ?case
    by (cases c; cases "ee_cpu e = cpu")
      (use snoc in \<open>auto simp: a last_cmd_snoc last_req_snoc last_name_snoc split: prod.split\<close>)
qed (simp add: last_cmd_def last_req_def last_name_def)

definition eth_sized :: "eth_state \<Rightarrow> bool" where
  "eth_sized s \<longleftrightarrow> eth_inv s \<and> (\<forall>cpu. length (et_ifname (events_cache s cpu ! 0)) = 16)"

lemma cache_store_sized:
  "eth_sized s \<Longrightarrow> length (et_ifname ev) = 16 \<Longrightarrow> eth_sized (cache_store e ev s)"
  by (auto simp: eth_sized_def) (metis cache_store_read(1,2))

lemma eth_sized_events [simp]: "eth_sized (s\<lparr>eth_events := out\<rparr>) = eth_sized s"
  by (simp add: eth_sized_def)

lemma eth_run_sized:
  assumes "eth_sized s" shows "eth_sized (eth_run e c s)"
proof -
  have "eth_inv s" "\<And>cpu. length (et_ifname (events_cache s cpu ! 0)) = 16"
    using assms by (simp_all add: eth_sized_def)
  then show ?thesis
    using assms
    by (cases c)
      (simp_all add: kp_dev_ethtool_def dev_ethtool_def kp_ethnl_doit_def kp_ethnl_dev_def krp_ethnl_dev_def
        get_dev_name_def Let_def eth_cache_simps cache_store_sized)
qed

lemma eth_run_fields:
  assumes "eth_sized s" "named_devs e"
  shows "eth_fields (eth_run e c s) = fields_run e c (eth_fields s)"
proof
  fix cpu
  have "eth_inv s" "\<And>cpu. length (et_ifname (events_cache s cpu ! 0)) = 16"
    "\<And>p. length (nd_name (dev_at (ee_kernel e) p)) = 16"
    using assms by (simp_all add: eth_sized_def named_devs_def)
  then show "eth_fields (eth_run e c s) cpu = fields_run e c (eth_fields s) cpu"
    by (cases c; cases "cpu = ee_cpu e")
      (simp_all add: eth_fields_def kp_dev_ethtool_def dev_ethtool_def kp_ethnl_doit_def kp_ethnl_dev_def
        krp_ethnl_dev_def get_dev_name_def return_name_def shown_copy_str Let_def eth_cache_simps)
qed

interpretation eth_sim: simulation eth_run "\<lambda>_. eth_sized" "\<lambda>e _. named_devs e" eth_fields fields_run
  by unfold_locales (auto intro: eth_run_sized eth_run_fields)

section \<open>Properties\<close>

text \<open>C31: What the last probe of a netlink request sends is determined by the probes on its CPU alone, in any
  interleaving with those of other CPUs, device names being arrays of 16 bytes. It hands exactly one
  event to the perf event array, which takes it or not. The event has the running process; the type and
  command of the last request that began on the CPU, or 0 for both if none did; and the name of the
  device of the request that was parsed after it, cut to 15 bytes. As the event is never deleted, a
  probe that comes without a parsed request, or for one without a device, shows the name that the
  last return on the CPU has left, the empty one if there is none.\<close>

theorem eth_events_match_history:
  assumes "s = runs eth_run calls eth_init" and "req = last_req calls (ee_cpu e)"
    and "\<forall>e' \<in> insert e (fst ` set calls). named_devs e'"
  shows "\<exists>ev. eth_events (krp_ethnl_dev e s) = eth_events s @ (if ee_perf_ok e then [Up_To_Req ev] else []) \<and>
    et_process ev = fill_process_info (ee_ctx e) \<and>
    (case last_cmd calls (ee_cpu e) of
       None \<Rightarrow> et_type ev = 0 \<and> et_genlhdr_cmd ev = 0
     | Some cmd \<Rightarrow> et_type ev = EVENT_TYPE_GENL \<and> et_genlhdr_cmd ev = cmd) \<and>
    shown (et_ifname ev) = return_name e req (last_name calls (ee_cpu e)) \<and>
    et_req ev = req"
proof -
  have start: "eth_sized eth_init"
    by (simp add: eth_sized_def eth_init_def eth_inv_def zero_eth_event_def IFNAMSIZ_def)
  have devs: "list_all (\<lambda>(e, c). named_devs e) calls" "named_devs e" using assms(3) by (auto simp: list_all_iff)
  have sized: "eth_sized s" unfolding assms(1) using start devs(1) by (intro eth_sim.runs_inv)
  then have inv: "eth_inv s" and len: "length (et_ifname (events_cache s (ee_cpu e) ! 0)) = 16"
    by (simp_all add: eth_sized_def)
  have "eth_fields s = runs fields_run calls (eth_fields eth_init)"
    unfolding assms(1) using start devs(1) by (intro eth_sim.runs_abs)
  moreover have "eth_fields eth_init = (\<lambda>_. (0, 0, NULL, []))"
    by (simp add: eth_fields_def eth_init_def zero_eth_event_def fun_eq_iff shown_def IFNAMSIZ_def)
  ultimately have "eth_fields s (ee_cpu e) =
      (case last_cmd calls (ee_cpu e) of None \<Rightarrow> 0 | Some _ \<Rightarrow> EVENT_TYPE_GENL,
       case last_cmd calls (ee_cpu e) of None \<Rightarrow> 0 | Some cmd \<Rightarrow> cmd, req, last_name calls (ee_cpu e))"
    by (simp only: fields_history assms(2))
  then have fields: "et_type (events_cache s (ee_cpu e) ! 0) = (case last_cmd calls (ee_cpu e) of None \<Rightarrow> 0 | Some _ \<Rightarrow> EVENT_TYPE_GENL)"
    "et_genlhdr_cmd (events_cache s (ee_cpu e) ! 0) = (case last_cmd calls (ee_cpu e) of None \<Rightarrow> 0 | Some cmd \<Rightarrow> cmd)"
    "et_req (events_cache s (ee_cpu e) ! 0) = req"
    "shown (et_ifname (events_cache s (ee_cpu e) ! 0)) = last_name calls (ee_cpu e)"
    by (simp_all add: eth_fields_def Let_def)
  define ev where "ev = (if req \<noteq> NULL then get_dev_name e (events_cache s (ee_cpu e) ! 0) req
      else events_cache s (ee_cpu e) ! 0)\<lparr>et_process := fill_process_info (ee_ctx e)\<rparr>"
  have "eth_events (krp_ethnl_dev e s) = eth_events s @ (if ee_perf_ok e then [Up_To_Req ev] else [])"
    using inv by (simp add: krp_ethnl_dev_def Let_def eth_cache_simps fields(3) bpf_perf_event_output_def ev_def)
  moreover have "et_type ev = et_type (events_cache s (ee_cpu e) ! 0)" "et_req ev = req"
    "et_genlhdr_cmd ev = et_genlhdr_cmd (events_cache s (ee_cpu e) ! 0)"
    by (simp_all add: ev_def get_dev_name_def Let_def fields(3))
  moreover have "shown (et_ifname ev) = return_name e req (last_name calls (ee_cpu e))"
    using devs(2) len by (simp add: ev_def get_dev_name_def return_name_def fields(4) shown_copy_str named_devs_def Let_def)
  ultimately show ?thesis
    by (intro exI [of _ ev]) (simp add: fields(1,2) ev_def split: option.split)
qed

text \<open>A request, its device \<^verbatim>\<open>eth\<close>, the return; and a second return, which comes without a request.\<close>

definition eth_demo_kernel :: kernel where
  "eth_demo_kernel = no_kernel\<lparr>k_dev := [1 \<mapsto> zero_net_device\<lparr>nd_name := [101, 116, 104] @ replicate 13 0\<rparr>]\<rparr>"

theorem eth_events_match_history_witness:
  "let d = eth_demo\<lparr>ee_kernel := eth_demo_kernel\<rparr>;
       calls = [(d, Doit (\<lambda>_. 1)), (d, Parse_Dev (\<lambda>_. 1)), (d, Parse_Dev_Return), (d, Doit (\<lambda>_. 1))];
       s = runs eth_run calls eth_init
   in \<exists>ev. eth_events (krp_ethnl_dev d s) = eth_events s @ [Up_To_Req ev] \<and>
     et_type ev = EVENT_TYPE_GENL \<and> et_genlhdr_cmd ev = 5 \<and> shown (et_ifname ev) = [101, 116, 104]"
proof -
  let ?d = "eth_demo\<lparr>ee_kernel := eth_demo_kernel\<rparr>"
  let ?calls = "[(?d, Doit (\<lambda>_. 1)), (?d, Parse_Dev (\<lambda>_. 1)), (?d, Parse_Dev_Return), (?d, Doit (\<lambda>_. 1))]"
  have d: "ee_cpu ?d = 0" "ee_genl_cmd ?d p = 5" "ee_req_dev ?d p = 1" "ee_perf_ok ?d" for p
    by (simp_all add: eth_demo_def)
  have "ee_cpu eth_demo = 0" "ee_genl_cmd eth_demo p = 5" "ee_req_dev eth_demo p = 1" for p
    by (simp_all add: eth_demo_def)
  note d = d this
  have devs: "named_devs ?d" by (simp add: named_devs_def eth_demo_kernel_def deref_def zero_net_device_def no_kernel_def)
  have name: "nd_name (dev_at (ee_kernel ?d) 1) = [101, 116, 104] @ replicate 13 0"
    by (simp add: eth_demo_kernel_def)
  have "last_cmd ?calls 0 = Some 5" "last_req ?calls 0 = NULL"
    by (simp_all add: last_cmd_def last_req_def d)
  moreover have "last_name ?calls 0 = [101, 116, 104]"
    using name by (simp add: last_name_def return_name_def last_req_def d shown_def)
  ultimately show ?thesis
    using eth_events_match_history [OF refl refl, of ?d ?calls] devs
    by (simp add: Let_def d return_name_def) blast
qed

end
