(* ===== verification/Map_Race.thy ===== *)
theory Map_Race
  imports Bpf_Maps
begin

text \<open>
  \<^verbatim>\<open>bpf_map_lookup_or_try_init\<close> on several CPUs at once: its three helper calls as the steps of a
  relation in which the callers interleave, for the flag each of its two copies passes to the update
  (\<^verbatim>\<open>BPF_ANY\<close> in \<^verbatim>\<open>bpf/map_helpers.h\<close>, \<^verbatim>\<open>BPF_NOEXIST\<close> in \<^verbatim>\<open>bpf/bpf_map_helpers.h\<close>).
\<close>

section \<open>Steps\<close>

text \<open>Where a caller is: before its first lookup, with the value it would insert; after a lookup that
  found nothing; after the update, with the result of the helper; and returned.\<close>

datatype 'v try_init = Calling 'v | Missed 'v | Stored int | Returned "'v option"

inductive try_init_step ::
  "map_flag \<Rightarrow> 'k \<Rightarrow> ('k, 'v) htab \<times> 'v try_init list \<Rightarrow> ('k, 'v) htab \<times> 'v try_init list \<Rightarrow> bool"
  for fl :: map_flag and key :: 'k
where
  hit: "i < length cs \<Longrightarrow> cs ! i = Calling init \<Longrightarrow> htab_lookup h key = Some v \<Longrightarrow>
    try_init_step fl key (h, cs) (h, cs[i := Returned (Some v)])"
| miss: "i < length cs \<Longrightarrow> cs ! i = Calling init \<Longrightarrow> htab_lookup h key = None \<Longrightarrow>
    try_init_step fl key (h, cs) (h, cs[i := Missed init])"
| store: "i < length cs \<Longrightarrow> cs ! i = Missed init \<Longrightarrow> htab_update h key init fl = (err, h') \<Longrightarrow>
    try_init_step fl key (h, cs) (h', cs[i := Stored err])"
| fail: "i < length cs \<Longrightarrow> cs ! i = Stored err \<Longrightarrow> err \<noteq> 0 \<Longrightarrow> err \<noteq> - EEXIST \<Longrightarrow>
    try_init_step fl key (h, cs) (h, cs[i := Returned None])"
| again: "i < length cs \<Longrightarrow> cs ! i = Stored err \<Longrightarrow> err = 0 \<or> err = - EEXIST \<Longrightarrow>
    try_init_step fl key (h, cs) (h, cs[i := Returned (htab_lookup h key)])"

abbreviation try_init_steps ::
  "map_flag \<Rightarrow> 'k \<Rightarrow> ('k, 'v) htab \<times> 'v try_init list \<Rightarrow> ('k, 'v) htab \<times> 'v try_init list \<Rightarrow> bool" where
  "try_init_steps fl key \<equiv> (try_init_step fl key)\<^sup>*\<^sup>*"

fun returned :: "'v try_init \<Rightarrow> bool" where
  "returned (Returned r) \<longleftrightarrow> True"
| "returned _ \<longleftrightarrow> False"

section \<open>One caller at a time\<close>

text \<open>A caller \<open>i\<close> that is not interrupted does what the routine does.\<close>

lemma try_init_uninterrupted:
  assumes "i < length cs" "cs ! i = Calling init"
    and run: "(case htab_lookup h key of
        Some v \<Rightarrow> (Some v, h)
      | None \<Rightarrow> (let (err, h') = htab_update h key init fl
                in if err \<noteq> 0 \<and> err \<noteq> - EEXIST then (None, h') else (htab_lookup h' key, h'))) = (r, h')"
  shows "try_init_steps fl key (h, cs) (h', cs[i := Returned r])"
proof (cases "htab_lookup h key")
  case (Some v)
  then show ?thesis using hit [OF assms(1,2) Some] run by auto
next
  case None
  obtain err h1 where u: "htab_update h key init fl = (err, h1)" by fastforce
  have "try_init_step fl key (h, cs) (h, cs[i := Missed init])" by (rule miss [OF assms(1,2) None])
  moreover have "try_init_step fl key (h, cs[i := Missed init]) (h1, cs[i := Stored err])"
    using store [of i "cs[i := Missed init]" init h key fl err h1] assms(1) u by simp
  moreover have "try_init_step fl key (h1, cs[i := Stored err])
      (h1, cs[i := Returned (if err \<noteq> 0 \<and> err \<noteq> - EEXIST then None else htab_lookup h1 key)])"
    using fail [of i "cs[i := Stored err]" err fl key h1] again [of i "cs[i := Stored err]" err fl key h1] assms(1)
    by simp
  moreover have "r = (if err \<noteq> 0 \<and> err \<noteq> - EEXIST then None else htab_lookup h1 key)" "h' = h1"
    using run by (auto simp: None u split: if_splits)
  ultimately show ?thesis by (simp only:)
qed

lemma try_init_steps_noexist:
  "lookup_or_try_init_noexist htab_lookup htab_update id h key init = (r, h') \<Longrightarrow>
   i < length cs \<Longrightarrow> cs ! i = Calling init \<Longrightarrow>
   try_init_steps BPF_NOEXIST key (h, cs) (h', cs[i := Returned r])"
  by (rule try_init_uninterrupted) (simp_all only: lookup_or_try_init_noexist_def id_apply)

lemma try_init_steps_any:
  "lookup_or_try_init_any htab_lookup htab_update id h key init = (r, h') \<Longrightarrow>
   i < length cs \<Longrightarrow> cs ! i = Calling init \<Longrightarrow>
   try_init_steps BPF_ANY key (h, cs) (h', cs[i := Returned r])"
  by (rule try_init_uninterrupted) (simp_all only: lookup_or_try_init_any_def id_apply)

text \<open>A caller is done after at most three steps, and so some order of the steps finishes them all.\<close>

fun calls_left :: "'v try_init \<Rightarrow> nat" where
  "calls_left (Calling init) = 3"
| "calls_left (Missed init) = 2"
| "calls_left (Stored err) = 1"
| "calls_left (Returned r) = 0"

lemma try_init_step_left:
  "try_init_step fl key st st' \<Longrightarrow>
   sum_list (map calls_left (snd st')) < sum_list (map calls_left (snd st))"
  by (induction rule: try_init_step.induct) (simp_all add: sum_list_update_less)

lemma try_init_not_stuck:
  assumes "\<not> returned c" "c \<in> set cs" shows "\<exists>st'. try_init_step fl key (h, cs) st'"
proof -
  obtain i where i: "i < length cs" "cs ! i = c" using assms(2) by (auto simp: in_set_conv_nth)
  show ?thesis
  proof (cases c)
    case (Calling init)
    then show ?thesis
      using i hit [of i cs init h key] miss [of i cs init h key] by (cases "htab_lookup h key") auto
  next
    case (Missed init)
    obtain err h' where "htab_update h key init fl = (err, h')" by fastforce
    then show ?thesis using i Missed store [of i cs init h key fl err h'] by auto
  next
    case (Stored err)
    then show ?thesis using i fail [of i cs err fl key h] again [of i cs err fl key h] by auto
  qed (use assms(1) in simp)
qed

lemma try_init_finishes: "\<exists>h' cs'. try_init_steps fl key (h, cs) (h', cs') \<and> list_all returned cs'"
proof (induction "sum_list (map calls_left cs)" arbitrary: h cs rule: less_induct)
  case less
  show ?case
  proof (cases "list_all returned cs")
    case False
    then obtain h1 cs1 where "try_init_step fl key (h, cs) (h1, cs1)"
      using try_init_not_stuck [of _ cs fl key h] by (fastforce simp: list_all_iff)
    moreover from try_init_step_left [OF this] have "sum_list (map calls_left cs1) < sum_list (map calls_left cs)" by simp
    from less [OF this] obtain h' cs' where "try_init_steps fl key (h1, cs1) (h', cs')" "list_all returned cs'" by blast
    ultimately show ?thesis by (meson converse_rtranclp_into_rtranclp)
  qed auto
qed

section \<open>Callers that insert only if there is nothing\<close>

text \<open>\<open>old\<close> is what the map had for the key, and \<open>inits\<close> what the callers would insert.\<close>

definition agreed :: "'k \<Rightarrow> 'v option \<Rightarrow> 'v set \<Rightarrow> ('k, 'v) htab \<times> 'v try_init list \<Rightarrow> bool" where
  "agreed key old inits = (\<lambda>(h, cs).
     (case htab_lookup h key of None \<Rightarrow> length (ht_elems h) < ht_max h \<and> old = None | Some v \<Rightarrow> old = Some v \<or> old = None \<and> v \<in> inits) \<and>
     (\<forall>c \<in> set cs. case c of
        Calling init \<Rightarrow> init \<in> inits
      | Missed init \<Rightarrow> init \<in> inits \<and> old = None
      | Stored err \<Rightarrow> (err = 0 \<or> err = - EEXIST) \<and> htab_lookup h key \<noteq> None
      | Returned r \<Rightarrow> r = htab_lookup h key \<and> r \<noteq> None))"

lemma agreed_step:
  assumes "try_init_step BPF_NOEXIST key st st'" "agreed key old inits st"
  shows "agreed key old inits st'"
  using assms
proof (induction rule: try_init_step.induct)
  case (hit i cs init h v)
  then show ?case by (auto simp: agreed_def dest!: subsetD [OF set_update_subset_insert])
next
  case (miss i cs init h)
  then have "Calling init \<in> set cs" by (metis nth_mem)
  then show ?case using miss by (auto simp: agreed_def dest!: subsetD [OF set_update_subset_insert])
next
  case (store i cs init h err h')
  then have "Missed init \<in> set cs" by (metis nth_mem)
  then have init: "init \<in> inits" "old = None" using store.prems by (auto simp: agreed_def)
  show ?case
  proof (cases "htab_lookup h key")
    case None
    then have "err = 0" "htab_lookup h' = (htab_lookup h)(key \<mapsto> init)"
      using store htab.update_ok [of h key init BPF_NOEXIST h'] by (auto simp: agreed_def htab_update_def)
    then show ?thesis
      using store.prems None init
      by (auto simp: agreed_def split: try_init.splits dest!: subsetD [OF set_update_subset_insert])
  next
    case (Some v)
    then have "err = - EEXIST" "h' = h" using store.hyps by (simp_all add: htab_update_def)
    then show ?thesis
      using store.prems Some by (auto simp: agreed_def dest!: subsetD [OF set_update_subset_insert])
  qed
next
  case (fail i cs err h)
  then have "Stored err \<in> set cs" by (metis nth_mem)
  then show ?case using fail by (auto simp: agreed_def)
next
  case (again i cs err h)
  then have "Stored err \<in> set cs" by (metis nth_mem)
  then show ?case using again by (auto simp: agreed_def dest!: subsetD [OF set_update_subset_insert])
qed

lemma agreed_steps: "try_init_steps BPF_NOEXIST key st st' \<Longrightarrow> agreed key old inits st \<Longrightarrow> agreed key old inits st'"
  by (induction rule: rtranclp_induct) (auto intro: agreed_step)

lemma length_steps: "try_init_steps fl key st st' \<Longrightarrow> length (snd st') = length (snd st)"
  by (induction rule: rtranclp_induct) (auto elim: try_init_step.cases)

text \<open>With no entry for the key and no room for one, no update succeeds and nothing changes.\<close>

definition refused :: "'k \<Rightarrow> ('k, 'v) htab \<Rightarrow> ('k, 'v) htab \<times> 'v try_init list \<Rightarrow> bool" where
  "refused key h = (\<lambda>(h', cs). h' = h \<and>
     (\<forall>c \<in> set cs. case c of Stored err \<Rightarrow> err \<noteq> 0 \<and> err \<noteq> - EEXIST | Returned r \<Rightarrow> r = None | _ \<Rightarrow> True))"

lemma refused_step:
  assumes "htab_lookup h key = None" "\<not> length (ht_elems h) < ht_max h"
    and "try_init_step BPF_NOEXIST key st st'" "refused key h st"
  shows "refused key h st'"
  using assms(3,4)
proof (induction rule: try_init_step.induct)
  case (store i cs init g err h')
  then have "g = h" by (simp add: refused_def)
  then have "h' = h" "err \<noteq> 0" "err \<noteq> - EEXIST"
    using store.hyps(3) assms(1,2) by (auto simp: htab_update_def c_consts)
  then show ?case
    using store.prems by (auto simp: refused_def dest!: subsetD [OF set_update_subset_insert])
next
  case (again i cs err g)
  then have "Stored err \<in> set cs" by (metis nth_mem)
  then show ?case using again by (auto simp: refused_def)
qed (use assms(1) in \<open>auto simp: refused_def dest!: subsetD [OF set_update_subset_insert]\<close>)

lemma refused_steps:
  assumes "htab_lookup h key = None" "\<not> length (ht_elems h) < ht_max h"
  shows "try_init_steps BPF_NOEXIST key st st' \<Longrightarrow> refused key h st \<Longrightarrow> refused key h st'"
  by (induction rule: rtranclp_induct) (auto intro: refused_step [OF assms])

section \<open>Properties\<close>

text \<open>C32: However calls of the copy with \<^verbatim>\<open>BPF_NOEXIST\<close> for one key on several CPUs interleave (at least one
  call, and nothing else at work on the map), when they have all returned they have returned the
  same, and it is what the map then has for the key: the value from before if there was one; if there was
  none and the map has a free entry, what one of them inserted; and if the map is full, \<^verbatim>\<open>NULL\<close>.\<close>

theorem try_init_callers_agree:
  assumes "try_init_steps BPF_NOEXIST key (h, map Calling inits) (h', callers)" and "list_all returned callers"
    and "inits \<noteq> []"
  shows "\<exists>r. callers = replicate (length inits) (Returned r) \<and> htab_lookup h' key = r \<and>
    (case htab_lookup h key of
       Some v \<Rightarrow> r = Some v
     | None \<Rightarrow> if length (ht_elems h) < ht_max h then r \<in> Some ` set inits else r = None)"
proof -
  have len: "length callers = length inits" using length_steps [OF assms(1)] by simp
  have same: "callers = replicate (length inits) (Returned r)"
    if only: "\<And>r'. Returned r' \<in> set callers \<Longrightarrow> r' = r" for r
  proof -
    have "c = Returned r" if c: "c \<in> set callers" for c
    proof -
      have "returned c" using c assms(2) by (simp add: list_all_iff)
      then obtain r' where "c = Returned r'" by (cases c) simp_all
      with c only show ?thesis by blast
    qed
    then show ?thesis using len by (metis replicate_length_same)
  qed
  show ?thesis
  proof (cases "htab_lookup h key = None \<and> \<not> length (ht_elems h) < ht_max h")
    case True
    then have "refused key h (h', callers)"
      using refused_steps [OF _ _ assms(1)] by (auto simp: refused_def)
    then have "h' = h" "\<And>r'. Returned r' \<in> set callers \<Longrightarrow> r' = None" by (auto simp: refused_def)
    then show ?thesis using True same [of None] by simp
  next
    case False
    then have "agreed key (htab_lookup h key) (set inits) (h, map Calling inits)"
      by (auto simp: agreed_def split: option.split)
    then have agreed: "agreed key (htab_lookup h key) (set inits) (h', callers)"
      by (rule agreed_steps [OF assms(1)])
    then have all: "\<And>r'. Returned r' \<in> set callers \<Longrightarrow> r' = htab_lookup h' key \<and> r' \<noteq> None"
      by (auto simp: agreed_def)
    then have eq: "callers = replicate (length inits) (Returned (htab_lookup h' key))"
      by (intro same) blast
    then have "Returned (htab_lookup h' key) \<in> set callers" using assms(3) by simp
    with all obtain v where v: "htab_lookup h' key = Some v" by blast
    show ?thesis
      using eq agreed False by (intro exI [of _ "htab_lookup h' key"]) (auto simp: agreed_def v split: option.split)
  qed
qed

theorem try_init_callers_agree_witness:
  "(\<exists>h' v. try_init_steps BPF_NOEXIST (1 :: nat) (htab_empty 1, map Calling [2 :: nat, 3])
      (h', [Returned (Some v), Returned (Some v)]) \<and> v \<in> {2, 3}) \<and>
   (\<exists>h'. try_init_steps BPF_NOEXIST (1 :: nat) (htab_empty 0, map Calling [2 :: nat]) (h', [Returned None]))"
proof -
  obtain h' callers where run: "try_init_steps BPF_NOEXIST (1 :: nat) (htab_empty 1, map Calling [2 :: nat, 3]) (h', callers)"
    "list_all returned callers"
    using try_init_finishes [of BPF_NOEXIST 1 "htab_empty 1" "map Calling [2 :: nat, 3]"] by blast
  obtain h2 callers2 where run2: "try_init_steps BPF_NOEXIST (1 :: nat) (htab_empty 0, map Calling [2 :: nat]) (h2, callers2)"
    "list_all returned callers2"
    using try_init_finishes [of BPF_NOEXIST 1 "htab_empty 0" "map Calling [2 :: nat]"] by blast
  have empty: "htab_lookup (htab_empty n :: (nat, nat) htab) 1 = None" "ht_elems (htab_empty n :: (nat, nat) htab) = []"
    "ht_max (htab_empty n :: (nat, nat) htab) = n" for n
    by (simp_all add: htab_empty_def htab_lookup_def)
  from try_init_callers_agree [OF run] obtain v where
    "callers = [Returned (Some v), Returned (Some v)]" "v \<in> {2, 3}" by (auto simp: empty)
  moreover from try_init_callers_agree [OF run2] have "callers2 = [Returned None]" by (auto simp: empty)
  ultimately show ?thesis using run(1) run2(1) by blast
qed

text \<open>With the copy of \<^verbatim>\<open>map_helpers.h\<close>, which the programs include, they need not agree: a caller whose
  lookup found nothing overwrites what another CPU inserted in between, and both return what they
  inserted themselves. The test for \<^verbatim>\<open>EEXIST\<close> that follows the update never applies.\<close>

theorem try_init_any_overwrites:
  fixes h :: "('k, 'v) htab"
  assumes "htab_lookup h key = None" "length (ht_elems h) < ht_max h"
  shows "\<exists>h'. try_init_steps BPF_ANY key (h, [Calling v, Calling w]) (h', [Returned (Some v), Returned (Some w)]) \<and>
    htab_lookup h' key = Some w \<and>
    (\<forall>(g :: ('k, 'v) htab) init err g'. htab_update g key init BPF_ANY = (err, g') \<longrightarrow> err \<noteq> - EEXIST)"
proof -
  let ?step = "try_init_step BPF_ANY key"
  obtain h1 where h1: "htab_update h key v BPF_ANY = (0, h1)" "htab_lookup h1 key = Some v"
    using htab_update_room [OF assms(2), of key v] htab.update_ok [of h key v BPF_ANY] by (metis fun_upd_same prod.collapse)
  obtain h2 where h2: "htab_update h1 key w BPF_ANY = (0, h2)" "htab_lookup h2 key = Some w"
    using htab.update_present [OF h1(2), of w] htab.update_ok [of h1 key w BPF_ANY] by (metis fun_upd_same prod.collapse)
  have "?step (h, [Calling v, Calling w]) (h, [Missed v, Calling w])"
    "?step (h, [Missed v, Calling w]) (h, [Missed v, Missed w])"
    "?step (h, [Missed v, Missed w]) (h1, [Stored 0, Missed w])"
    "?step (h1, [Stored 0, Missed w]) (h1, [Returned (Some v), Missed w])"
    "?step (h1, [Returned (Some v), Missed w]) (h2, [Returned (Some v), Stored 0])"
    "?step (h2, [Returned (Some v), Stored 0]) (h2, [Returned (Some v), Returned (Some w)])"
    using miss [of 0 "[Calling v, Calling w]" v h key BPF_ANY] miss [of 1 "[Missed v, Calling w]" w h key BPF_ANY]
      store [of 0 "[Missed v, Missed w]" v h key BPF_ANY 0 h1] again [of 0 "[Stored 0, Missed w]" 0 BPF_ANY key h1]
      store [of 1 "[Returned (Some v), Missed w]" w h1 key BPF_ANY 0 h2]
      again [of 1 "[Returned (Some v), Stored 0]" 0 BPF_ANY key h2] assms h1 h2
    by simp_all
  then have "try_init_steps BPF_ANY key (h, [Calling v, Calling w]) (h2, [Returned (Some v), Returned (Some w)])"
    by simp
  moreover have "\<forall>(g :: ('k, 'v) htab) init err g'. htab_update g key init BPF_ANY = (err, g') \<longrightarrow> err \<noteq> - EEXIST"
    by (auto simp: htab_update_def c_consts split: option.splits if_splits)
  ultimately show ?thesis by (intro exI [of _ h2] conjI h2(2))
qed

theorem try_init_any_overwrites_witness:
  "\<exists>h'. try_init_steps BPF_ANY (1 :: nat) (htab_empty 1, [Calling (2 :: nat), Calling 3]) (h', [Returned (Some 2), Returned (Some 3)]) \<and>
    htab_lookup h' 1 = Some 3"
  using try_init_any_overwrites [of "htab_empty 1" "1 :: nat" "2 :: nat" 3] by (auto simp: htab_empty_def htab_lookup_def)

end
