(* ===== verification/Sampling.thy ===== *)
theory Sampling
  imports Xdp Nft_Trace "HOL-Library.Multiset"
begin

text \<open>
  The small shared headers: atomic operations (\<^verbatim>\<open>atomic.h\<close>), the packet counter and the
  sampling decision (\<^verbatim>\<open>counters.h\<close>) with a step relation for several CPUs, the fixed-length
  string comparison (\<^verbatim>\<open>string.h\<close>), the role of a socket and the identifier of an event
  (\<^verbatim>\<open>role.h\<close>) and the message event (\<^verbatim>\<open>lib_tp_msg.h\<close>).
\<close>

section \<open>Atomic operations\<close>

text \<open>Each returns the old value and the new contents of the cell; the builtins wrap around.\<close>

definition atomic_fetch_add :: "'a::len word \<Rightarrow> 'a word \<Rightarrow> 'a word \<times> 'a word" where
  "atomic_fetch_add val cell = (cell, cell + val)"

definition atomic_fetch_and :: "'a::len word \<Rightarrow> 'a word \<Rightarrow> 'a word \<times> 'a word" where
  "atomic_fetch_and val cell = (cell, cell AND val)"

definition atomic_fetch_or :: "'a::len word \<Rightarrow> 'a word \<Rightarrow> 'a word \<times> 'a word" where
  "atomic_fetch_or val cell = (cell, cell OR val)"

definition atomic_fetch_xor :: "'a::len word \<Rightarrow> 'a word \<Rightarrow> 'a word \<times> 'a word" where
  "atomic_fetch_xor val cell = (cell, cell XOR val)"

definition atomic_xchg :: "'a::len word \<Rightarrow> 'a word \<Rightarrow> 'a word \<times> 'a word" where
  "atomic_xchg cell new = (cell, new)"

definition atomic_cmpxchg :: "'a::len word \<Rightarrow> 'a word \<Rightarrow> 'a word \<Rightarrow> 'a word \<times> 'a word" where
  "atomic_cmpxchg cell old new = (cell, if cell = old then new else cell)"

section \<open>The packet counter and the sampling decision\<close>

record sampler =
  pkt_counter :: "u64 list"
  sample_rate :: "u64 list"

definition sampler_init :: sampler where
  "sampler_init = \<lparr>pkt_counter = [0], sample_rate = [0]\<rparr>"

definition upd_counter_in_map :: "u64 list \<Rightarrow> u64 \<times> u64 list" where
  "upd_counter_in_map a =
     (case arr_lookup a 0 of
        Some cell \<Rightarrow> (let (old, new) = atomic_fetch_add 1 cell in (old, a[0 := new]))
      | None \<Rightarrow> (0, snd (arr_update a 0 0 BPF_NOEXIST)))"

definition PKT_COUNTER_INC :: "sampler \<Rightarrow> u64 \<times> sampler" where
  "PKT_COUNTER_INC s = (let (n, a) = upd_counter_in_map (pkt_counter s) in (n, s\<lparr>pkt_counter := a\<rparr>))"

text \<open>The decision for a packet with the count \<open>pkt_cnt\<close>, a 32-bit value.\<close>

definition grab_decision :: "sampler \<Rightarrow> u32 \<Rightarrow> bool" where
  "grab_decision s pkt_cnt =
     (case arr_lookup (sample_rate s) 0 of
        Some cell \<Rightarrow>
          (let rate = fst (atomic_fetch_add 0 cell)
           in if rate > 0 then \<not> ucast (pkt_cnt mod 100) > rate else True)
      | None \<Rightarrow> True)"

definition grab_data :: "sampler \<Rightarrow> bool \<times> sampler" where
  "grab_data s = (let (n, s) = PKT_COUNTER_INC s in (grab_decision s (ucast n), s))"

text \<open>
  Packets on several CPUs: a call of \<^verbatim>\<open>grab_data\<close> is two atomic actions, the increment of the
  counter and the read of the rate; between them other calls run. The count a finished call had
  is kept for the proofs.
\<close>

datatype grab_call = Waiting | Counted u32 | Decided u32 bool

inductive grab_step :: "sampler \<times> grab_call list \<Rightarrow> sampler \<times> grab_call list \<Rightarrow> bool" where
  count: "i < length calls \<Longrightarrow> calls ! i = Waiting \<Longrightarrow> PKT_COUNTER_INC s = (n, s') \<Longrightarrow>
    grab_step (s, calls) (s', calls[i := Counted (ucast n)])"
| decide: "i < length calls \<Longrightarrow> calls ! i = Counted n \<Longrightarrow>
    grab_step (s, calls) (s, calls[i := Decided n (grab_decision s n)])"

fun tickets :: "grab_call list \<Rightarrow> u32 list" where
  "tickets [] = []"
| "tickets (Waiting # cs) = tickets cs"
| "tickets (Counted n # cs) = n # tickets cs"
| "tickets (Decided n b # cs) = n # tickets cs"

abbreviation let_through :: "grab_call list \<Rightarrow> nat" where
  "let_through calls \<equiv> length (filter (\<lambda>c. \<exists>n. c = Decided n True) calls)"

abbreviation decided :: "grab_call \<Rightarrow> bool" where
  "decided c \<equiv> (\<exists>n b. c = Decided n b)"

section \<open>Strings\<close>

text \<open>
  \<^verbatim>\<open>strcmp(a, b)\<close> on two arrays of 16 bytes. The index is advanced by the loop and by the test
  for the end of the string, which reads \<open>b\<close> at the advanced index. \<open>None\<close> is a read outside an
  array or fuel that has run out.
\<close>

definition read16 :: "bytes \<Rightarrow> nat \<Rightarrow> u8 option" where
  "read16 a i = (if i < 16 \<and> i < length a then Some (a ! i) else None)"

fun strcmp_loop :: "nat \<Rightarrow> bytes \<Rightarrow> bytes \<Rightarrow> nat \<Rightarrow> u32 option" where
  "strcmp_loop 0 a b i = None"
| "strcmp_loop (Suc fuel) a b i =
     (if i < 16 then
        Option.bind (read16 a i) (\<lambda>x. Option.bind (read16 b i) (\<lambda>y.
          if x \<noteq> y then Some 1
          else if x = 0
          then Option.bind (read16 b (Suc i)) (\<lambda>z. if z = 0 then Some 0 else strcmp_loop fuel a b (i + 2))
          else strcmp_loop fuel a b (i + 2)))
      else Some 0)"

definition strcmp :: "bytes \<Rightarrow> bytes \<Rightarrow> u32 option" where
  "strcmp a b = strcmp_loop 9 a b 0"

section \<open>Roles, identifiers, versions, messages\<close>

datatype connection_role = CONNECTION_ROLE_UNKNOWN | CONNECTION_ROLE_CLIENT | CONNECTION_ROLE_SERVER

text \<open>\<open>off\<close> is the offset of \<^verbatim>\<open>sk_max_ack_backlog\<close>, which is relocated.\<close>

definition get_sock_role :: "bytemem \<Rightarrow> nat \<Rightarrow> ptr \<Rightarrow> connection_role" where
  "get_sock_role m off sock =
     (let (err, bs) = probe_read m 4 (sock + of_nat off);
          max_ack_backlog = (le_word bs :: u32)
      in if 0 \<noteq> err then CONNECTION_ROLE_UNKNOWN
         else if max_ack_backlog = 0 then CONNECTION_ROLE_CLIENT else CONNECTION_ROLE_SERVER)"

definition role_get_unique_id :: "run_ctx \<Rightarrow> nat \<Rightarrow> u32" where
  "role_get_unique_id c n = ucast (ktime c n mod 0xFFFFFFFF)"

record errmsg =
  em_msg :: bytes
  em_len :: u16
  em_probe_type :: u8
  em_retval :: u8

text \<open>\<open>stack\<close> is the uninitialised structure; the read overwrites all that the string needs.\<close>

definition output_msg ::
  "bytemem \<Rightarrow> bool \<Rightarrow> errmsg \<Rightarrow> ptr \<Rightarrow> probing_type \<Rightarrow> u32 \<Rightarrow> errmsg list \<Rightarrow> errmsg list" where
  "output_msg m ok stack msg probe_type retval out =
     (let (len, bs) = probe_read_str m (em_msg stack) msg;
          ev = stack\<lparr>em_msg := bs, em_len := word_of_int len, em_probe_type := ucast (probing_num probe_type),
                     em_retval := ucast retval\<rparr>
      in bpf_perf_event_output ok ev out)"

section \<open>The sampler under concurrency\<close>

lemma sampler_count:
  "pkt_counter s = [c] \<Longrightarrow> PKT_COUNTER_INC s = (c, s\<lparr>pkt_counter := [c + 1]\<rparr>)"
  by (simp add: PKT_COUNTER_INC_def upd_counter_in_map_def arr_lookup_def atomic_fetch_add_def)

lemma grab_decision_rate:
  assumes "sample_rate s = [r]"
  shows "grab_decision s n \<longleftrightarrow> r = 0 \<or> unat n mod 100 \<le> unat r"
proof -
  have "unat n mod 100 < 2 ^ 64" by (rule less_trans [of _ 100]) simp_all
  then have "take_bit 64 (unat n mod 100) = unat n mod 100" by (rule take_bit_nat_eq_self)
  with assms show ?thesis
    by (simp add: grab_decision_def arr_lookup_def atomic_fetch_add_def word_gt_0 not_less word_le_nat_alt
        unat_mod unsigned_ucast_eq)
qed

lemma mset_tickets_count:
  "i < length cs \<Longrightarrow> cs ! i = Waiting \<Longrightarrow> mset (tickets (cs[i := Counted n])) = add_mset n (mset (tickets cs))"
proof (induction cs arbitrary: i)
  case (Cons c cs)
  then show ?case by (cases i; cases c) auto
qed simp

lemma tickets_decide:
  "i < length cs \<Longrightarrow> cs ! i = Counted n \<Longrightarrow> tickets (cs[i := Decided n b]) = tickets cs"
proof (induction cs arbitrary: i)
  case (Cons c cs)
  then show ?case by (cases i; cases c) auto
qed simp

lemma tickets_waiting [simp]: "tickets (replicate n Waiting) = []"
  by (induction n) auto

lemma tickets_decided:
  assumes "list_all decided cs" and "\<And>n b. Decided n b \<in> set cs \<Longrightarrow> b \<longleftrightarrow> P n"
  shows "length (tickets cs) = length cs" "let_through cs = length (filter P (tickets cs))"
  using assms by (induction cs rule: tickets.induct) fastforce+

definition grab_inv :: "u64 \<Rightarrow> u64 \<Rightarrow> nat \<Rightarrow> sampler \<times> grab_call list \<Rightarrow> bool" where
  "grab_inv c r k = (\<lambda>(s, cs). length cs = k \<and> sample_rate s = [r] \<and>
     pkt_counter s = [c + of_nat (length (tickets cs))] \<and>
     mset (tickets cs) = mset (map (\<lambda>j. ucast (c + of_nat j)) [0..<length (tickets cs)]) \<and>
     (\<forall>n b. Decided n b \<in> set cs \<longrightarrow> (b \<longleftrightarrow> r = 0 \<or> unat n mod 100 \<le> unat r)))"

lemma set_update_decided:
  "Decided n b \<in> set (cs[i := x]) \<Longrightarrow> Decided n b = x \<or> Decided n b \<in> set cs"
  using set_update_subset_insert by fastforce

lemma mset_set_Suc: "mset_set {0..<Suc n} = add_mset n (mset_set {0..<n})"
  by (simp add: atLeast0_lessThan_Suc)

lemma grab_inv_step:
  assumes "grab_step st st'" and "grab_inv c r k st"
  shows "grab_inv c r k st'"
  using assms
proof (induction rule: grab_step.induct)
  case (count i cs s n s')
  let ?m = "length (tickets cs)"
  have c: "PKT_COUNTER_INC s = (c + of_nat ?m, s\<lparr>pkt_counter := [c + of_nat ?m + 1]\<rparr>)"
    using count.prems by (intro sampler_count) (simp add: grab_inv_def)
  have m: "mset (tickets (cs[i := Counted (ucast n)])) = add_mset (ucast n) (mset (tickets cs))"
    using count.hyps by (intro mset_tickets_count)
  then have "length (tickets (cs[i := Counted (ucast n)])) = Suc ?m"
    by (metis size_mset size_add_mset)
  with m c count.hyps(3) count.prems show ?case
    by (auto simp: grab_inv_def algebra_simps mset_set_Suc dest!: set_update_decided)
next
  case (decide i cs n s)
  then show ?case
    by (auto simp: grab_inv_def tickets_decide grab_decision_rate dest!: set_update_decided)
qed

lemma grab_inv_steps:
  "grab_step\<^sup>*\<^sup>* st st' \<Longrightarrow> grab_inv c r k st \<Longrightarrow> grab_inv c r k st'"
  by (induction rule: rtranclp_induct) (auto intro: grab_inv_step)

lemma length_filter_mset: "mset xs = mset ys \<Longrightarrow> length (filter P xs) = length (filter P ys)"
  by (metis mset_filter size_mset)

text \<open>In any hundred consecutive counts, \<open>r + 1\<close> have a remainder of at most \<open>r\<close>.\<close>

lemma window_count:
  fixes a r :: nat
  assumes "r < 100"
  shows "length (filter (\<lambda>j. (a + j) mod 100 \<le> r) [0..<100]) = Suc r"
proof -
  have inj: "inj_on (\<lambda>j. (a + j) mod 100) {0..<100}"
  proof (rule inj_onI)
    fix x y :: nat
    assume small: "x \<in> {0..<100}" "y \<in> {0..<100}" and "(a + x) mod 100 = (a + y) mod 100"
    then obtain p q where "a + x + 100 * p = a + y + 100 * q"
      unfolding nat_mod_eq_iff by blast
    then have "(x + 100 * p) mod 100 = (y + 100 * q) mod 100" by (simp only: add.assoc add_left_cancel)
    then show "x = y" using small by simp
  qed
  have all: "(\<lambda>j. (a + j) mod 100) ` {0..<100} = {0..<100}"
    by (rule card_subset_eq) (auto simp: card_image inj)
  have "(\<lambda>j. (a + j) mod 100) ` {j \<in> {0..<100}. (a + j) mod 100 \<le> r} =
      (\<lambda>j. (a + j) mod 100) ` {0..<100} \<inter> {..r}" by auto
  also have "\<dots> = {0..r}" unfolding all using assms by auto
  finally have "bij_betw (\<lambda>j. (a + j) mod 100) {j \<in> {0..<100}. (a + j) mod 100 \<le> r} {0..r}"
    using inj by (auto simp: bij_betw_def intro: inj_on_subset)
  then have "card {j \<in> {0..<100}. (a + j) mod 100 \<le> r} = Suc r"
    using bij_betw_same_card by fastforce
  then show ?thesis
    by (simp add: distinct_length_filter Int_def conj_commute)
qed

lemma windows_count:
  fixes a r :: nat
  assumes "r < 100"
  shows "length (filter (\<lambda>j. (a + j) mod 100 \<le> r) [0..<100 * k]) = k * Suc r"
proof (induction k)
  case (Suc k)
  have "[0..<100 * Suc k] = [0..<100 * k] @ map (\<lambda>j. j + 100 * k) [0..<100]"
    using upt_add_eq_append [of 0 "100 * k" 100] by (simp add: map_add_upt add.commute)
  moreover have "length (filter (\<lambda>j. (a + j) mod 100 \<le> r) (map (\<lambda>j. j + 100 * k) [0..<100])) = Suc r"
    using window_count [OF assms, of "a + 100 * k"] by (simp add: filter_map o_def add_ac)
  ultimately show ?case using Suc by simp
qed simp

text \<open>Whatever calls are waiting, some order of their actions finishes them all.\<close>

fun actions_left :: "grab_call \<Rightarrow> nat" where
  "actions_left Waiting = 2"
| "actions_left (Counted n) = 1"
| "actions_left (Decided n b) = 0"

lemma grab_calls_finish: "\<exists>s' cs'. grab_step\<^sup>*\<^sup>* (s, cs) (s', cs') \<and> list_all decided cs'"
proof (induction "sum_list (map actions_left cs)" arbitrary: s cs rule: less_induct)
  case less
  show ?case
  proof (cases "list_all decided cs")
    case False
    then obtain i where i: "i < length cs" "\<not> decided (cs ! i)" by (auto simp: list_all_length)
    obtain s1 x where st: "grab_step (s, cs) (s1, cs[i := x])" "actions_left x < actions_left (cs ! i)"
    proof (cases "cs ! i")
      case Waiting
      obtain n s1 where "PKT_COUNTER_INC s = (n, s1)" by fastforce
      with i Waiting show ?thesis using that [of s1 "Counted (ucast n)"] grab_step.count by simp
    next
      case (Counted n)
      with i show ?thesis using that [of s "Decided n (grab_decision s n)"] grab_step.decide by simp
    next
      case (Decided n b)
      with i show ?thesis by simp
    qed
    with less [of "cs[i := x]" s1] sum_list_update_less [OF i(1) st(2)] show ?thesis
      by (meson converse_rtranclp_into_rtranclp)
  qed auto
qed

lemma count_low:
  assumes "unat c mod 2 ^ 32 + j < 2 ^ 32"
  shows "unat (ucast (c + of_nat j :: u64) :: u32) = unat c mod 2 ^ 32 + j"
proof -
  have "unat (ucast (c + of_nat j :: u64) :: u32) = (unat c + j) mod 2 ^ 32"
    by (simp add: unsigned_ucast_eq take_bit_eq_mod unat_word_ariths unat_of_nat mod_mod_cancel mod_simps)
  also have "\<dots> = (unat c mod 2 ^ 32 + j) mod 2 ^ 32" by (simp add: mod_add_left_eq)
  also have "\<dots> = unat c mod 2 ^ 32 + j" using assms by simp
  finally show ?thesis .
qed

section \<open>Properties\<close>

text \<open>C35: However the calls on several CPUs interleave, no two packets get the same count, none is lost,
  and with a sampling rate \<open>r\<close> between 1 and 99 exactly \<open>r + 1\<close> of every hundred packets are let through
  (the comparison is off by one from a percentage), as long as the 32-bit count does not wrap around.\<close>

theorem sampler_lets_through:
  assumes "grab_step\<^sup>*\<^sup>* (s, replicate (100 * k) Waiting) (s', calls)" and "list_all decided calls"
    and "pkt_counter s = [c]" "sample_rate s = [r]" "0 < r" "r < 100"
    and "unat c mod 2 ^ 32 + 100 * k \<le> 2 ^ 32"
  shows "let_through calls = k * Suc (unat r) \<and> pkt_counter s' = [c + of_nat (100 * k)] \<and>
    distinct (tickets calls)"
proof -
  let ?f = "\<lambda>j. ucast (c + of_nat j) :: u32"
  let ?P = "\<lambda>n. r = 0 \<or> unat n mod 100 \<le> unat r"
  have inv: "grab_inv c r (100 * k) (s', calls)"
    using assms(1) by (rule grab_inv_steps) (simp add: grab_inv_def assms)
  then have len: "length (tickets calls) = 100 * k"
    using tickets_decided(1) [OF assms(2), of ?P] by (simp add: grab_inv_def)
  then have mset: "mset (tickets calls) = mset (map ?f [0..<100 * k])"
    using inv by (simp add: grab_inv_def)
  have low: "unat (?f j) = unat c mod 2 ^ 32 + j" if "j < 100 * k" for j
    using assms(7) that by (intro count_low) linarith
  have "let_through calls = length (filter ?P (tickets calls))"
    using inv by (intro tickets_decided(2) [OF assms(2)]) (simp add: grab_inv_def)
  also have "\<dots> = length (filter ?P (map ?f [0..<100 * k]))"
    using mset by (rule length_filter_mset)
  also have "\<dots> = length (filter (\<lambda>j. (unat c mod 2 ^ 32 + j) mod 100 \<le> unat r) [0..<100 * k])"
  proof -
    have "filter (\<lambda>j. ?P (?f j)) [0..<100 * k] = filter (\<lambda>j. (unat c mod 2 ^ 32 + j) mod 100 \<le> unat r) [0..<100 * k]"
    proof (rule filter_cong [OF refl])
      fix j assume "j \<in> set [0..<100 * k]"
      then have "unat (?f j) = unat c mod 2 ^ 32 + j" by (intro low) simp
      then show "?P (?f j) = ((unat c mod 2 ^ 32 + j) mod 100 \<le> unat r)" using assms(5) by (simp only:) auto
    qed
    then show ?thesis by (simp only: filter_map o_def length_map)
  qed
  also have "\<dots> = k * Suc (unat r)"
    using assms(6) by (intro windows_count) (simp add: word_less_nat_alt)
  finally have through: "let_through calls = k * Suc (unat r)" .
  have "distinct (map ?f [0..<100 * k])"
    using low by (auto simp: distinct_map intro!: inj_onI) (metis add_left_cancel)
  with mset have "distinct (tickets calls)" using mset_eq_imp_distinct_iff by blast
  with through inv len show ?thesis by (simp add: grab_inv_def)
qed

theorem sampler_lets_through_witness:
  "\<exists>s' calls. grab_step\<^sup>*\<^sup>* (sampler_init\<lparr>sample_rate := [5]\<rparr>, replicate 200 Waiting) (s', calls) \<and>
     let_through calls = 12"
proof -
  obtain s' calls where run:
    "grab_step\<^sup>*\<^sup>* (sampler_init\<lparr>sample_rate := [5]\<rparr>, replicate 200 Waiting) (s', calls)" "list_all decided calls"
    using grab_calls_finish by blast
  have "grab_step\<^sup>*\<^sup>* (sampler_init\<lparr>sample_rate := [5]\<rparr>, replicate (100 * 2) Waiting) (s', calls)"
    using run(1) by simp
  from sampler_lets_through [OF this run(2), of 0 5] run(1) show ?thesis
    by (auto simp: sampler_init_def)
qed

text \<open>The comparison from the even index \<open>2 * i\<close> on.\<close>

lemma strcmp_loop_from:
  assumes "length a = 16" "length b = 16" and "i + n = 8"
  shows "strcmp_loop (Suc n) a b (2 * i) =
    Some (if \<exists>k. i \<le> k \<and> k < 8 \<and> a ! (2 * k) \<noteq> b ! (2 * k) \<and>
             (\<forall>j. i \<le> j \<and> j < k \<longrightarrow> a ! (2 * j) \<noteq> 0 \<or> b ! Suc (2 * j) \<noteq> 0) then 1 else 0)"
  using assms(3)
proof (induction n arbitrary: i)
  case 0
  then show ?case by auto
next
  case (Suc n)
  then have i: "i < 8" "Suc i + n = 8" by auto
  have reads: "read16 a (2 * i) = Some (a ! (2 * i))" "read16 b (2 * i) = Some (b ! (2 * i))"
    "read16 b (Suc (2 * i)) = Some (b ! Suc (2 * i))"
    using i assms by (simp_all add: read16_def)
  let ?go = "\<lambda>j. a ! (2 * j) \<noteq> 0 \<or> b ! Suc (2 * j) \<noteq> 0"
  have split: "(\<exists>k. i \<le> k \<and> k < 8 \<and> a ! (2 * k) \<noteq> b ! (2 * k) \<and> (\<forall>j. i \<le> j \<and> j < k \<longrightarrow> ?go j)) \<longleftrightarrow>
      a ! (2 * i) \<noteq> b ! (2 * i) \<or> ?go i \<and>
      (\<exists>k. Suc i \<le> k \<and> k < 8 \<and> a ! (2 * k) \<noteq> b ! (2 * k) \<and> (\<forall>j. Suc i \<le> j \<and> j < k \<longrightarrow> ?go j))"
    (is "?l \<longleftrightarrow> ?r")
  proof
    assume ?l
    then obtain k where k: "i \<le> k" "k < 8" "a ! (2 * k) \<noteq> b ! (2 * k)" "\<forall>j. i \<le> j \<and> j < k \<longrightarrow> ?go j" by blast
    show ?r
    proof (cases "k = i")
      case True
      with k show ?thesis by blast
    next
      case False
      with k have "Suc i \<le> k" "?go i" "\<forall>j. Suc i \<le> j \<and> j < k \<longrightarrow> ?go j" by auto
      with k show ?thesis by blast
    qed
  next
    assume ?r
    then consider "a ! (2 * i) \<noteq> b ! (2 * i)" | k where "?go i" "Suc i \<le> k" "k < 8"
        "a ! (2 * k) \<noteq> b ! (2 * k)" "\<forall>j. Suc i \<le> j \<and> j < k \<longrightarrow> ?go j" by blast
    then show ?l
    proof cases
      case 1
      with i show ?thesis by (intro exI [of _ i]) auto
    next
      case 2
      have "?go j" if "i \<le> j \<and> j < k" for j
        using 2 that by (cases "j = i") simp_all
      with 2 show ?thesis by (intro exI [of _ k]) simp
    qed
  qed
  have step: "strcmp_loop (Suc (Suc n)) a b (2 * i) =
      (if a ! (2 * i) \<noteq> b ! (2 * i) then Some 1
       else if ?go i then strcmp_loop (Suc n) a b (2 * Suc i) else Some 0)"
    using i reads by (simp del: strcmp_loop.simps add: strcmp_loop.simps(2) [of "Suc n"])
  show ?case unfolding step split using Suc.IH [OF i(2)] by simp
qed

text \<open>C39: The comparison of two 16-byte arrays always returns, after at most eight rounds and without
  reading outside the arrays. It only compares the bytes at even indices: it reports a difference
  if there is one at an even index before the first place where \<open>a\<close> ends (a zero at an even index) and
  the byte of \<open>b\<close> after it is zero.\<close>

theorem strcmp_terminates:
  assumes "length a = 16" "length b = 16"
  shows "strcmp a b =
    Some (if \<exists>k < 8. a ! (2 * k) \<noteq> b ! (2 * k) \<and> (\<forall>j < k. a ! (2 * j) \<noteq> 0 \<or> b ! Suc (2 * j) \<noteq> 0) then 1 else 0)"
  using strcmp_loop_from [OF assms, of 0 8] by (simp add: strcmp_def)

text \<open>"ab" and "ac" are reported as equal; so the result is not that of a string comparison.\<close>

theorem strcmp_terminates_witness:
  "strcmp ([97, 98] @ replicate 14 0) ([97, 99] @ replicate 14 0) = Some 0"
proof -
  let ?a = "[97, 98] @ replicate 14 0 :: bytes" and ?b = "[97, 99] @ replicate 14 0 :: bytes"
  have "?a ! (2 * k) = ?b ! (2 * k)" for k by (cases k) (simp_all add: nth_append)
  then show ?thesis using strcmp_terminates [of ?a ?b] by simp
qed

text \<open>Identifiers of events less than about four seconds apart differ.\<close>

lemma unique_id_window:
  assumes "ktime c n < ktime c m" "ktime c m - ktime c n < 0xFFFFFFFF"
  shows "role_get_unique_id c n \<noteq> role_get_unique_id c m"
proof
  assume "role_get_unique_id c n = role_get_unique_id c m"
  then have "unat (ucast (ktime c n mod 0xFFFFFFFF) :: u32) = unat (ucast (ktime c m mod 0xFFFFFFFF) :: u32)"
    by (simp add: role_get_unique_id_def)
  moreover have "unat (ucast (x mod 0xFFFFFFFF) :: u32) = unat x mod 0xFFFFFFFF" for x :: u64
  proof -
    have "unat x mod 0xFFFFFFFF < 0xFFFFFFFF" by simp
    then have "unat x mod 0xFFFFFFFF < 2 ^ 32" by simp
    then show ?thesis by (simp add: unsigned_ucast_eq unat_mod take_bit_nat_eq_self)
  qed
  ultimately have "unat (ktime c n) mod 0xFFFFFFFF = unat (ktime c m) mod 0xFFFFFFFF" by simp
  then have "0xFFFFFFFF dvd unat (ktime c m) - unat (ktime c n)"
    using assms(1) by (metis mod_eq_dvd_iff_nat order_less_imp_le word_less_nat_alt)
  moreover have "unat (ktime c m) - unat (ktime c n) = unat (ktime c m - ktime c n)"
    using assms(1) by (simp add: unat_sub word_less_nat_alt word_le_nat_alt)
  ultimately show False
    using assms by (auto simp: word_less_nat_alt dest!: dvd_imp_le)
qed

end
