(* ===== verification/Layout.thy ===== *)
theory Layout
  imports Skb_Helpers Tcp_Link Nft_Trace Tc_Dump Unix_Sock Ethtool
begin

text \<open>
  The layout of C structures (x86-64 System V): alignment, padding, packed structures, unions
  and anonymous members. The declarations of the events and of the packet headers are written
  out as types, and the sizes and offsets the other theories use are shown to be theirs.
\<close>

section \<open>Types\<close>

text \<open>
  \<open>Bits b w\<close> is a run of bit-fields of a \<open>b\<close>-byte type, \<open>w\<close> bits in all; every run in the
  structures below starts at a multiple of \<open>b\<close> and crosses no storage unit. The name of an
  anonymous member is the empty string.
\<close>

datatype ctype = Scalar nat | Bits nat nat | Array ctype nat
  | Struct "(string \<times> ctype) list" | Packed "(string \<times> ctype) list" | Union "(string \<times> ctype) list"

definition align_up :: "nat \<Rightarrow> nat \<Rightarrow> nat" where
  "align_up a k = (k + a - 1) div a * a"

fun alignof :: "ctype \<Rightarrow> nat" and members_align :: "(string \<times> ctype) list \<Rightarrow> nat" where
  "alignof (Scalar n) = n"
| "alignof (Bits n w) = n"
| "alignof (Array t n) = alignof t"
| "alignof (Struct ms) = members_align ms"
| "alignof (Packed ms) = 1"
| "alignof (Union ms) = members_align ms"
| "members_align [] = 1"
| "members_align ((f, t) # ms) = max (alignof t) (members_align ms)"

fun sizeof :: "ctype \<Rightarrow> nat" and struct_end :: "nat \<Rightarrow> (string \<times> ctype) list \<Rightarrow> nat"
  and packed_end :: "nat \<Rightarrow> (string \<times> ctype) list \<Rightarrow> nat" and union_end :: "(string \<times> ctype) list \<Rightarrow> nat" where
  "sizeof (Scalar n) = n"
| "sizeof (Bits n w) = (w + 7) div 8"
| "sizeof (Array t n) = n * sizeof t"
| "sizeof (Struct ms) = align_up (members_align ms) (struct_end 0 ms)"
| "sizeof (Packed ms) = packed_end 0 ms"
| "sizeof (Union ms) = align_up (members_align ms) (union_end ms)"
| "struct_end k [] = k"
| "struct_end k ((f, t) # ms) = struct_end (align_up (alignof t) k + sizeof t) ms"
| "packed_end k [] = k"
| "packed_end k ((f, t) # ms) = packed_end (k + sizeof t) ms"
| "union_end [] = 0"
| "union_end ((f, t) # ms) = max (sizeof t) (union_end ms)"

text \<open>Where a member is: its offset and its type; the members of an anonymous one count as its own.\<close>

fun member :: "ctype \<Rightarrow> string \<Rightarrow> (nat \<times> ctype) option"
  and struct_member :: "nat \<Rightarrow> (string \<times> ctype) list \<Rightarrow> string \<Rightarrow> (nat \<times> ctype) option"
  and packed_member :: "nat \<Rightarrow> (string \<times> ctype) list \<Rightarrow> string \<Rightarrow> (nat \<times> ctype) option"
  and union_member :: "(string \<times> ctype) list \<Rightarrow> string \<Rightarrow> (nat \<times> ctype) option" where
  "member (Scalar n) f = None"
| "member (Bits n w) f = None"
| "member (Array t n) f = None"
| "member (Struct ms) f = struct_member 0 ms f"
| "member (Packed ms) f = packed_member 0 ms f"
| "member (Union ms) f = union_member ms f"
| "struct_member k [] f = None"
| "struct_member k ((g, t) # ms) f =
     (if g = f then Some (align_up (alignof t) k, t)
      else case (if g = [] then member t f else None) of
             Some (off, u) \<Rightarrow> Some (align_up (alignof t) k + off, u)
           | None \<Rightarrow> struct_member (align_up (alignof t) k + sizeof t) ms f)"
| "packed_member k [] f = None"
| "packed_member k ((g, t) # ms) f =
     (if g = f then Some (k, t)
      else case (if g = [] then member t f else None) of
             Some (off, u) \<Rightarrow> Some (k + off, u)
           | None \<Rightarrow> packed_member (k + sizeof t) ms f)"
| "union_member [] f = None"
| "union_member ((g, t) # ms) f =
     (if g = f then Some (0, t)
      else case (if g = [] then member t f else None) of
             Some (off, u) \<Rightarrow> Some (off, u)
           | None \<Rightarrow> union_member ms f)"

definition offsetof :: "ctype \<Rightarrow> string \<Rightarrow> nat" where
  "offsetof t f = (case member t f of Some (off, u) \<Rightarrow> off | None \<Rightarrow> 0)"

abbreviation u8_t :: ctype where "u8_t \<equiv> Scalar 1"
abbreviation u16_t :: ctype where "u16_t \<equiv> Scalar 2"
abbreviation u32_t :: ctype where "u32_t \<equiv> Scalar 4"
abbreviation u64_t :: ctype where "u64_t \<equiv> Scalar 8"
abbreviation ptr_t :: ctype where "ptr_t \<equiv> Scalar 8"
abbreviation chars :: "nat \<Rightarrow> ctype" where "chars n \<equiv> Array u8_t n"

section \<open>Declarations: packet headers\<close>

definition c_in6_addr :: ctype where
  "c_in6_addr = Struct [(''in6_u'', Union [(''u6_addr8'', Array u8_t 16), (''u6_addr16'', Array u16_t 8),
     (''u6_addr32'', Array u32_t 4)])]"

definition c_ethhdr :: ctype where
  "c_ethhdr = Struct [(''h_dest'', chars 6), (''h_source'', chars 6), (''h_proto'', u16_t)]"

definition c_vlan_hdr :: ctype where
  "c_vlan_hdr = Struct [(''h_vlan_TCI'', u16_t), (''h_vlan_encapsulated_proto'', u16_t)]"

definition c_iphdr :: ctype where
  "c_iphdr = Struct [(''ihl'', Bits 1 8), (''tos'', u8_t), (''tot_len'', u16_t), (''id'', u16_t),
     (''frag_off'', u16_t), (''ttl'', u8_t), (''protocol'', u8_t), (''check'', u16_t),
     ([], Union [([], Struct [(''saddr'', u32_t), (''daddr'', u32_t)]),
                 (''addrs'', Struct [(''saddr'', u32_t), (''daddr'', u32_t)])])]"

definition c_ipv6hdr :: ctype where
  "c_ipv6hdr = Struct [(''priority'', Bits 1 8), (''flow_lbl'', chars 3), (''payload_len'', u16_t),
     (''nexthdr'', u8_t), (''hop_limit'', u8_t),
     ([], Union [([], Struct [(''saddr'', c_in6_addr), (''daddr'', c_in6_addr)]),
                 (''addrs'', Struct [(''saddr'', c_in6_addr), (''daddr'', c_in6_addr)])])]"

definition c_tcphdr :: ctype where
  "c_tcphdr = Struct [(''source'', u16_t), (''dest'', u16_t), (''seq'', u32_t), (''ack_seq'', u32_t),
     (''res1'', Bits 2 16), (''window'', u16_t), (''check'', u16_t), (''urg_ptr'', u16_t)]"

definition c_udphdr :: ctype where
  "c_udphdr = Struct [(''source'', u16_t), (''dest'', u16_t), (''len'', u16_t), (''check'', u16_t)]"

definition c_icmphdr :: ctype where
  "c_icmphdr = Struct [(''type'', u8_t), (''code'', u8_t), (''checksum'', u16_t),
     (''un'', Union [(''echo'', Struct [(''id'', u16_t), (''sequence'', u16_t)]), (''gateway'', u32_t),
        (''frag'', Struct [(''__unused'', u16_t), (''mtu'', u16_t)]), (''reserved'', Array u8_t 4)])]"

definition c_vxlan_hdr :: ctype where
  "c_vxlan_hdr = Packed [(''vx_flags'', u32_t), (''vx_vni'', u32_t)]"

definition c_iovec :: ctype where
  "c_iovec = Struct [(''iov_base'', ptr_t), (''iov_len'', u64_t)]"

text \<open>The registers a probe saves.\<close>

definition c_pt_regs :: ctype where
  "c_pt_regs = Struct (map (\<lambda>r. (r, u64_t))
     [''r15'', ''r14'', ''r13'', ''r12'', ''bp'', ''bx'', ''r11'', ''r10'', ''r9'', ''r8'',
      ''ax'', ''cx'', ''dx'', ''si'', ''di'', ''orig_ax'', ''ip'', ''cs'', ''flags'', ''sp'', ''ss''])"

definition c_sockaddr_un :: ctype where
  "c_sockaddr_un = Struct [(''sun_family'', u16_t), (''sun_path'', chars 108)]"

definition c_unix_address :: ctype where
  "c_unix_address = Struct [(''refcnt'', u32_t), (''len'', u32_t), (''name'', Array c_sockaddr_un 0)]"

section \<open>Declarations: events\<close>

definition c_sk_common :: ctype where
  "c_sk_common = Packed [(''state'', u8_t), (''reuse_port'', u8_t), (''pad'', Array u8_t 2), (''bound_ifindex'', u32_t)]"

definition c_trace_sk_info :: ctype where
  "c_trace_sk_info = Packed [(''sock_id'', u64_t), (''rx_dst_ifindex'', u32_t), (''backlog_len'', u32_t),
     (''rcv_buff'', u32_t), (''snd_buff'', u32_t), (''priority'', u32_t), (''mark'', u32_t), (''type'', u16_t),
     (''pad'', u16_t)]"

definition c_trace_socket_info :: ctype where
  "c_trace_socket_info = Packed [(''state'', u16_t), (''type'', u16_t), (''pad'', u32_t), (''file_inode'', u64_t),
     (''flags'', u64_t)]"

definition c_trace_icmp :: ctype where
  "c_trace_icmp = Struct [(''type'', u8_t), (''code'', u8_t)]"

definition c_throughput :: ctype where
  "c_throughput = Struct [(''bytes_sent'', u64_t), (''bytes_received'', u64_t), (''is_active'', u64_t)]"

definition c_trace_conn_key :: ctype where
  "c_trace_conn_key = Struct [(''src_port'', u16_t), (''dest_port'', u16_t), (''src_ip'', u32_t), (''dest_ip'', u32_t),
     (''src_ip6'', c_in6_addr), (''dest_ip6'', c_in6_addr), (''family'', u8_t)]"

definition c_trace_conn_info :: ctype where
  "c_trace_conn_info = Struct [(''src_mac'', Array u8_t 6), (''dest_mac'', Array u8_t 6), (''src_port'', u16_t),
     (''dest_port'', u16_t), (''src_ip'', u32_t), (''dest_ip'', u32_t), (''src_ip6'', c_in6_addr),
     (''dest_ip6'', c_in6_addr), (''net_ns'', u32_t), (''family'', u8_t), (''protocol'', u8_t),
     (''sk_protocol'', u16_t), (''loc'', u16_t), (''old_state'', u8_t), (''new_state'', u8_t),
     (''icmp_info'', c_trace_icmp), (''role'', u32_t), (''throughput'', c_throughput)]"

definition c_trace_dev_info :: ctype where
  "c_trace_dev_info = Struct [(''iif_name'', chars 16), (''oif_name'', chars 16), (''iif'', u32_t), (''oif'', u32_t),
     (''iif_type'', u16_t), (''oif_type'', u16_t), (''pad'', Array u16_t 2)]"

definition c_trace_nft_info :: ctype where
  "c_trace_nft_info = Struct [(''type'', u32_t), (''verdict'', u32_t), (''table_name'', chars 64),
     (''table_handle'', u64_t), (''chain_name'', chars 64), (''chain_handle'', u64_t), (''rule_handle'', u64_t),
     (''jump_target'', chars 64), (''nf_proto'', u8_t), (''policy'', u8_t), (''len'', u16_t), (''mark'', u32_t),
     (''base_chain_family'', u32_t)]"

definition c_trace_process_info :: ctype where
  "c_trace_process_info = Struct [(''name'', chars MAX_PROCESS_NAME), (''pid'', u64_t), (''tgid'', u64_t)]"

definition c_link_event :: ctype where
  "c_link_event = Struct [(''cur_time'', u64_t), (''skc'', c_sk_common), (''sk_info'', c_trace_sk_info),
     (''socket_info'', c_trace_socket_info), (''conn_info'', c_trace_conn_info), (''process'', c_trace_process_info)]"

definition c_trace_info :: ctype where
  "c_trace_info = Struct [(''skb_hash'', u32_t), (''sk_info'', c_trace_sk_info), (''dev_info'', c_trace_dev_info),
     (''nft_info'', c_trace_nft_info), (''conn_info'', c_trace_conn_info), (''process_info'', c_trace_process_info)]"

definition c_addr :: ctype where
  "c_addr = Packed [([], Union [(''v4addr'', u32_t), (''v6addr'', Struct [(''pre'', u64_t), (''post'', u64_t)]),
     (''pad'', Array u64_t 2)])]"

definition c_l2_info_t :: ctype where
  "c_l2_info_t = Struct [(''dest_mac'', Array u8_t 6), (''l3_proto'', u16_t), (''pad'', Array u8_t 4)]"

definition c_l3_info_t :: ctype where
  "c_l3_info_t = Packed [(''saddr'', c_addr), (''daddr'', c_addr), (''tot_len'', u16_t), (''ip_version'', u8_t),
     (''l4_proto'', u8_t), (''pad'', Array u8_t 4)]"

definition c_l4_info_t :: ctype where
  "c_l4_info_t = Packed [(''sport'', u16_t), (''dport'', u16_t), (''tcpflags'', u16_t), (''pad'', Array u8_t 2)]"

definition c_icmp_info_t :: ctype where
  "c_icmp_info_t = Packed [(''icmpid'', u16_t), (''icmpseq'', u16_t), (''icmptype'', u8_t), (''pad'', Array u8_t 3)]"

definition c_iptables_info_t :: ctype where
  "c_iptables_info_t = Packed [(''tablename'', chars XT_TABLE_MAXNAMELEN), (''hook'', u32_t), (''verdict'', u32_t),
     (''delay'', u64_t), (''pf'', u8_t), (''pad'', Array u8_t 7)]"

definition c_iptables_trace_t :: ctype where
  "c_iptables_trace_t = Packed [(''in'', chars IFNAMSIZ), (''out'', chars IFNAMSIZ),
     (''tablename'', chars XT_TABLE_MAXNAMELEN), (''chainname'', chars XT_TABLE_MAXNAMELEN), (''rulenum'', u32_t),
     (''hooknum'', u32_t), (''pf'', u8_t), (''pad'', Array u8_t 3)]"

definition c_nft_trace_t :: ctype where
  "c_nft_trace_t = Packed [(''tablename'', chars XT_TABLE_MAXNAMELEN), (''chainname'', chars XT_TABLE_MAXNAMELEN),
     (''delay'', u64_t), (''verdict'', u32_t)]"

definition c_pkt_info_t :: ctype where
  "c_pkt_info_t = Packed [(''ifname'', chars IFNAMSIZ), (''len'', u32_t), (''cpu'', u32_t), (''pid'', u32_t),
     (''netns'', u32_t), (''pkt_type'', u8_t), (''pad'', Array u8_t 7)]"

definition c_skb_event :: ctype where
  "c_skb_event = Struct [(''func_name'', chars 32), (''skb'', u64_t), (''start_ns'', u64_t),
     (''kernel_stack_id'', u32_t), (''flags'', u8_t), (''pad'', Array u8_t 7), (''pkt_info'', c_pkt_info_t),
     (''l2_info'', c_l2_info_t), (''l3_info'', c_l3_info_t), (''l4_info'', c_l4_info_t), (''icmp_info'', c_icmp_info_t),
     ([], Union [(''ipt_info'', c_iptables_info_t), (''trace_info'', c_iptables_trace_t), (''nft_info'', c_nft_trace_t)])]"

text \<open>\<^verbatim>\<open>DATA_SIZE\<close> is the sum of eight sizes.\<close>

definition c_data_size :: nat where
  "c_data_size = sizeof c_ethhdr + sizeof c_vlan_hdr + sizeof c_iphdr + sizeof c_udphdr + sizeof c_vxlan_hdr +
     sizeof c_ethhdr + sizeof c_iphdr + sizeof c_tcphdr"

definition c_tc_event :: ctype where
  "c_tc_event = Packed [(''vlan'', c_vlan_hdr), (''meta'', Struct [(''ifindex'', u32_t), (''mark'', u32_t)]),
     (''direction'', u16_t), (''total_len'', u16_t), (''data'', Array u8_t c_data_size)]"

definition c_eth_event :: ctype where
  "c_eth_event = Struct [(''process'', c_trace_process_info), (''type'', u8_t), (''genlhdr_cmd'', u8_t),
     (''ethcmd'', u16_t), (''ifname'', chars IFNAMSIZ), (''req'', ptr_t)]"

definition c_packet :: ctype where
  "c_packet = Struct [(''process'', c_trace_process_info), (''peer_pid'', u32_t), (''len'', u32_t), (''flags'', u32_t),
     (''comm'', chars MAX_PROCESS_NAME), (''path'', chars UNIX_PATH_MAX), (''data'', chars (unat SS_MAX_SEG_SIZE))]"

definition c_sock_config :: ctype where
  "c_sock_config = Struct [(''pid'', u32_t), (''seg_size'', u32_t), (''segs_per_msg'', u32_t),
     (''sock_path'', chars UNIX_PATH_MAX)]"

section \<open>Sound layouts\<close>

text \<open>Alignments are powers of two up to eight.\<close>

fun wf_type :: "ctype \<Rightarrow> bool" and wf_members :: "(string \<times> ctype) list \<Rightarrow> bool" where
  "wf_type (Scalar n) = (n \<in> {1, 2, 4, 8})"
| "wf_type (Bits n w) = (n \<in> {1, 2, 4, 8})"
| "wf_type (Array t n) = wf_type t"
| "wf_type (Struct ms) = wf_members ms"
| "wf_type (Packed ms) = wf_members ms"
| "wf_type (Union ms) = wf_members ms"
| "wf_members [] = True"
| "wf_members ((f, t) # ms) = (wf_type t \<and> wf_members ms)"

lemma align_up_ge: "0 < a \<Longrightarrow> k \<le> align_up a k"
  unfolding align_up_def using div_mult_mod_eq [of "k + a - 1" a] mod_less_divisor [of a "k + a - 1"] by linarith

lemma align_up_dvd [simp]: "a dvd align_up a k"
  by (simp add: align_up_def)

lemma alignof_power:
  "wf_type t \<Longrightarrow> alignof t \<in> {1, 2, 4, 8}"
  "wf_members ms \<Longrightarrow> members_align ms \<in> {1, 2, 4, 8}"
  by (induction t and ms rule: alignof_members_align.induct) (auto simp: max_def)

lemma alignof_pos [simp]: "wf_type t \<Longrightarrow> 0 < alignof t" "wf_members ms \<Longrightarrow> 0 < members_align ms"
  using alignof_power(1) [of t] alignof_power(2) [of ms] by auto

lemma struct_end_ge: "wf_members ms \<Longrightarrow> k \<le> struct_end k ms"
proof (induction ms arbitrary: k)
  case (Cons m ms)
  obtain f t where m: "m = (f, t)" by fastforce
  with Cons.prems have wf: "wf_type t" "wf_members ms" by simp_all
  have "k \<le> align_up (alignof t) k + sizeof t" using align_up_ge [OF alignof_pos(1) [OF wf(1)], of k] by linarith
  also have "\<dots> \<le> struct_end k (m # ms)" using Cons.IH [OF wf(2)] by (simp add: m)
  finally show ?case .
qed simp

lemma packed_end_ge: "k \<le> packed_end k ms"
proof (induction ms arbitrary: k)
  case (Cons m ms)
  obtain f t where m: "m = (f, t)" by fastforce
  have "k \<le> k + sizeof t" by simp
  also have "\<dots> \<le> packed_end k (m # ms)" using Cons.IH by (simp add: m)
  finally show ?case .
qed simp

lemma struct_member_cases:
  assumes "struct_member k ((g, t) # ms) f = Some (off, u)"
  obtains (here) "off = align_up (alignof t) k" "u = t"
    | (inside) off' where "member t f = Some (off', u)" "off = align_up (alignof t) k + off'"
    | (later) "struct_member (align_up (alignof t) k + sizeof t) ms f = Some (off, u)"
proof -
  consider "g = f" | "g \<noteq> f" "g = []" "member t f \<noteq> None" | "g \<noteq> f" "g \<noteq> [] \<or> member t f = None" by blast
  then show thesis
  proof cases
    case 1
    with assms show ?thesis by (intro here) auto
  next
    case 2
    then obtain off' u' where "member t f = Some (off', u')" by force
    with 2 assms show ?thesis by (intro inside) auto
  next
    case 3
    with assms show ?thesis by (intro later) (cases "g = []"; simp)
  qed
qed

lemma packed_member_cases:
  assumes "packed_member k ((g, t) # ms) f = Some (off, u)"
  obtains (here) "off = k" "u = t"
    | (inside) off' where "member t f = Some (off', u)" "off = k + off'"
    | (later) "packed_member (k + sizeof t) ms f = Some (off, u)"
proof -
  consider "g = f" | "g \<noteq> f" "g = []" "member t f \<noteq> None" | "g \<noteq> f" "g \<noteq> [] \<or> member t f = None" by blast
  then show thesis
  proof cases
    case 1
    with assms show ?thesis by (intro here) auto
  next
    case 2
    then obtain off' u' where "member t f = Some (off', u')" by force
    with 2 assms show ?thesis by (intro inside) auto
  next
    case 3
    with assms show ?thesis by (intro later) (cases "g = []"; simp)
  qed
qed

lemma union_member_cases:
  assumes "union_member ((g, t) # ms) f = Some (off, u)"
  obtains (here) "off = 0" "u = t" | (inside) "member t f = Some (off, u)" | (later) "union_member ms f = Some (off, u)"
proof -
  consider "g = f" | "g \<noteq> f" "g = []" "member t f \<noteq> None" | "g \<noteq> f" "g \<noteq> [] \<or> member t f = None" by blast
  then show thesis
  proof cases
    case 1
    with assms show ?thesis by (intro here) auto
  next
    case 2
    then obtain off' u' where "member t f = Some (off', u')" by force
    with 2 assms show ?thesis by (intro inside) auto
  next
    case 3
    with assms show ?thesis by (intro later) (cases "g = []"; simp)
  qed
qed

text \<open>Every member lies inside its structure.\<close>

lemma member_inside:
  "wf_type t \<Longrightarrow> member t f = Some (off, u) \<Longrightarrow> off + sizeof u \<le> sizeof t"
  "wf_members ms1 \<Longrightarrow> struct_member k1 ms1 f = Some (off, u) \<Longrightarrow> k1 \<le> off \<and> off + sizeof u \<le> struct_end k1 ms1"
  "wf_members ms2 \<Longrightarrow> packed_member k2 ms2 f = Some (off, u) \<Longrightarrow> k2 \<le> off \<and> off + sizeof u \<le> packed_end k2 ms2"
  "wf_members ms3 \<Longrightarrow> union_member ms3 f = Some (off, u) \<Longrightarrow> off + sizeof u \<le> union_end ms3"
proof (induction t and k1 ms1 and k2 ms2 and ms3 arbitrary: off u and off u and off u and off u
    rule: sizeof_struct_end_packed_end_union_end.induct)
  case (4 ms)
  have "off + sizeof u \<le> struct_end 0 ms" using 4 by simp
  also have "\<dots> \<le> sizeof (Struct ms)" using align_up_ge [of "members_align ms" "struct_end 0 ms"] 4(2) by simp
  finally show ?case .
next
  case (6 ms)
  have "off + sizeof u \<le> union_end ms" using 6 by simp
  also have "\<dots> \<le> sizeof (Union ms)" using align_up_ge [of "members_align ms" "union_end ms"] 6(2) by simp
  finally show ?case .
next
  case (8 k g t ms)
  define o1 where "o1 = align_up (alignof t) k"
  have wf: "wf_type t" "wf_members ms" using 8(3) by simp_all
  have ge: "k \<le> o1" "o1 + sizeof t \<le> struct_end (o1 + sizeof t) ms"
    using align_up_ge [OF alignof_pos(1) [OF wf(1)]] struct_end_ge [OF wf(2)] by (auto simp: o1_def)
  have last: "struct_end k ((g, t) # ms) = struct_end (o1 + sizeof t) ms" by (simp add: o1_def)
  from 8(4) have "k \<le> off \<and> off + sizeof u \<le> struct_end (o1 + sizeof t) ms"
  proof (cases rule: struct_member_cases)
    case here
    with ge show ?thesis by (simp add: o1_def)
  next
    case (inside off')
    then show ?thesis using 8(1) [OF wf(1) inside(1)] ge by (simp add: o1_def)
  next
    case later
    then show ?thesis using 8(2) [OF wf(2)] ge by (force simp: o1_def)
  qed
  then show ?case by (simp only: last)
next
  case (10 k g t ms)
  have wf: "wf_type t" "wf_members ms" using 10(3) by simp_all
  have ge: "k + sizeof t \<le> packed_end (k + sizeof t) ms" by (rule packed_end_ge)
  have last: "packed_end k ((g, t) # ms) = packed_end (k + sizeof t) ms" by simp
  from 10(4) have "k \<le> off \<and> off + sizeof u \<le> packed_end (k + sizeof t) ms"
  proof (cases rule: packed_member_cases)
    case here
    with ge show ?thesis by simp
  next
    case (inside off')
    then show ?thesis using 10(1) [OF wf(1) inside(1)] ge by simp
  next
    case later
    then show ?thesis using 10(2) [OF wf(2)] ge by force
  qed
  then show ?case by (simp only: last)
next
  case (12 g t ms)
  have wf: "wf_type t" "wf_members ms" using 12(3) by simp_all
  from 12(4) show ?case
  proof (cases rule: union_member_cases)
    case inside
    then show ?thesis using 12(1) [OF wf(1)] by (force simp: le_max_iff_disj)
  next
    case later
    then show ?thesis using 12(2) [OF wf(2)] by (force simp: le_max_iff_disj)
  qed (simp add: le_max_iff_disj)
qed (simp_all)

section \<open>Properties\<close>

lemma header_sizes:
  "sizeof c_ethhdr = 14" "sizeof c_vlan_hdr = 4" "sizeof c_iphdr = 20" "sizeof c_ipv6hdr = 40" "sizeof c_tcphdr = 20"
  "sizeof c_udphdr = 8" "sizeof c_icmphdr = 8" "sizeof c_vxlan_hdr = 8"
  by code_simp+

lemma event_part_sizes:
  "sizeof c_sk_common = 8" "sizeof c_trace_sk_info = 36" "sizeof c_trace_socket_info = 24" "sizeof c_trace_conn_info = 104"
  "sizeof c_trace_dev_info = 48" "sizeof c_trace_nft_info = 240" "sizeof c_trace_process_info = 80"
  "alignof c_trace_conn_info = 8" "alignof c_trace_process_info = 8" "alignof c_trace_nft_info = 8"
  "alignof c_trace_dev_info = 4"
  by code_simp+

text \<open>The sizes the programs reserve, send, skip and test against are those of the declared structures:
  of every event and of every packet header. The event of the ethtool probes is cut right before
  its last field, at the offset of that field, and every other field is in what is sent. The key of a
  connection ends in three bytes of padding, which the map compares, and the first argument of a
  probed function is saved at offset 112.\<close>

theorem declared_sizes:
  "sizeof c_link_event = link_event_size \<and> sizeof c_trace_info = trace_info_size \<and>
   sizeof c_skb_event = event_size \<and> c_data_size = DATA_SIZE \<and> sizeof c_tc_event = 16 + DATA_SIZE \<and>
   sizeof c_ethhdr = ETH_HLEN \<and> sizeof c_vlan_hdr = VLAN_HLEN \<and> sizeof c_iphdr = IP_HLEN \<and>
   sizeof c_ipv6hdr = IP6_HLEN \<and> sizeof c_tcphdr = TCP_HLEN \<and> sizeof c_udphdr = UDP_HLEN \<and>
   sizeof c_icmphdr = ICMP_HLEN \<and> sizeof c_vxlan_hdr = VXLAN_HLEN \<and> sizeof c_iovec = 16 \<and>
   of_nat (offsetof c_unix_address ''name'' + offsetof c_sockaddr_un ''sun_path'') = SOCK_PATH_OFFSET \<and>
   offsetof c_pt_regs ''di'' = 112 \<and> offsetof c_pt_regs ''sp'' = 152 \<and> sizeof c_pt_regs = 168 \<and>
   sizeof c_trace_conn_key = offsetof c_trace_conn_key ''family'' + 1 + 3 \<and>
   offsetof c_eth_event ''req'' = 104 \<and>
   list_all (\<lambda>f. case member c_eth_event f of None \<Rightarrow> False | Some (off, u) \<Rightarrow> off + sizeof u \<le> offsetof c_eth_event ''req'')
     [''process'', ''type'', ''genlhdr_cmd'', ''ethcmd'', ''ifname'']"
  by code_simp

abbreviation at_member :: "ptr \<Rightarrow> ctype \<Rightarrow> string \<Rightarrow> ptr" where
  "at_member a t f \<equiv> a + of_nat (offsetof t f)"

lemma packet_offsets:
  "offsetof c_ethhdr ''h_dest'' = 0" "offsetof c_ethhdr ''h_source'' = 6" "offsetof c_ethhdr ''h_proto'' = 12"
  "offsetof c_vlan_hdr ''h_vlan_TCI'' = 0" "offsetof c_vlan_hdr ''h_vlan_encapsulated_proto'' = 2"
  "offsetof c_iphdr ''ihl'' = 0" "offsetof c_iphdr ''tos'' = 1" "offsetof c_iphdr ''tot_len'' = 2"
  "offsetof c_iphdr ''id'' = 4" "offsetof c_iphdr ''frag_off'' = 6" "offsetof c_iphdr ''ttl'' = 8"
  "offsetof c_iphdr ''protocol'' = 9" "offsetof c_iphdr ''check'' = 10" "offsetof c_iphdr ''saddr'' = 12"
  "offsetof c_iphdr ''daddr'' = 16"
  "offsetof c_ipv6hdr ''priority'' = 0" "offsetof c_ipv6hdr ''flow_lbl'' = 1" "offsetof c_ipv6hdr ''payload_len'' = 4"
  "offsetof c_ipv6hdr ''nexthdr'' = 6" "offsetof c_ipv6hdr ''hop_limit'' = 7" "offsetof c_ipv6hdr ''saddr'' = 8"
  "offsetof c_ipv6hdr ''daddr'' = 24"
  by code_simp+

lemma transport_offsets:
  "offsetof c_tcphdr ''source'' = 0" "offsetof c_tcphdr ''dest'' = 2" "offsetof c_tcphdr ''seq'' = 4"
  "offsetof c_tcphdr ''ack_seq'' = 8" "offsetof c_tcphdr ''res1'' = 12" "offsetof c_tcphdr ''window'' = 14"
  "offsetof c_tcphdr ''check'' = 16" "offsetof c_tcphdr ''urg_ptr'' = 18"
  "offsetof c_udphdr ''source'' = 0" "offsetof c_udphdr ''dest'' = 2" "offsetof c_udphdr ''len'' = 4"
  "offsetof c_udphdr ''check'' = 6"
  "offsetof c_icmphdr ''type'' = 0" "offsetof c_icmphdr ''code'' = 1" "offsetof c_icmphdr ''checksum'' = 2"
  "offsetof c_icmphdr ''un'' = 4"
  by code_simp+

text \<open>The readers the packet parsers use take every field of a header from the offset the declaration
  of the structure gives it.\<close>

theorem packet_readers_layout:
  "ethhdr_at m a =
     \<lparr>eth_h_dest = load_bytes m 6 (at_member a c_ethhdr ''h_dest''),
      eth_h_source = load_bytes m 6 (at_member a c_ethhdr ''h_source''),
      eth_h_proto = load16 m (at_member a c_ethhdr ''h_proto'')\<rparr> \<and>
   vlan_hdr_at m a =
     \<lparr>vlan_tci = load16 m (at_member a c_vlan_hdr ''h_vlan_TCI''),
      vlan_encap_proto = load16 m (at_member a c_vlan_hdr ''h_vlan_encapsulated_proto'')\<rparr> \<and>
   iphdr_at m a =
     \<lparr>ip_vihl = load8 m (at_member a c_iphdr ''ihl''), ip_tos = load8 m (at_member a c_iphdr ''tos''),
      ip_tot_len = load16 m (at_member a c_iphdr ''tot_len''), ip_id = load16 m (at_member a c_iphdr ''id''),
      ip_frag_off = load16 m (at_member a c_iphdr ''frag_off''), ip_ttl = load8 m (at_member a c_iphdr ''ttl''),
      ip_protocol = load8 m (at_member a c_iphdr ''protocol''), ip_check = load16 m (at_member a c_iphdr ''check''),
      ip_saddr = load32 m (at_member a c_iphdr ''saddr''), ip_daddr = load32 m (at_member a c_iphdr ''daddr'')\<rparr> \<and>
   ipv6hdr_at m a =
     \<lparr>ip6_vprio = load8 m (at_member a c_ipv6hdr ''priority''),
      ip6_flow_lbl = load_bytes m 3 (at_member a c_ipv6hdr ''flow_lbl''),
      ip6_payload_len = load16 m (at_member a c_ipv6hdr ''payload_len''),
      ip6_nexthdr = load8 m (at_member a c_ipv6hdr ''nexthdr''),
      ip6_hop_limit = load8 m (at_member a c_ipv6hdr ''hop_limit''),
      ip6_saddr = in6_at m (at_member a c_ipv6hdr ''saddr''), ip6_daddr = in6_at m (at_member a c_ipv6hdr ''daddr'')\<rparr> \<and>
   tcphdr_at m a =
     \<lparr>tcp_source = load16 m (at_member a c_tcphdr ''source''), tcp_dest = load16 m (at_member a c_tcphdr ''dest''),
      tcp_seq = load32 m (at_member a c_tcphdr ''seq''), tcp_ack_seq = load32 m (at_member a c_tcphdr ''ack_seq''),
      tcp_flags = load16 m (at_member a c_tcphdr ''res1''), tcp_window = load16 m (at_member a c_tcphdr ''window''),
      tcp_check = load16 m (at_member a c_tcphdr ''check''), tcp_urg_ptr = load16 m (at_member a c_tcphdr ''urg_ptr'')\<rparr> \<and>
   udphdr_at m a =
     \<lparr>udp_source = load16 m (at_member a c_udphdr ''source''), udp_dest = load16 m (at_member a c_udphdr ''dest''),
      udp_len = load16 m (at_member a c_udphdr ''len''), udp_check = load16 m (at_member a c_udphdr ''check'')\<rparr>"
  by (simp add: ethhdr_at_def vlan_hdr_at_def iphdr_at_def ipv6hdr_at_def tcphdr_at_def udphdr_at_def
      packet_offsets transport_offsets)

end
