(* ===== verification/Debug_Print.thy ===== *)
theory Debug_Print
  imports Trace_Args Common
begin

text \<open>
  The print and loop macros of \<^verbatim>\<open>bpf/bpf_helpers.h\<close>, with the debug output of \<^verbatim>\<open>common.h\<close>
  that goes through them. What is printed is the helper call the macro makes; an expansion that does
  not compile is \<^verbatim>\<open>None\<close>. The number iterator of the kernel is a parameter of the loops.
\<close>

section \<open>Choosing by the number of arguments\<close>

text \<open>The table a macro passes to \<^verbatim>\<open>___bpf_nth\<close> behind its arguments; a pick that lands on an
  argument does not name a macro.\<close>

definition bpf_pick :: "'a list \<Rightarrow> 'b list \<Rightarrow> 'b option" where
  "bpf_pick args choices = Option.bind (bpf_nth (None # map (\<lambda>_. None) args @ map Some choices)) id"

definition count_args :: "'a list \<Rightarrow> nat option" where
  "count_args args = bpf_pick args [12, 11, 10, 9, 8, 7, 6, 5, 4, 3, 2, 1, 0]"

section \<open>Filling the array of arguments\<close>

definition store_at :: "u64 list \<Rightarrow> nat \<Rightarrow> u64 \<Rightarrow> u64 list option" where
  "store_at arr p x = (if p < length arr then Some (arr[p := x]) else None)"

text \<open>\<^verbatim>\<open>___bpf_fill0\<close> to \<^verbatim>\<open>___bpf_fill12\<close>: the number is that of the macro.\<close>

fun bpf_fill :: "nat \<Rightarrow> u64 list \<Rightarrow> nat \<Rightarrow> u64 list \<Rightarrow> u64 list option" where
  "bpf_fill 0 arr p args = Some arr"
| "bpf_fill (Suc 0) arr p [x] = store_at arr p x"
| "bpf_fill (Suc (Suc n)) arr p (x # args) =
     Option.bind (store_at arr p x) (\<lambda>arr. bpf_fill (Suc n) arr (p + 1) args)"
| "bpf_fill _ arr p args = None"

text \<open>The array declared for the arguments; \<open>stack\<close> is what it holds before.\<close>

definition fill_params :: "(nat \<Rightarrow> u64) \<Rightarrow> u64 list \<Rightarrow> u64 list option" where
  "fill_params stack args =
     Option.bind (count_args args) (\<lambda>n. bpf_fill n (map stack [0..<n]) 0 args)"

section \<open>The print macros\<close>

datatype print_call =
    Bpf_trace_printk string nat "u64 list"
  | Bpf_trace_vprintk string nat "u64 list" nat
  | Bpf_seq_printf u64 string nat "u64 list" nat
  | Bpf_snprintf u64 nat string nat "u64 list" nat

text \<open>\<^verbatim>\<open>sizeof\<close> of a string literal counts its terminator, \<^verbatim>\<open>sizeof\<close> of the array eight bytes a word.\<close>

definition BPF_SEQ_PRINTF :: "(nat \<Rightarrow> u64) \<Rightarrow> u64 \<Rightarrow> string \<Rightarrow> u64 list \<Rightarrow> print_call option" where
  "BPF_SEQ_PRINTF stack seq fmt args =
     map_option (\<lambda>param. Bpf_seq_printf seq fmt (length fmt + 1) param (8 * length param)) (fill_params stack args)"

definition BPF_SNPRINTF :: "(nat \<Rightarrow> u64) \<Rightarrow> u64 \<Rightarrow> nat \<Rightarrow> string \<Rightarrow> u64 list \<Rightarrow> print_call option" where
  "BPF_SNPRINTF stack out out_size fmt args =
     map_option (\<lambda>param. Bpf_snprintf out out_size fmt (length fmt + 1) param (8 * length param)) (fill_params stack args)"

definition bpf_printk_short :: "string \<Rightarrow> u64 list \<Rightarrow> print_call option" where
  "bpf_printk_short fmt args = Some (Bpf_trace_printk fmt (length fmt + 1) args)"

definition bpf_vprintk :: "(nat \<Rightarrow> u64) \<Rightarrow> string \<Rightarrow> u64 list \<Rightarrow> print_call option" where
  "bpf_vprintk stack fmt args =
     map_option (\<lambda>param. Bpf_trace_vprintk fmt (length fmt + 1) param (8 * length param)) (fill_params stack args)"

datatype printk_macro = Vprintk | Printk

definition pick_printk :: "'a list \<Rightarrow> printk_macro option" where
  "pick_printk args = bpf_pick args
     [Vprintk, Vprintk, Vprintk, Vprintk, Vprintk, Vprintk, Vprintk, Vprintk, Vprintk, Printk, Printk, Printk, Printk]"

definition bpf_printk :: "(nat \<Rightarrow> u64) \<Rightarrow> string \<Rightarrow> u64 list \<Rightarrow> print_call option" where
  "bpf_printk stack fmt args =
     (case pick_printk args of
        None \<Rightarrow> None
      | Some Vprintk \<Rightarrow> bpf_vprintk stack fmt args
      | Some Printk \<Rightarrow> bpf_printk_short fmt args)"

text \<open>\<^verbatim>\<open>bpf_debug_printk\<close> of \<^verbatim>\<open>debug_log.h\<close>; the outer option is whether anything is printed.\<close>

definition DEBUG :: u32 where
  "DEBUG = 1"

definition bpf_debug_printk :: "(nat \<Rightarrow> u64) \<Rightarrow> string \<Rightarrow> u64 list \<Rightarrow> print_call option option" where
  "bpf_debug_printk stack fmt args = (if DEBUG \<noteq> 0 then Some (bpf_printk stack fmt args) else None)"

section \<open>The debug output of the shared header\<close>

definition print_mac_info :: "(nat \<Rightarrow> u64) \<Rightarrow> trace_conn_info \<Rightarrow> print_call option" where
  "print_mac_info stack info =
     bpf_printk stack ''mac:  %d:%d:%d:%d:%d:%d %d:%d:%d:%d:%d:%d''
       (map ucast [ci_src_mac info ! 0, ci_src_mac info ! 1, ci_src_mac info ! 2, ci_src_mac info ! 3,
          ci_src_mac info ! 4, ci_src_mac info ! 5, ci_dest_mac info ! 0, ci_dest_mac info ! 1,
          ci_dest_mac info ! 2, ci_dest_mac info ! 3, ci_dest_mac info ! 4, ci_dest_mac info ! 5])"

text \<open>\<open>field\<close> is the relocated offset of a member of the socket, \<open>info\<close> the address of the text.\<close>

definition print_conn_info ::
  "kernel \<Rightarrow> (string \<Rightarrow> u64) \<Rightarrow> (nat \<Rightarrow> u64) \<Rightarrow> ptr \<Rightarrow> ptr \<Rightarrow> print_call option" where
  "print_conn_info k field stack sk info =
     bpf_printk stack ''connect lport=%d rport=%d laddr=%pI4 raddr=%pI4 %s''
       [ucast (skc_num (sk_at k sk)), ucast (ntohs (skc_dport (sk_at k sk))),
        sk + field ''skc_rcv_saddr'', sk + field ''skc_daddr'', info]"

definition print_conn_info_v6 ::
  "kernel \<Rightarrow> (string \<Rightarrow> u64) \<Rightarrow> (nat \<Rightarrow> u64) \<Rightarrow> ptr \<Rightarrow> ptr \<Rightarrow> print_call option" where
  "print_conn_info_v6 k field stack sk info =
     bpf_printk stack ''connect lport=%d rport=%d laddr=%pI6 raddr=%pI6 %s''
       [ucast (skc_num (sk_at k sk)), ucast (ntohs (skc_dport (sk_at k sk))),
        sk + field ''skc_v6_rcv_saddr'', sk + field ''skc_v6_daddr'', info]"

section \<open>Loops over the number iterator\<close>

record 'it iter_num_ops =
  num_new :: "int \<Rightarrow> int \<Rightarrow> 'it"
  num_next :: "'it \<Rightarrow> int option \<times> 'it"
  num_destroy :: "'it \<Rightarrow> 'it"

text \<open>A body takes the loop variable and the state, and says whether it left the loop by \<^verbatim>\<open>break\<close>. The
  loop ends when the iterator has no number, or one outside the range.\<close>

partial_function (option) bpf_for_loop ::
  "'it iter_num_ops \<Rightarrow> (int \<Rightarrow> 's \<Rightarrow> 's \<times> bool) \<Rightarrow> int \<Rightarrow> int \<Rightarrow> 'it \<Rightarrow> 's \<Rightarrow> ('it \<times> 's) option" where
  "bpf_for_loop ops body start end it s =
     (case num_next ops it of
        (None, it) \<Rightarrow> Some (it, s)
      | (Some i, it) \<Rightarrow>
          if i \<ge> start \<and> i < end then
            (case body i s of (s, brk) \<Rightarrow>
               if brk then Some (it, s) else bpf_for_loop ops body start end it s)
          else Some (it, s))"

definition bpf_for ::
  "'it iter_num_ops \<Rightarrow> (int \<Rightarrow> 's \<Rightarrow> 's \<times> bool) \<Rightarrow> int \<Rightarrow> int \<Rightarrow> 's \<Rightarrow> ('it \<times> 's) option" where
  "bpf_for ops body start end s =
     map_option (\<lambda>(it, s). (num_destroy ops it, s))
       (bpf_for_loop ops body start end (num_new ops start end) s)"

partial_function (option) bpf_repeat_loop ::
  "'it iter_num_ops \<Rightarrow> ('s \<Rightarrow> 's \<times> bool) \<Rightarrow> 'it \<Rightarrow> 's \<Rightarrow> ('it \<times> 's) option" where
  "bpf_repeat_loop ops body it s =
     (case num_next ops it of
        (None, it) \<Rightarrow> Some (it, s)
      | (Some i, it) \<Rightarrow>
          (case body s of (s, brk) \<Rightarrow>
             if brk then Some (it, s) else bpf_repeat_loop ops body it s))"

definition bpf_repeat ::
  "'it iter_num_ops \<Rightarrow> ('s \<Rightarrow> 's \<times> bool) \<Rightarrow> int \<Rightarrow> 's \<Rightarrow> ('it \<times> 's) option" where
  "bpf_repeat ops body n s =
     map_option (\<lambda>(it, s). (num_destroy ops it, s)) (bpf_repeat_loop ops body (num_new ops 0 n) s)"

section \<open>Facts\<close>

lemma bpf_pick_index:
  assumes "length choices = 13" "length args \<le> 12"
  shows "bpf_pick args choices = Some (choices ! (12 - length args))"
  using assms by (simp add: bpf_pick_def bpf_nth_def nth_append)

lemma bpf_pick_too_many:
  assumes "length args > 12" shows "bpf_pick args choices = None"
  using assms by (simp add: bpf_pick_def bpf_nth_def nth_append)

lemma count_args_length:
  "count_args args = (if length args \<le> 12 then Some (length args) else None)"
proof (cases "length args \<le> 12")
  case True
  have down: "[12, 11, 10, 9, 8, 7, 6, 5, 4, 3, 2, 1, 0] = map (\<lambda>i. 12 - i) [0..<13]"
    by (simp add: upt_rec)
  show ?thesis
    using True unfolding count_args_def down by (subst bpf_pick_index) simp_all
qed (simp add: count_args_def bpf_pick_too_many)

lemma pick_printk_length:
  "pick_printk args =
     (if length args \<le> 3 then Some Printk else if length args \<le> 12 then Some Vprintk else None)"
proof (cases "length args \<le> 12")
  case True
  have table: "[Vprintk, Vprintk, Vprintk, Vprintk, Vprintk, Vprintk, Vprintk, Vprintk, Vprintk,
      Printk, Printk, Printk, Printk] = map (\<lambda>i. if i < 9 then Vprintk else Printk) [0..<13]"
    by (simp add: upt_rec)
  show ?thesis
    using True unfolding pick_printk_def table by (subst bpf_pick_index) auto
qed (simp add: pick_printk_def bpf_pick_too_many)

lemma bpf_fill_suffix:
  "args \<noteq> [] \<Longrightarrow> length arr = p + length args \<Longrightarrow>
   bpf_fill (length args) arr p args = Some (take p arr @ args)"
proof (induction args arbitrary: arr p)
  case (Cons x args)
  show ?case
  proof (cases args)
    case Nil
    with Cons.prems show ?thesis
      by (simp add: store_at_def upd_conv_take_nth_drop)
  next
    case (Cons y ys)
    then have "bpf_fill (length args) (arr[p := x]) (p + 1) args = Some (take (p + 1) (arr[p := x]) @ args)"
      using Cons.prems by (intro Cons.IH) simp_all
    with Cons Cons.prems show ?thesis
      by (simp add: store_at_def take_Suc_conv_app_nth)
  qed
qed simp

lemma fill_params_args:
  "fill_params stack args = (if length args \<le> 12 then Some args else None)"
  using bpf_fill_suffix [of args "map stack [0..<length args]" 0]
  by (cases args) (auto simp: fill_params_def count_args_length)

text \<open>The numbers an iterator yields, and a loop over a list with \<^verbatim>\<open>break\<close>.\<close>

fun yields :: "('it \<Rightarrow> int option \<times> 'it) \<Rightarrow> 'it \<Rightarrow> int list \<Rightarrow> bool" where
  "yields next_num it [] \<longleftrightarrow> fst (next_num it) = None"
| "yields next_num it (i # is) \<longleftrightarrow> fst (next_num it) = Some i \<and> yields next_num (snd (next_num it)) is"

fun run_body :: "(int \<Rightarrow> 's \<Rightarrow> 's \<times> bool) \<Rightarrow> int list \<Rightarrow> 's \<Rightarrow> 's" where
  "run_body body [] s = s"
| "run_body body (i # is) s = (if snd (body i s) then fst (body i s) else run_body body is (fst (body i s)))"

lemma bpf_for_loop_runs:
  "yields (num_next ops) it is \<Longrightarrow>
   \<exists>it'. bpf_for_loop ops body start end it s =
     Some (it', run_body body (takeWhile (\<lambda>i. start \<le> i \<and> i < end) is) s)"
proof (induction "is" arbitrary: it s)
  case Nil
  then show ?case by (subst bpf_for_loop.simps) (simp add: case_prod_beta)
next
  case (Cons i "is")
  from Cons.prems have i: "fst (num_next ops it) = Some i" and rest: "yields (num_next ops) (snd (num_next ops it)) is"
    by simp_all
  from Cons.IH [OF rest] i show ?case
    by (subst bpf_for_loop.simps) (simp add: case_prod_beta)
qed

lemma bpf_repeat_loop_runs:
  "yields (num_next ops) it is \<Longrightarrow>
   \<exists>it'. bpf_repeat_loop ops body it s = Some (it', run_body (\<lambda>_. body) is s)"
proof (induction "is" arbitrary: it s)
  case Nil
  then show ?case by (subst bpf_repeat_loop.simps) (simp add: case_prod_beta)
next
  case (Cons i "is")
  from Cons.prems have i: "fst (num_next ops it) = Some i" and rest: "yields (num_next ops) (snd (num_next ops it)) is"
    by simp_all
  from Cons.IH [OF rest] i show ?case
    by (subst bpf_repeat_loop.simps) (simp add: case_prod_beta)
qed

section \<open>Properties\<close>

text \<open>Every print macro makes exactly one helper call, with all arguments in order and the sizes of the
  format and of the array: \<^verbatim>\<open>bpf_printk\<close> the plain call for up to three arguments, the array call for
  four to twelve, and it does not compile for more. What the array held before is never passed on.\<close>

theorem print_macros_pass_arguments:
  "bpf_printk stack fmt args =
     (if length args \<le> 3 then Some (Bpf_trace_printk fmt (length fmt + 1) args)
      else if length args \<le> 12 then Some (Bpf_trace_vprintk fmt (length fmt + 1) args (8 * length args))
      else None) \<and>
   BPF_SNPRINTF stack out out_size fmt args =
     (if length args \<le> 12 then Some (Bpf_snprintf out out_size fmt (length fmt + 1) args (8 * length args))
      else None) \<and>
   BPF_SEQ_PRINTF stack seq fmt args =
     (if length args \<le> 12 then Some (Bpf_seq_printf seq fmt (length fmt + 1) args (8 * length args))
      else None)"
  by (simp add: bpf_printk_def pick_printk_length bpf_printk_short_def bpf_vprintk_def fill_params_args
      BPF_SNPRINTF_def BPF_SEQ_PRINTF_def)

text \<open>The MAC addresses fill the twelve places exactly, source first; a line on a connection takes five.\<close>

lemma six_bytes: "length xs = 6 \<Longrightarrow> [xs ! 0, xs ! 1, xs ! 2, xs ! 3, xs ! 4, xs ! 5] = xs"
  by (rule nth_equalityI) (auto simp: less_Suc_eq numeral_eq_Suc)

lemma print_mac_info_bytes:
  assumes "length (ci_src_mac info) = 6" "length (ci_dest_mac info) = 6"
  shows "print_mac_info stack info =
    Some (Bpf_trace_vprintk ''mac:  %d:%d:%d:%d:%d:%d %d:%d:%d:%d:%d:%d'' 42
      (map ucast (ci_src_mac info @ ci_dest_mac info)) 96)"
proof -
  have args: "map ucast [ci_src_mac info ! 0, ci_src_mac info ! 1, ci_src_mac info ! 2, ci_src_mac info ! 3,
      ci_src_mac info ! 4, ci_src_mac info ! 5, ci_dest_mac info ! 0, ci_dest_mac info ! 1,
      ci_dest_mac info ! 2, ci_dest_mac info ! 3, ci_dest_mac info ! 4, ci_dest_mac info ! 5] =
      (map ucast (ci_src_mac info @ ci_dest_mac info) :: u64 list)"
    by (subst six_bytes [OF assms(1), symmetric], subst six_bytes [OF assms(2), symmetric]) simp
  have "length (map ucast (ci_src_mac info @ ci_dest_mac info) :: u64 list) = 12" using assms by simp
  then show ?thesis
    unfolding print_mac_info_def args
    by (simp add: bpf_printk_def pick_printk_length bpf_vprintk_def fill_params_args)
qed

lemma print_conn_info_shape:
  "\<exists>args. length args = 5 \<and> print_conn_info k field stack sk info =
     Some (Bpf_trace_vprintk ''connect lport=%d rport=%d laddr=%pI4 raddr=%pI4 %s'' 51 args 40)"
  by (simp add: print_conn_info_def bpf_printk_def pick_printk_length bpf_vprintk_def fill_params_args)

text \<open>The counting loops end whenever the iterator does: the body runs for the numbers it yields, in
  order, until it breaks or, in \<^verbatim>\<open>bpf_for\<close>, until a number is outside the range, whatever the
  iterator yields; and the iterator is destroyed.\<close>

theorem bpf_loops_end:
  assumes "yields (num_next ops) (num_new ops start end) is" "yields (num_next ops) (num_new ops 0 n) is'"
  shows "(\<exists>it. bpf_for ops body start end s =
      Some (num_destroy ops it, run_body body (takeWhile (\<lambda>i. start \<le> i \<and> i < end) is) s)) \<and>
    (\<exists>it. bpf_repeat ops rep n s = Some (num_destroy ops it, run_body (\<lambda>_. rep) is' s))"
  using bpf_for_loop_runs [OF assms(1), of body start "end" s] bpf_repeat_loop_runs [OF assms(2), of rep s]
  unfolding bpf_for_def bpf_repeat_def by fastforce

theorem bpf_loops_end_witness:
  "let ops = \<lparr>num_new = \<lambda>start end. (start, end),
       num_next = \<lambda>(cur, end). if cur < end then (Some cur, (cur + 1, end)) else (None, (cur, end)),
       num_destroy = id\<rparr>
   in (\<exists>it. bpf_for ops (\<lambda>i s. (s + i, i = 4)) 2 7 0 = Some (num_destroy ops it, 9 :: int)) \<and>
      (\<exists>it. bpf_repeat ops (\<lambda>s. (2 * s, False)) 3 (1 :: int) = Some (num_destroy ops it, 8))"
proof -
  let ?ops = "\<lparr>num_new = \<lambda>start end. (start, end),
       num_next = \<lambda>(cur, end :: int). if cur < end then (Some cur, (cur + 1, end)) else (None, (cur, end)),
       num_destroy = id\<rparr>"
  have "yields (num_next ?ops) (num_new ?ops 2 7) [2, 3, 4, 5, 6]" "yields (num_next ?ops) (num_new ?ops 0 3) [0, 1, 2]"
    by simp_all
  from bpf_loops_end [OF this, of "\<lambda>i s. (s + i, i = 4)" 0 "\<lambda>s. (s, False)"]
    bpf_loops_end [OF this, of "\<lambda>i s. (s, False)" "1 :: int" "\<lambda>s. (2 * s, False)"]
  show ?thesis by simp
qed

end
