(* ===== verification/Tcp_State.thy ===== *)
theory Tcp_State
  imports Packet Kernel
begin

text \<open>
  \<^verbatim>\<open>tcp-state.c\<close> and \<^verbatim>\<open>dns.h\<close>: the probe of \<^verbatim>\<open>udp_send_skb\<close> reads the DNS header and the first 64
  bytes behind it into two local structures. Every program of the file returns 0 and has no other effect.
\<close>

record dns_header =
  dns_id :: u16
  dns_flags :: u16
  dns_qdcount :: u16
  dns_ancount :: u16
  dns_nscount :: u16
  dns_arcount :: u16

definition dns_header_of :: "bytes \<Rightarrow> dns_header" where
  "dns_header_of bs =
     \<lparr>dns_id = le_word (take 2 bs), dns_flags = le_word (take 2 (drop 2 bs)),
      dns_qdcount = le_word (take 2 (drop 4 bs)), dns_ancount = le_word (take 2 (drop 6 bs)),
      dns_nscount = le_word (take 2 (drop 8 bs)), dns_arcount = le_word (take 2 (drop 10 bs))\<rparr>"

definition dns_header_bytes :: "dns_header \<Rightarrow> bytes" where
  "dns_header_bytes h =
     to_le 2 (dns_id h) @ to_le 2 (dns_flags h) @ to_le 2 (dns_qdcount h) @ to_le 2 (dns_ancount h) @
     to_le 2 (dns_nscount h) @ to_le 2 (dns_arcount h)"

text \<open>The return value, and what the two locals hold: the header of the query and the data of the message.\<close>

definition udp_send_skb :: "kernel \<Rightarrow> ptr \<Rightarrow> int \<times> dns_header \<times> bytes" where
  "udp_send_skb k skb =
     (let dns_offset = ucast (skb_transport_header (skb_at k skb)) + of_nat UDP_HLEN :: u32;
          header = load_bytes (k_mem k) 12 (skb_head (skb_at k skb) + ucast dns_offset);
          data = load_bytes (k_mem k) 64 (skb_head (skb_at k skb) + ucast dns_offset + 12)
      in (0, dns_header_of header, data))"

lemma length_dns_header_bytes [simp]: "length (dns_header_bytes h) = 12"
  by (simp add: dns_header_bytes_def)

lemma dns_header_round_trip: "dns_header_of (dns_header_bytes h) = h"
  by (cases h) (simp add: dns_header_of_def dns_header_bytes_def le_word_to_le)

interpretation dns: wire_format "\<lambda>m a. dns_header_of (load_bytes m 12 a)" dns_header_bytes 12 "\<lambda>_. True"
proof unfold_locales
  fix h m a assume "mem_at m a (dns_header_bytes h)"
  then show "dns_header_of (load_bytes m 12 a) = h"
    by (simp add: load_bytes_mem_at dns_header_round_trip)
next
  fix m m' a assume "agree m m' a 12"
  then show "dns_header_of (load_bytes m 12 a) = dns_header_of (load_bytes m' 12 a)"
    by (simp add: load_bytes_def agree_probe_read)
qed simp

text \<open>A DNS message behind the UDP header is read as it was written.\<close>

lemma udp_send_skb_reads:
  assumes "mem_at (k_mem k) (skb_head (skb_at k skb) + ucast (skb_transport_header (skb_at k skb)))
      (udphdr_bytes u @ dns_header_bytes d @ message)"
    and "length message = 64"
  shows "udp_send_skb k skb = (0, d, message)"
proof -
  let ?th = "skb_transport_header (skb_at k skb)"
  have off: "ucast (ucast ?th + of_nat UDP_HLEN :: u32) = (ucast ?th + 8 :: u64)"
  proof (rule word_unat_eq_iff [THEN iffD2])
    have "unat ?th < 65536" using unsigned_less [of ?th, where ?'a = nat] by simp
    then show "unat (ucast (ucast ?th + of_nat UDP_HLEN :: u32) :: u64) = unat (ucast ?th + 8 :: u64)"
      by (simp add: UDP_HLEN_def unat_word_ariths unsigned_ucast_eq take_bit_eq_mod)
  qed
  show ?thesis
    using assms dns.read_wire [where h = d and m = "k_mem k" and a = "skb_head (skb_at k skb) + ucast ?th + 8"]
    unfolding udp_send_skb_def Let_def off by (simp add: algebra_simps load_bytes_mem_at)
qed

end
