(* ===== verification/Spec2Isabelle.thy ===== *)
theory Spec2Isabelle
  imports Link_Interleave Ipt_History Capture_Reports Flow_Reports Unix_Message Trace_Args Core_Read Ipt_Module
    Eth_History Map_Race Sampling Layout Debug_Print Tcp_State
begin

text \<open>
  A model of the kernel side of \<^verbatim>\<open>network-trace\<close>: the eBPF programs under \<^verbatim>\<open>src/ebpf\<close>, the
  headers they share under \<^verbatim>\<open>src/ebpf/headers\<close>, and the kernel module \<^verbatim>\<open>src/kernel\<close> that
  attaches some of them. A program is a set of handlers, each run on one event of the kernel (a probe
  of a function, a tracepoint, a packet). A handler reads kernel structures through pointers,
  keeps what it needs between events in BPF maps, and sends event structures to user space
  through a ring buffer or a perf event array.

  \<^bold>\<open>Theories and sources.\<close>

  \<^item> \<^verbatim>\<open>Prelude\<close>: integer types, error numbers, byte memory, the probe reads, little-endian loads and
    stores. \<^verbatim>\<open>Endian\<close>: \<^verbatim>\<open>bpf/bpf_endian.h\<close>, \<^verbatim>\<open>bpf/bpf_csum.h\<close>.
  \<^item> \<^verbatim>\<open>Runs\<close>: tracers as event systems, in three locales: an invariant every call keeps, state that
    belongs to the task or CPU that runs, and the simulation of a whole run by the run of an abstract
    state. The connection tracer, the iptables tracer, the Unix socket capture and the ethtool tracer
    are interpretations.
  \<^item> \<^verbatim>\<open>Bpf_Maps\<close>: hash and array maps with the helpers documented in \<^verbatim>\<open>bpf/bpf_helper_defs.h\<close>, and the
    compound routines of \<^verbatim>\<open>bpf/map_helpers.h\<close> and \<^verbatim>\<open>bpf/bpf_map_helpers.h\<close>. The interface of the
    helpers is the locale \<^verbatim>\<open>bpf_map\<close>, with \<^verbatim>\<open>bpf_hash_map\<close> and \<^verbatim>\<open>bpf_array_map\<close> for what
    the two kinds add, each interpreted on the map it describes. \<^verbatim>\<open>Map_Race\<close>: the compound insertion
    as interleaved steps of several CPUs.
  \<^item> \<^verbatim>\<open>Bpf_Env\<close>: the current task, CPU and time, the ring buffer, and the scope guards of
    \<^verbatim>\<open>bpf/bpf_cleanup.h\<close>, clients of a locale of ring buffers.
  \<^item> \<^verbatim>\<open>Kernel\<close>: the kernel structures that are read, one record each, in heaps from addresses
    to records. \<^verbatim>\<open>Common\<close>: \<^verbatim>\<open>common.h\<close>. \<^verbatim>\<open>Packet\<close>: the packet headers of \<^verbatim>\<open>vmlinux.h\<close>,
    with the locale \<^verbatim>\<open>wire_format\<close> (what a parser relies on), interpreted on each header.
    \<^verbatim>\<open>Wire_Packet\<close>: whole packets and the socket buffers that hold them, which the reports of the
    tracers are stated for in \<^verbatim>\<open>Packet_Reports\<close> (nftables, iptables), \<^verbatim>\<open>Capture_Reports\<close> (header
    capture) and \<^verbatim>\<open>Flow_Reports\<close> (flow tracer, and the agreement of the three).
  \<^item> \<^verbatim>\<open>Core_Read\<close>: \<^verbatim>\<open>bpf/bpf_core_read.h\<close>. \<^verbatim>\<open>Trace_Args\<close>: \<^verbatim>\<open>bpf/bpf_tracing.h\<close> and
    \<^verbatim>\<open>bpf/bpf_kprobe_args.h\<close>. \<^verbatim>\<open>Sampling\<close>: \<^verbatim>\<open>atomic.h\<close>, \<^verbatim>\<open>counters.h\<close>, \<^verbatim>\<open>string.h\<close>,
    \<^verbatim>\<open>role.h\<close>, \<^verbatim>\<open>lib_tp_msg.h\<close>. \<^verbatim>\<open>Layout\<close>: the declarations of events and headers as C types.
  \<^item> \<^verbatim>\<open>Tcp_Link\<close>: \<^verbatim>\<open>tcp-link-trace.c\<close>, who opens and accepts which TCP connection. Its state is
    \<^verbatim>\<open>link_state\<close>: the maps \<^verbatim>\<open>conn_ctx_map\<close> (role of a connection by its addresses and ports),
    \<^verbatim>\<open>conn_tracing_map\<close> (role of a socket), \<^verbatim>\<open>fd_info_map\<close> (a connect call in progress) and the ring
    buffer. \<^verbatim>\<open>Tcp_Link_Run\<close> is the step relation over its handlers, \<^verbatim>\<open>Tcp_Link_Props\<close> the
    branches of the state change probe, \<^verbatim>\<open>Tcp_Link_Claims\<close> the properties. \<^verbatim>\<open>Link_Table\<close> is what the
    maps mean, a plain table, and the refinement of the handlers to its operations;
    \<^verbatim>\<open>Link_History\<close> lifts it to whole runs and follows one socket through them; \<^verbatim>\<open>Link_Sockets\<close> splits
    a run into the lives of single sockets. \<^verbatim>\<open>Link_Interleave\<close> has the handlers a second time, one access to
    what they share after the other, as programs of \<^verbatim>\<open>Interleave\<close>, which run on several CPUs at once (locale
    \<^verbatim>\<open>safe_programs\<close>, interpreted on these handlers); alone, each does what its first form does in one step.
  \<^item> \<^verbatim>\<open>Nft_Trace\<close> with \<^verbatim>\<open>Nft_Claims\<close>: \<^verbatim>\<open>nftrace-trace.c\<close> and \<^verbatim>\<open>nftrace.h\<close>.
  \<^item> \<^verbatim>\<open>Skb_Helpers\<close>, \<^verbatim>\<open>Ipt_Trace\<close> with \<^verbatim>\<open>Ipt_Claims\<close> and \<^verbatim>\<open>Ipt_History\<close> (whole runs): \<^verbatim>\<open>skb_helpers.h\<close>,
    \<^verbatim>\<open>iptables-trace.c\<close>.
    Entry and return probes share the map \<^verbatim>\<open>skbtracer_ipt\<close>, keyed by the task.
  \<^item> \<^verbatim>\<open>Ipt_Module\<close>: \<^verbatim>\<open>src/kernel/iptables-trace.c\<close>, which registers kprobes and runs the programs
    of \<^verbatim>\<open>iptables-trace.c\<close> from them.
  \<^item> \<^verbatim>\<open>Tc_Dump\<close> with \<^verbatim>\<open>Tc_Claims\<close>: \<^verbatim>\<open>tc_dump.h\<close>. \<^verbatim>\<open>Unix_Sock\<close> with \<^verbatim>\<open>Unix_Claims\<close>,
    \<^verbatim>\<open>Unix_Run\<close> (its runs on all CPUs) and \<^verbatim>\<open>Unix_Message\<close> (a message from end to end):
    \<^verbatim>\<open>unix-sock-trace.c\<close>. \<^verbatim>\<open>Xdp\<close> with \<^verbatim>\<open>Xdp_Claims\<close>: \<^verbatim>\<open>xdp-trace.c\<close>, \<^verbatim>\<open>lib_xdp_tc.h\<close>.
    \<^verbatim>\<open>Ethtool\<close> with \<^verbatim>\<open>Eth_History\<close> (whole runs): \<^verbatim>\<open>ethtool-trace.c\<close>. \<^verbatim>\<open>Tcp_State\<close>: \<^verbatim>\<open>tcp-state.c\<close> and \<^verbatim>\<open>dns.h\<close>, a probe that reads a
    DNS message and drops it.
  \<^item> \<^verbatim>\<open>Debug_Print\<close>: the print and loop macros of \<^verbatim>\<open>bpf/bpf_helpers.h\<close>, and the debug output of
    \<^verbatim>\<open>common.h\<close>.

  \<^bold>\<open>Conventions.\<close> A handler takes the environment of its run (the results of the helpers that ask the
  kernel, the heaps), its arguments and the state, and returns the state. A map helper returns
  its error number and the new map; a NULL result is \<^verbatim>\<open>None\<close>. A read of kernel memory that faults gives
  zeroes, as the helper does. Event structures are records; what is sent is appended to a list.
  Names are those of the source without leading underscores, with a suffix or a prefix where two
  files use the same one.

  \<^bold>\<open>What the lemmas show.\<close>

  \<^item> Connections: in every reachable state the maps hold valid roles and stay within their bounds and no
    reservation is left pending; exactly which state changes are reported and with which role and
    location; that a role once recorded is what every later event of the socket reports until its
    removal; that each of the three destroy hooks forgets the socket, and its connection at the key it
    builds; that while there is room a
    whole run refines the run of a table, in which the role and the events of a socket are decided by the
    operations on this socket alone; that the invariant survives every interleaving of the accesses
    of any handlers to the maps and the ring buffer. Other theorems pin down defects: the key of the connect calls is a
    return code rather than a frame, so overlapping calls share an entry; a role decided by the
    state machine is not stored with the connection; the key of a connection depends on what the
    stack held; and a mark that is interrupted overwrites a decided role, as no serial order does.
  \<^item> nftables: the packet parsers read nothing outside the linear buffer. For every well-formed packet
    (IPv4 with options or without, IPv6; TCP, UDP, ICMP) the events of the nftables and the iptables
    tracer are given field by field, as is the flow key of the XDP program, and the three agree where
    they overlap. iptables: the events of a task are determined by its history, which shows what
    nesting loses; the ring buffer is only scratch space, and without a reader it fills up. The module: loading is all or nothing, unloading releases
    everything exactly once.
  \<^item> Captures: the header copy stays in its buffer, refines a parser of the frame, and has the headers of a
    packet, tagged or tunnelled or neither, at their places; the path comparison
    in words equals a string prefix test; segments are clamped, a message of a socket with a matching
    name is reassembled from the events, and one without sends none; the XDP programs
    read nothing outside the frame.
  \<^item> ethtool: the events of a CPU are determined by its history, and the event that cannot be deleted is
    repeated. Maps: callers of the insertion with \<^verbatim>\<open>BPF_NOEXIST\<close> agree under any interleaving; with
    \<^verbatim>\<open>BPF_ANY\<close>, which the programs use, one overwrites the other.
  \<^item> Shared parts: bit-field reads and writes are inverse, relocated pointer chains are followed in the
    layout of the running kernel and plain ones in that of the compiler, a broken chain fails as
    documented, argument macros deliver what the calling convention and the trampoline pass, a header
    whose checksum is computed verifies unless the helper fails, the sampler counts every packet once under any interleaving,
    the string comparison always returns, the print macros pass every argument, the counting loops
    end when the iterator does, and the sizes and offsets used are those of the declared structures.

  \<^bold>\<open>Bounds and fuel.\<close> Loops with a constant bound recurse on a number with that bound: three frames in
  \<^verbatim>\<open>find_fd_info\<close>, ten segments in \<^verbatim>\<open>collect_segs\<close>, 108 bytes of a path. The comparison of \<^verbatim>\<open>string.h\<close>
  has fuel 9, and is shown to return: it takes two bytes of sixteen per round. The loops over the kernel's
  iterator are partial functions, shown to return for any iterator that ends. Map capacities and
  buffer sizes are those of the declarations; the ring buffers have a number of free bytes, and
  a reservation fails when there are too few.

  \<^bold>\<open>Not modelled.\<close> The calls of \<^verbatim>\<open>bpf_printk\<close> in the handlers (what they print is modelled in
  \<^verbatim>\<open>Debug_Print\<close>, that they print is not), \<^verbatim>\<open>pr_info\<close>, and the lookups only these use. The empty handlers of
  \<^verbatim>\<open>tcp-state.c\<close> and \<^verbatim>\<open>openssl-trace.c\<close>, which return 0. Of \<^verbatim>\<open>vmlinux.h\<close>, generated from a kernel,
  only the structures and constants that are used. The parts of libbpf's headers that no program uses
  (\<^verbatim>\<open>bpf_gen_internal.h\<close>, \<^verbatim>\<open>bpf_iter.h\<close>, \<^verbatim>\<open>bpf_insn.h\<close>, \<^verbatim>\<open>bpf_common.h\<close>). The branch of
  \<^verbatim>\<open>iptables-trace.c\<close> for kernels before 5.16, which does not compile. The user space in Go. That the
  slot of a deleted map entry can be reused while a program still reads through the pointer it got
  before: what it found stays as it was. Handlers are one step each, but for those of the connection tracer
  in \<^verbatim>\<open>Link_Interleave\<close> and the compound insertion in \<^verbatim>\<open>Map_Race\<close>.
\<close>

end
